theory Spec2Isabelle
  imports Complex_Main
begin

section \<open>Variational empowerment estimators\<close>

text \<open>
  A shallow embedding of \<^verbatim>\<open>variational_empowerment.py\<close>: the joint estimator
  (\<^verbatim>\<open>VariationalJointEmpowerment\<close>, one source, planning and transition network for all
  agents) and the transfer estimator (\<^verbatim>\<open>VariationalTransferEmpowerment\<close>, one source and
  one planning network per agent, a single transition network).

  Dimensions, counters and indices are natural numbers: the source only ever adds to them,
  starting from zero or from the sizes of gym spaces.
\<close>

subsection \<open>Exceptions\<close>

text \<open>
  Python's \<^verbatim>\<open>KeyError\<close>, \<^verbatim>\<open>IndexError\<close> and \<^verbatim>\<open>ValueError\<close>, and the runtime errors
  of torch: a shape that does not fit, operands on different devices, and a move to an
  accelerator that is not there. No method catches an exception.
\<close>

datatype error =
    KeyError string
  | IndexError
  | ValueError
  | ShapeMismatch
  | DeviceMismatch
  | CudaUnavailable

text \<open>
  \<open>ebind m k\<close> goes on with \<open>k\<close> unless \<open>m\<close> raised; \<open>getitem\<close> is \<^verbatim>\<open>d[k]\<close> on a
  dictionary.
\<close>

fun ebind :: "error + 'x \<Rightarrow> ('x \<Rightarrow> error + 'y) \<Rightarrow> error + 'y" where
  "ebind (Inl e) k = Inl e"
| "ebind (Inr x) k = k x"

definition getitem :: "(string \<rightharpoonup> 'v) \<Rightarrow> string \<Rightarrow> error + 'v" where
  "getitem d k = (case d k of None \<Rightarrow> Inl (KeyError k) | Some v \<Rightarrow> Inr v)"

subsection \<open>Function approximators, optimizers and the torch backend\<close>

text \<open>
  \<^verbatim>\<open>MLPNetwork\<close>, \<^verbatim>\<open>gumbel_softmax\<close>, \<^verbatim>\<open>Adam\<close> and the tensor arithmetic
  are collaborators of the estimators. Everything numeric they compute is taken from a
  \<open>backend\<close> record, so that every theorem holds whatever they compute; what the
  estimators themselves decide (shapes, slices, which object is touched) is modelled here.

  A module's parameter tensors live in a heap and are named by their addresses, since
  the optimizers of line 36-38 and 198-204 alias the networks' parameters. A module
  also has a mode (training or evaluation) and a place, and \<open>moves\<close> counts the calls of
  \<^verbatim>\<open>cuda()\<close> and \<^verbatim>\<open>cpu()\<close> it has received.

  The backend gives: how many parameter tensors a network of given input and output
  width has beyond its first (\<open>more_params\<close>) and their initial values
  (\<open>init_param\<close>); the entry at
  row \<open>r\<close> and column \<open>c\<close> of a network's output, from its mode, its parameter values
  and its input (\<open>net_out\<close>); the entry at \<open>r\<close>, \<open>c\<close> of the \<open>k\<close>-th sample the sampler
  draws, hard or soft, from the logits (\<open>draw\<close>); torch's mean and mean squared error;
  the value an optimizer's step gives the parameter tensor at an address, from the loss
  that was back-propagated and the current values (\<open>adam\<close>); and whether the machine has
  an accelerator.
\<close>

datatype device = Host | Cuda

record approximator =
  num_in :: nat
  num_out :: nat
  param_ids :: "nat list"
  training :: bool
  placement :: device
  moves :: nat

record optimizer =
  opt_params :: "nat list"
  opt_lr :: real

record ('p, 'a) backend =
  more_params :: "nat \<Rightarrow> nat \<Rightarrow> nat"
  init_param :: "nat \<Rightarrow> 'p"
  net_out :: "bool \<Rightarrow> 'p list \<Rightarrow> 'a list list \<Rightarrow> nat \<Rightarrow> nat \<Rightarrow> 'a"
  draw :: "nat \<Rightarrow> bool \<Rightarrow> 'a list list \<Rightarrow> nat \<Rightarrow> nat \<Rightarrow> 'a"
  mean :: "'a list list \<Rightarrow> 'a"
  mse :: "'a list list \<Rightarrow> 'a list list \<Rightarrow> 'a"
  adam :: "optimizer \<Rightarrow> 'a \<Rightarrow> (nat \<Rightarrow> 'p) \<Rightarrow> nat \<Rightarrow> 'p"
  cuda_available :: bool

text \<open>
  Modelled from the spec: \<^verbatim>\<open>utils.networks.MLPNetwork\<close> is not among the sources. The
  spec describes it as a parameterized mapping from an input feature vector to an output
  vector with an input and an output dimensionality, a device and a mode. A new module
  is in training mode and on the host. Being a parameterized mapping it owns at least
  one parameter tensor: a first one and \<open>more_params\<close> further ones, all fresh,
  allocated from address \<open>base\<close> on.
\<close>

definition MLPNetwork :: "('p, 'a) backend \<Rightarrow> nat \<Rightarrow> nat \<Rightarrow> nat \<Rightarrow> approximator" where
  "MLPNetwork B base input_dim out_dim =
     \<lparr>num_in = input_dim, num_out = out_dim,
      param_ids = [base ..< base + Suc (more_params B input_dim out_dim)],
      training = True, placement = Host, moves = 0\<rparr>"

definition parameters :: "approximator \<Rightarrow> nat list" where
  "parameters net = param_ids net"

definition next_free :: "approximator \<Rightarrow> nat \<Rightarrow> nat" where
  "next_free net base = base + length (param_ids net)"

text \<open>
  \<^verbatim>\<open>torch.optim.Adam(params, lr=lr)\<close> checks its arguments before it builds the
  optimizer: a negative learning rate is refused with ValueError (\<^verbatim>\<open>Invalid learning
  rate\<close>), and so is an empty list of parameters (\<^verbatim>\<open>optimizer got an empty parameter
  list\<close>). The other settings keep their defaults, which pass the checks.
\<close>

definition Adam :: "nat list \<Rightarrow> real \<Rightarrow> error + optimizer" where
  "Adam params lr =
     (if lr < 0 then Inl ValueError
      else if params = [] then Inl ValueError
      else Inr \<lparr>opt_params = params, opt_lr = lr\<rparr>)"

subsection \<open>Estimator objects\<close>

text \<open>
  Both classes have the same attributes; \<open>source\<close> and \<open>planning\<close> are one network in
  the joint variant and a list of networks in the transfer variant. \<open>init_dict\<close> is set
  by the factory only, after construction.

  The state a method runs in is the estimator object, the heap of parameter tensors, the
  number of samples the sampler has drawn so far, and the calls the logger has received;
  a logger call is the tag, the named scalars and the step.
\<close>

record ('n, 'd) empowerment =
  transition :: approximator
  source :: 'n
  planning :: 'n
  transition_optimizer :: optimizer
  planning_optimizer :: optimizer
  source_optimizer :: optimizer
  trans_dev :: string
  source_dev :: string
  plan_dev :: string
  niter :: nat
  init_dict :: "'d option"

type_synonym 'a log_entry = "string \<times> (string \<times> 'a) list \<times> nat"

record ('e, 'p, 'a) world =
  est :: 'e
  heap :: "nat \<Rightarrow> 'p"
  rng :: nat
  logged :: "'a log_entry list"

type_synonym params_dict = "string \<rightharpoonup> nat"

record transfer_init_dict =
  d_lr :: real
  d_hidden_dim :: nat
  d_init_params :: "params_dict list"
  d_num_in_trans :: nat
  d_num_out_trans :: nat
  d_recurrent :: bool
  d_convolutional :: bool

type_synonym joint_est = "(approximator, params_dict) empowerment"
type_synonym transfer_est = "(approximator list, transfer_init_dict) empowerment"

subsection \<open>Environments\<close>

text \<open>
  Of an environment the factories read \<^verbatim>\<open>acsp.n\<close> for each entry of
  \<^verbatim>\<open>env.action_space\<close> and \<^verbatim>\<open>obsp.shape[0]\<close> for each entry of
  \<^verbatim>\<open>env.observation_space\<close>; the two lists hold these numbers. The agents are what
  \<^verbatim>\<open>zip\<close> of the two lists gives, which stops at the shorter one.
\<close>

record env =
  action_space :: "nat list"
  observation_space :: "nat list"

definition agents :: "env \<Rightarrow> (nat \<times> nat) list" where
  "agents e = zip (action_space e) (observation_space e)"

subsection \<open>Joint variant: constructor and factory (lines 30-43, 163-187)\<close>

text \<open>
  \<^verbatim>\<open>__init__\<close> reads the six sizes from the dictionary, builds the transition, the source
  and the planning network, each with parameter tensors of its own, and the three
  optimizers; the device tags start as \<^verbatim>\<open>'cpu'\<close> and the counter at 0. The learning rate
  defaults to 0.01, which is what the factory's call leaves it at.
\<close>

definition joint_init ::
  "('p, 'a) backend \<Rightarrow> params_dict \<Rightarrow> real \<Rightarrow> error + (joint_est, 'p, 'a) world" where
  "joint_init B init_params lr =
     ebind (getitem init_params ''num_in_trans'') (\<lambda>n_in.
     ebind (getitem init_params ''num_out_trans'') (\<lambda>n_out.
     ebind (getitem init_params ''num_in_src'') (\<lambda>nis.
     ebind (getitem init_params ''num_out_src'') (\<lambda>nos.
     ebind (getitem init_params ''num_in_plan'') (\<lambda>nip.
     ebind (getitem init_params ''num_out_plan'') (\<lambda>nop.
       let t = MLPNetwork B 0 n_in n_out;
           s = MLPNetwork B (next_free t 0) nis nos;
           p = MLPNetwork B (next_free s (next_free t 0)) nip nop
       in ebind (Adam (parameters t) lr) (\<lambda>t_opt.
          ebind (Adam (parameters p) lr) (\<lambda>p_opt.
          ebind (Adam (parameters s @ parameters p) lr) (\<lambda>s_opt.
            Inr \<lparr>est = \<lparr>transition = t, source = s, planning = p,
                   transition_optimizer = t_opt,
                   planning_optimizer = p_opt,
                   source_optimizer = s_opt,
                   trans_dev = ''cpu'', source_dev = ''cpu'', plan_dev = ''cpu'',
                   niter = 0, init_dict = None\<rparr>,
                 heap = init_param B, rng = 0, logged = []\<rparr>)))))))))"

text \<open>The loop variables of \<^verbatim>\<open>init_from_env\<close>, all zero before the loop.\<close>

record sizing =
  num_in_source :: nat
  num_out_source :: nat
  num_in_planning :: nat
  num_out_planning :: nat
  num_in_transition :: nat
  num_out_transition :: nat

definition sizing0 :: sizing where
  "sizing0 = \<lparr>num_in_source = 0, num_out_source = 0, num_in_planning = 0,
     num_out_planning = 0, num_in_transition = 0, num_out_transition = 0\<rparr>"

fun joint_sizing_loop :: "(nat \<times> nat) list \<Rightarrow> sizing \<Rightarrow> sizing" where
  "joint_sizing_loop [] v = v"
| "joint_sizing_loop ((acsp_n, obsp_shape0) # rest) v =
     joint_sizing_loop rest
       (v\<lparr>num_in_source := obsp_shape0,
          num_out_source := acsp_n,
          num_in_planning := 2 * obsp_shape0,
          num_out_planning := acsp_n,
          num_in_transition := num_in_transition v + (obsp_shape0 + acsp_n),
          num_out_transition := num_out_transition v + obsp_shape0\<rparr>)"

definition joint_init_params :: "sizing \<Rightarrow> params_dict" where
  "joint_init_params v =
     [''num_in_src'' \<mapsto> num_in_source v,
      ''num_in_plan'' \<mapsto> num_in_planning v,
      ''num_in_trans'' \<mapsto> num_in_transition v,
      ''num_out_src'' \<mapsto> num_out_source v,
      ''num_out_plan'' \<mapsto> num_out_planning v,
      ''num_out_trans'' \<mapsto> num_out_transition v]"

definition joint_init_from_env ::
  "('p, 'a) backend \<Rightarrow> env \<Rightarrow> error + (joint_est, 'p, 'a) world" where
  "joint_init_from_env B e =
     (let init_params = joint_init_params (joint_sizing_loop (agents e) sizing0)
      in ebind (joint_init B init_params (1 / 100)) (\<lambda>instance.
           Inr (instance\<lparr>est := (est instance)\<lparr>init_dict := Some init_params\<rparr>\<rparr>)))"

subsection \<open>Transfer variant: constructor and factory (lines 191-209, 339-371)\<close>

text \<open>
  The list comprehensions of lines 195 and 196 build all source networks, then all
  planning networks; a missing key raises at the first dictionary that lacks it. The
  optimizers come after the networks: the transition network's (line 198), then one over
  the pooled parameters of the planning networks (line 201) and one over those of the
  source networks (line 204). Without agents the pooled lists are empty.
\<close>

fun source_nets :: "('p, 'a) backend \<Rightarrow> nat \<Rightarrow> params_dict list \<Rightarrow> error + approximator list" where
  "source_nets B base [] = Inr []"
| "source_nets B base (p # ps) =
     ebind (getitem p ''num_in_src'') (\<lambda>i.
     ebind (getitem p ''num_out_src'') (\<lambda>out.
       let net = MLPNetwork B base i out
       in ebind (source_nets B (next_free net base) ps) (\<lambda>nets. Inr (net # nets))))"

fun planning_nets :: "('p, 'a) backend \<Rightarrow> nat \<Rightarrow> params_dict list \<Rightarrow> error + approximator list" where
  "planning_nets B base [] = Inr []"
| "planning_nets B base (p # ps) =
     ebind (getitem p ''num_in_plan'') (\<lambda>i.
     ebind (getitem p ''num_out_plan'') (\<lambda>out.
       let net = MLPNetwork B base i out
       in ebind (planning_nets B (next_free net base) ps) (\<lambda>nets. Inr (net # nets))))"

definition all_parameters :: "approximator list \<Rightarrow> nat list" where
  "all_parameters mlps = concat (map parameters mlps)"

definition transfer_init ::
  "('p, 'a) backend \<Rightarrow> params_dict list \<Rightarrow> nat \<Rightarrow> nat \<Rightarrow> real \<Rightarrow> nat \<Rightarrow> bool \<Rightarrow> bool
     \<Rightarrow> error + (transfer_est, 'p, 'a) world" where
  "transfer_init B init_params num_in_trans num_out_trans lr hidden_dim recurrent convolutional =
     (let t = MLPNetwork B 0 num_in_trans num_out_trans;
          base_s = next_free t 0
      in ebind (source_nets B base_s init_params) (\<lambda>srcs.
         let base_p = base_s + length (all_parameters srcs)
         in ebind (planning_nets B base_p init_params) (\<lambda>plans.
            ebind (Adam (parameters t) lr) (\<lambda>t_opt.
            ebind (Adam (all_parameters plans) lr) (\<lambda>p_opt.
            ebind (Adam (all_parameters srcs) lr) (\<lambda>s_opt.
              Inr \<lparr>est = \<lparr>transition = t, source = srcs, planning = plans,
                     transition_optimizer = t_opt,
                     planning_optimizer = p_opt,
                     source_optimizer = s_opt,
                     trans_dev = ''cpu'', source_dev = ''cpu'', plan_dev = ''cpu'',
                     niter = 0, init_dict = None\<rparr>,
                   heap = init_param B, rng = 0, logged = []\<rparr>))))))"

text \<open>
  The loop of lines 347-360: running sums for the transition network and one dictionary
  per agent.
\<close>

definition agent_params :: "nat \<times> nat \<Rightarrow> params_dict" where
  "agent_params a = (case a of (acsp_n, obsp_shape0) \<Rightarrow>
     [''num_in_src'' \<mapsto> obsp_shape0,
      ''num_in_plan'' \<mapsto> 2 * obsp_shape0,
      ''num_out_src'' \<mapsto> acsp_n,
      ''num_out_plan'' \<mapsto> acsp_n])"

fun transfer_sizing_loop ::
  "(nat \<times> nat) list \<Rightarrow> params_dict list \<times> nat \<times> nat \<Rightarrow> params_dict list \<times> nat \<times> nat" where
  "transfer_sizing_loop [] acc = acc"
| "transfer_sizing_loop ((acsp_n, obsp_shape0) # rest) (init_params, n_in, n_out) =
     transfer_sizing_loop rest
       (init_params @ [agent_params (acsp_n, obsp_shape0)],
        n_in + (obsp_shape0 + acsp_n),
        n_out + obsp_shape0)"

text \<open>
  \<^verbatim>\<open>cls(**init_dict)\<close>: the constructor called with the entries of the stored dictionary
  as its keyword arguments. The constructor does not use \<^verbatim>\<open>hidden_dim\<close>,
  \<^verbatim>\<open>recurrent\<close> and \<^verbatim>\<open>convolutional\<close>.
\<close>

definition transfer_construct ::
  "('p, 'a) backend \<Rightarrow> transfer_init_dict \<Rightarrow> error + (transfer_est, 'p, 'a) world" where
  "transfer_construct B d =
     transfer_init B (d_init_params d) (d_num_in_trans d) (d_num_out_trans d) (d_lr d)
       (d_hidden_dim d) (d_recurrent d) (d_convolutional d)"

definition transfer_init_from_env ::
  "('p, 'a) backend \<Rightarrow> env \<Rightarrow> real \<Rightarrow> nat \<Rightarrow> bool \<Rightarrow> bool
     \<Rightarrow> error + (transfer_est, 'p, 'a) world" where
  "transfer_init_from_env B e lr hidden_dim recurrent convolutional =
     (case transfer_sizing_loop (agents e) ([], 0, 0) of (init_params, n_in, n_out) \<Rightarrow>
        let d = \<lparr>d_lr = lr, d_hidden_dim = hidden_dim, d_init_params = init_params,
                 d_num_in_trans = n_in, d_num_out_trans = n_out,
                 d_recurrent = recurrent, d_convolutional = convolutional\<rparr>
        in ebind (transfer_construct B d) (\<lambda>instance.
             Inr (instance\<lparr>est := (est instance)\<lparr>init_dict := Some d\<rparr>\<rparr>)))"

subsection \<open>Statements that may raise and change state\<close>

text \<open>
  A method is a function from the state before the call to its outcome (a value, or the
  exception raised) and the state after it; what was assigned before an exception stays
  assigned. \<open>seq m k\<close> runs \<open>m\<close> and, unless it raised, \<open>k\<close> on its value; \<open>gets\<close>
  reads the state, \<open>modify\<close> assigns to it, and \<open>lift\<close> is a computation that does
  not touch it.
\<close>

type_synonym ('s, 'x) prog = "'s \<Rightarrow> (error + 'x) \<times> 's"

definition ret :: "'x \<Rightarrow> ('s, 'x) prog" where
  "ret x s = (Inr x, s)"

definition raise :: "error \<Rightarrow> ('s, 'x) prog" where
  "raise e s = (Inl e, s)"

definition lift :: "error + 'x \<Rightarrow> ('s, 'x) prog" where
  "lift r s = (r, s)"

fun continue :: "(error + 'x) \<times> 's \<Rightarrow> ('x \<Rightarrow> ('s, 'y) prog) \<Rightarrow> (error + 'y) \<times> 's" where
  "continue (Inl e, s') k = (Inl e, s')"
| "continue (Inr x, s') k = k x s'"

definition seq :: "('s, 'x) prog \<Rightarrow> ('x \<Rightarrow> ('s, 'y) prog) \<Rightarrow> ('s, 'y) prog" where
  "seq m k s = continue (m s) k"

definition gets :: "('s \<Rightarrow> 'x) \<Rightarrow> ('s, 'x) prog" where
  "gets f s = (Inr (f s), s)"

definition modify :: "('s \<Rightarrow> 's) \<Rightarrow> ('s, unit) prog" where
  "modify f s = (Inr (), f s)"

subsection \<open>Mode and device control (lines 125-161, 294-336)\<close>

definition train :: "approximator \<Rightarrow> approximator" where
  "train x = x\<lparr>training := True\<rparr>"

definition eval_mode :: "approximator \<Rightarrow> approximator" where
  "eval_mode x = x\<lparr>training := False\<rparr>"

text \<open>
  \<^verbatim>\<open>fn\<close> is \<^verbatim>\<open>x.cuda()\<close> when the requested device is \<^verbatim>\<open>'gpu'\<close> and
  \<^verbatim>\<open>x.cpu()\<close> for every other string. Each call is counted in \<open>moves\<close>;
  \<^verbatim>\<open>cuda()\<close> raises on a machine without an accelerator.
\<close>

definition fn :: "('p, 'a) backend \<Rightarrow> string \<Rightarrow> approximator \<Rightarrow> error + approximator" where
  "fn B device x =
     (if device = ''gpu''
      then (if cuda_available B then Inr (x\<lparr>placement := Cuda, moves := moves x + 1\<rparr>)
            else Inl CudaUnavailable)
      else Inr (x\<lparr>placement := Host, moves := moves x + 1\<rparr>))"

text \<open>
  The three statements of the form
  \<^verbatim>\<open>if not self.trans_dev == device: self.transition = fn(self.transition); self.trans_dev = device\<close>.
  The one for the transition network is the same in all four methods.
\<close>

definition place_transition ::
  "('p, 'a) backend \<Rightarrow> string \<Rightarrow> (('n, 'd) empowerment, unit) prog" where
  "place_transition B device =
     seq (gets trans_dev) (\<lambda>tag.
       if \<not> tag = device
       then seq (gets transition) (\<lambda>t. seq (lift (fn B device t)) (\<lambda>t'.
              modify (\<lambda>self. self\<lparr>transition := t', trans_dev := device\<rparr>)))
       else ret ())"

definition joint_place_source ::
  "('p, 'a) backend \<Rightarrow> string \<Rightarrow> (joint_est, unit) prog" where
  "joint_place_source B device =
     seq (gets source_dev) (\<lambda>tag.
       if \<not> tag = device
       then seq (gets source) (\<lambda>x. seq (lift (fn B device x)) (\<lambda>x'.
              modify (\<lambda>self. self\<lparr>source := x', source_dev := device\<rparr>)))
       else ret ())"

definition joint_place_planning ::
  "('p, 'a) backend \<Rightarrow> string \<Rightarrow> (joint_est, unit) prog" where
  "joint_place_planning B device =
     seq (gets plan_dev) (\<lambda>tag.
       if \<not> tag = device
       then seq (gets planning) (\<lambda>x. seq (lift (fn B device x)) (\<lambda>x'.
              modify (\<lambda>self. self\<lparr>planning := x', plan_dev := device\<rparr>)))
       else ret ())"

definition joint_prep_training :: "('p, 'a) backend \<Rightarrow> string \<Rightarrow> (joint_est, unit) prog" where
  "joint_prep_training B device =
     seq (modify (\<lambda>self. self\<lparr>transition := train (transition self)\<rparr>)) (\<lambda>_.
     seq (modify (\<lambda>self. self\<lparr>source := train (source self)\<rparr>)) (\<lambda>_.
     seq (modify (\<lambda>self. self\<lparr>planning := train (planning self)\<rparr>)) (\<lambda>_.
     seq (place_transition B device) (\<lambda>_.
     seq (joint_place_source B device) (\<lambda>_.
     joint_place_planning B device)))))"

definition joint_prep_rollouts :: "('p, 'a) backend \<Rightarrow> string \<Rightarrow> (joint_est, unit) prog" where
  "joint_prep_rollouts B device =
     seq (modify (\<lambda>self. self\<lparr>transition := eval_mode (transition self)\<rparr>)) (\<lambda>_.
     seq (modify (\<lambda>self. self\<lparr>source := eval_mode (source self)\<rparr>)) (\<lambda>_.
     seq (modify (\<lambda>self. self\<lparr>planning := eval_mode (planning self)\<rparr>)) (\<lambda>_.
     seq (place_transition B device) (\<lambda>_.
     seq (joint_place_source B device) (\<lambda>_.
     joint_place_planning B device)))))"

text \<open>
  The loops of the transfer variant over its per-agent networks. The modules are changed
  in place, so the networks handled before an exception keep their change: the loop
  returns the exception, if any, and the list as it is then.
\<close>

fun move_and_train ::
  "('p, 'a) backend \<Rightarrow> string \<Rightarrow> approximator list \<Rightarrow> error option \<times> approximator list" where
  "move_and_train B device [] = (None, [])"
| "move_and_train B device (x # rest) =
     (case fn B device x of
        Inl e \<Rightarrow> (Some e, x # rest)
      | Inr x' \<Rightarrow> (case move_and_train B device rest of (r, rest') \<Rightarrow> (r, train x' # rest')))"

fun move_all ::
  "('p, 'a) backend \<Rightarrow> string \<Rightarrow> approximator list \<Rightarrow> error option \<times> approximator list" where
  "move_all B device [] = (None, [])"
| "move_all B device (x # rest) =
     (case fn B device x of
        Inl e \<Rightarrow> (Some e, x # rest)
      | Inr x' \<Rightarrow> (case move_all B device rest of (r, rest') \<Rightarrow> (r, x' # rest')))"

definition finish :: "error option \<Rightarrow> ('s, unit) prog" where
  "finish r = (case r of None \<Rightarrow> ret () | Some e \<Rightarrow> raise e)"

definition transfer_prep_training ::
  "('p, 'a) backend \<Rightarrow> string \<Rightarrow> (transfer_est, unit) prog" where
  "transfer_prep_training B device =
     seq (modify (\<lambda>self. self\<lparr>transition := train (transition self)\<rparr>)) (\<lambda>_.
     seq (place_transition B device) (\<lambda>_.
     seq (gets source_dev) (\<lambda>stag.
     seq (if \<not> stag = device
          then seq (gets (\<lambda>self. move_and_train B device (source self))) (\<lambda>(r, xs).
               seq (modify (\<lambda>self. self\<lparr>source := xs\<rparr>)) (\<lambda>_.
               seq (finish r) (\<lambda>_.
               modify (\<lambda>self. self\<lparr>source_dev := device\<rparr>))))
          else ret ()) (\<lambda>_.
     seq (gets plan_dev) (\<lambda>ptag.
       if \<not> ptag = device
       then seq (gets (\<lambda>self. move_and_train B device (planning self))) (\<lambda>(r, xs).
            seq (modify (\<lambda>self. self\<lparr>planning := xs\<rparr>)) (\<lambda>_.
            seq (finish r) (\<lambda>_.
            modify (\<lambda>self. self\<lparr>plan_dev := device\<rparr>))))
       else ret ())))))"

definition transfer_prep_rollouts ::
  "('p, 'a) backend \<Rightarrow> string \<Rightarrow> (transfer_est, unit) prog" where
  "transfer_prep_rollouts B device =
     seq (modify (\<lambda>self. self\<lparr>transition := eval_mode (transition self)\<rparr>)) (\<lambda>_.
     seq (place_transition B device) (\<lambda>_.
     seq (modify (\<lambda>self. self\<lparr>transition := eval_mode (transition self)\<rparr>)) (\<lambda>_.
     seq (gets source_dev) (\<lambda>stag.
     seq (if \<not> stag = device
          then seq (gets (\<lambda>self. move_all B device (source self))) (\<lambda>(r, xs).
               seq (modify (\<lambda>self. self\<lparr>source := xs\<rparr>)) (\<lambda>_.
               seq (finish r) (\<lambda>_.
               modify (\<lambda>self. self\<lparr>source_dev := device\<rparr>))))
          else ret ()) (\<lambda>_.
     seq (modify (\<lambda>self. self\<lparr>source := map eval_mode (source self)\<rparr>)) (\<lambda>_.
     seq (gets plan_dev) (\<lambda>ptag.
     seq (if \<not> ptag = device
          then seq (gets (\<lambda>self. move_all B device (planning self))) (\<lambda>(r, xs).
               seq (modify (\<lambda>self. self\<lparr>planning := xs\<rparr>)) (\<lambda>_.
               seq (finish r) (\<lambda>_.
               modify (\<lambda>self. self\<lparr>plan_dev := device\<rparr>))))
          else ret ()) (\<lambda>_.
     modify (\<lambda>self. self\<lparr>planning := map eval_mode (planning self)\<rparr>)))))))))"

subsection \<open>Arrays and tensors\<close>

text \<open>
  A two-dimensional torch tensor is its rows, its width (which a tensor without rows
  has as well) and its device; every row of a tensor has \<open>ncols\<close> entries.
  \<open>to_rows\<close> lists the entries row by row, as \<^verbatim>\<open>.numpy()\<close> or \<^verbatim>\<open>.tolist()\<close> do. A
  two-dimensional numpy array is a shape and an item at each position; its items are
  numbers (\<^verbatim>\<open>rewards\<close>) or feature vectors (\<^verbatim>\<open>next_obs\<close>).
\<close>

record 'a tensor =
  ncols :: nat
  rows :: "'a list list"
  dev :: device

definition nrows :: "'a tensor \<Rightarrow> nat" where
  "nrows t = length (rows t)"

record 'c ndarray =
  shape0 :: nat
  shape1 :: nat
  item :: "nat \<Rightarrow> nat \<Rightarrow> 'c"

definition to_rows :: "'a tensor \<Rightarrow> 'a list list" where
  "to_rows t = rows t"

definition from_rows :: "device \<Rightarrow> nat \<Rightarrow> 'a list list \<Rightarrow> 'a tensor" where
  "from_rows d w rs = \<lparr>ncols = w, rows = rs, dev = d\<rparr>"

text \<open>\<^verbatim>\<open>a[:, i]\<close> raises IndexError when the array has no column \<open>i\<close>.\<close>

definition column :: "'c ndarray \<Rightarrow> nat \<Rightarrow> error + 'c list" where
  "column a i =
     (if i < shape1 a then Inr (map (\<lambda>r. item a r i) [0..<shape0 a]) else Inl IndexError)"

text \<open>
  \<^verbatim>\<open>torch.Tensor(np.vstack(vs))\<close>: numpy raises ValueError for an empty sequence and for
  vectors of different lengths; the tensor is created on the host.
\<close>

definition vstack :: "'a list list \<Rightarrow> error + 'a tensor" where
  "vstack vs =
     (case vs of
        [] \<Rightarrow> Inl ValueError
      | v # rest \<Rightarrow>
          if list_all (\<lambda>u. length u = length v) rest
          then Inr (from_rows Host (length v) vs)
          else Inl ValueError)"

fun stack_columns :: "('a list) ndarray \<Rightarrow> nat list \<Rightarrow> error + 'a tensor list" where
  "stack_columns a [] = Inr []"
| "stack_columns a (i # rest) =
     ebind (column a i) (\<lambda>col.
     ebind (vstack col) (\<lambda>t.
     ebind (stack_columns a rest) (\<lambda>ts. Inr (t # ts))))"

text \<open>
  \<^verbatim>\<open>torch.cat(ts, dim=1)\<close>: the list must not be empty, and all tensors must have the
  same number of rows and be on the same device.
\<close>

definition hcat :: "'a tensor \<Rightarrow> 'a tensor \<Rightarrow> 'a tensor" where
  "hcat a b =
     \<lparr>ncols = ncols a + ncols b, rows = map2 (\<lambda>ra rb. ra @ rb) (rows a) (rows b), dev = dev a\<rparr>"

fun cat_onto :: "'a tensor \<Rightarrow> 'a tensor list \<Rightarrow> error + 'a tensor" where
  "cat_onto acc [] = Inr acc"
| "cat_onto acc (t # ts) =
     (if nrows t \<noteq> nrows acc then Inl ShapeMismatch
      else if dev t \<noteq> dev acc then Inl DeviceMismatch
      else cat_onto (hcat acc t) ts)"

definition cat :: "'a tensor list \<Rightarrow> error + 'a tensor" where
  "cat ts = (case ts of [] \<Rightarrow> Inl ValueError | t # rest \<Rightarrow> cat_onto t rest)"

text \<open>
  \<^verbatim>\<open>t[:, a:b]\<close> with \<open>0 \<le> a\<close> and \<open>0 \<le> b\<close>: Python clips both bounds to the
  width; an empty range gives a tensor without columns.
\<close>

definition slice_cols :: "'a tensor \<Rightarrow> nat \<Rightarrow> nat \<Rightarrow> 'a tensor" where
  "slice_cols t a b =
     (let lo = min a (ncols t); hi = min b (ncols t)
      in \<lparr>ncols = hi - lo, rows = map (\<lambda>row. take (hi - lo) (drop lo row)) (rows t),
          dev = dev t\<rparr>)"

text \<open>
  Elementwise arithmetic broadcasts: two sizes of a dimension are compatible when they
  are equal or one of them is 1, and the operands must be on one device.
\<close>

definition bdim :: "nat \<Rightarrow> nat \<Rightarrow> nat option" where
  "bdim m n = (if m = n then Some m else if m = 1 then Some n else if n = 1 then Some m else None)"

definition bidx :: "nat \<Rightarrow> nat \<Rightarrow> nat" where
  "bidx m i = (if m = 1 then 0 else i)"

definition broadcast2 :: "('a \<Rightarrow> 'b \<Rightarrow> 'c) \<Rightarrow> 'a tensor \<Rightarrow> 'b tensor \<Rightarrow> error + 'c tensor" where
  "broadcast2 f a b =
     (if dev a \<noteq> dev b then Inl DeviceMismatch
      else case (bdim (nrows a) (nrows b), bdim (ncols a) (ncols b)) of
        (Some m, Some n) \<Rightarrow>
          Inr \<lparr>ncols = n,
               rows = map (\<lambda>r. map (\<lambda>c. f (rows a ! bidx (nrows a) r ! bidx (ncols a) c)
                                            (rows b ! bidx (nrows b) r ! bidx (ncols b) c))
                                 [0..<n])
                        [0..<m],
               dev = dev a\<rparr>
      | _ \<Rightarrow> Inl ShapeMismatch)"

definition tmul :: "'a::times tensor \<Rightarrow> 'a tensor \<Rightarrow> error + 'a tensor" where
  "tmul a b = broadcast2 (\<lambda>x y. x * y) a b"

definition tsub :: "'a::minus tensor \<Rightarrow> 'a tensor \<Rightarrow> error + 'a tensor" where
  "tsub a b = broadcast2 (\<lambda>x y. x - y) a b"

definition tmean :: "('p, 'a) backend \<Rightarrow> 'a tensor \<Rightarrow> 'a" where
  "tmean B t = mean B (to_rows t)"

definition MSELoss :: "('p, 'a) backend \<Rightarrow> 'a tensor \<Rightarrow> 'a tensor \<Rightarrow> error + 'a" where
  "MSELoss B a b =
     ebind (broadcast2 Pair a b) (\<lambda>t.
       Inr (mse B (map (map fst) (to_rows t)) (map (map snd) (to_rows t))))"

definition ones :: "nat \<Rightarrow> nat \<Rightarrow> 'a::one tensor" where
  "ones m n = \<lparr>ncols = n, rows = replicate m (replicate n 1), dev = Host\<rparr>"

definition scale :: "'a::times \<Rightarrow> 'a tensor \<Rightarrow> 'a tensor" where
  "scale x t = t\<lparr>rows := map (map (\<lambda>y. x * y)) (rows t)\<rparr>"

text \<open>\<^verbatim>\<open>len(next_obs[0][0])\<close>: the length of the first row of the first tensor.\<close>

definition first_row_len :: "'a tensor list \<Rightarrow> error + nat" where
  "first_row_len ts =
     (case ts of
        [] \<Rightarrow> Inl IndexError
      | t # rest \<Rightarrow> if nrows t = 0 then Inl IndexError else Inr (ncols t))"

subsection \<open>Calls into the collaborators\<close>

text \<open>
  Modelled from the spec: the forward evaluation of an approximator
  (\<^verbatim>\<open>utils.networks.MLPNetwork\<close>). It maps a batch of input rows of its input
  dimensionality to rows of its output dimensionality; a wrong feature width surfaces as
  a dimension-mismatch failure, and so does an input that is not on the module's device.
  The values come from the backend, from the mode, the current parameter tensors and the
  input.
\<close>

definition forward ::
  "('p, 'a) backend \<Rightarrow> approximator \<Rightarrow> 'a tensor \<Rightarrow> (('e, 'p, 'a) world, 'a tensor) prog" where
  "forward B net x =
     seq (gets heap) (\<lambda>h.
       if dev x \<noteq> placement net then raise DeviceMismatch
       else if ncols x \<noteq> num_in net then raise ShapeMismatch
       else ret \<lparr>ncols = num_out net,
                 rows = map (\<lambda>r. map (net_out B (training net) (map h (param_ids net)) (to_rows x) r)
                                   [0..<num_out net])
                          [0..<nrows x],
                 dev = dev x\<rparr>)"

text \<open>
  Modelled from the spec: the stochastic categorical sampler
  (\<^verbatim>\<open>utils.misc.gumbel_softmax\<close>). Given logits it produces a relaxed one-hot sample of
  the same shape, hard or soft; every call draws fresh noise from the sampler's own
  randomness, which \<open>rng\<close> counts. The callers pass the device tag of the network that
  produced the logits; the sample is a tensor on the device of the logits.
\<close>

definition gumbel_softmax ::
  "('p, 'a) backend \<Rightarrow> 'a tensor \<Rightarrow> string \<Rightarrow> bool \<Rightarrow> (('e, 'p, 'a) world, 'a tensor) prog" where
  "gumbel_softmax B logits device hard =
     seq (gets rng) (\<lambda>k.
     seq (modify (\<lambda>w. w\<lparr>rng := k + 1\<rparr>)) (\<lambda>_.
     ret (logits\<lparr>rows := map (\<lambda>r. map (draw B k hard (to_rows logits) r) [0..<ncols logits])
                               [0..<nrows logits]\<rparr>)))"

text \<open>
  An optimizer owns the addresses it was built with (the spec: optimizer O updates
  parameter set S). \<^verbatim>\<open>zero_grad\<close> and \<^verbatim>\<open>backward\<close> work on gradients, which are not
  part of this state; \<^verbatim>\<open>step\<close> overwrites the parameter tensors of the optimizer, and
  only those, with the values the backend computes from the loss. The logger's
  \<^verbatim>\<open>add_scalars\<close> appends its arguments to the logger's record.
\<close>

definition zero_grad :: "optimizer \<Rightarrow> (('e, 'p, 'a) world, unit) prog" where
  "zero_grad opt = ret ()"

definition backward :: "'a \<Rightarrow> (('e, 'p, 'a) world, unit) prog" where
  "backward loss = ret ()"

definition step :: "('p, 'a) backend \<Rightarrow> optimizer \<Rightarrow> 'a \<Rightarrow> (('e, 'p, 'a) world, unit) prog" where
  "step B opt loss =
     modify (\<lambda>w. w\<lparr>heap := (\<lambda>a. if a \<in> set (opt_params opt) then adam B opt loss (heap w) a
                                 else heap w a)\<rparr>)"

definition add_scalars ::
  "string \<Rightarrow> (string \<times> 'a) list \<Rightarrow> nat \<Rightarrow> (('e, 'p, 'a) world, unit) prog" where
  "add_scalars tag scalars global_step =
     modify (\<lambda>w. w\<lparr>logged := logged w @ [(tag, scalars, global_step)]\<rparr>)"

subsection \<open>The loops of \<^verbatim>\<open>compute\<close> and \<^verbatim>\<open>update\<close>\<close>

text \<open>
  Each loop of the source appends one result per iteration to a list that starts empty;
  here the loop returns the list. The loops take the network of each iteration next to
  its tensor: the joint variant passes its one network for every agent, the transfer
  variant the \<^verbatim>\<open>zip\<close> with its list of networks.

  Lines 52-54, 96-98, 218-220, 263-265: a hard and a soft sample of the source network's
  output, from two forward evaluations and two draws.
\<close>

fun source_loop ::
  "('p, 'a) backend \<Rightarrow> string \<Rightarrow> ('a tensor \<times> approximator) list
     \<Rightarrow> (('e, 'p, 'a) world, 'a tensor list \<times> 'a tensor list) prog" where
  "source_loop B device [] = ret ([], [])"
| "source_loop B device ((no, src) # rest) =
     seq (forward B src no) (\<lambda>logits1.
     seq (gumbel_softmax B logits1 device True) (\<lambda>a.
     seq (forward B src no) (\<lambda>logits2.
     seq (gumbel_softmax B logits2 device False) (\<lambda>p.
     seq (source_loop B device rest) (\<lambda>(acs_src, prob_src).
     ret (a # acs_src, p # prob_src))))))"

text \<open>Lines 84-86, 251-253: the planning network's hard sample for each transition.\<close>

fun plan_action_loop ::
  "('p, 'a) backend \<Rightarrow> string \<Rightarrow> ('a tensor \<times> 'a tensor \<times> approximator) list
     \<Rightarrow> (('e, 'p, 'a) world, 'a tensor list) prog" where
  "plan_action_loop B device [] = ret []"
| "plan_action_loop B device ((ob, no, plan) # rest) =
     seq (lift (cat [ob, no])) (\<lambda>plan_in.
     seq (forward B plan plan_in) (\<lambda>logits.
     seq (gumbel_softmax B logits device True) (\<lambda>a.
     seq (plan_action_loop B device rest) (\<lambda>acs_plan.
     ret (a # acs_plan)))))"

text \<open>
  The body shared by the loops that follow, after the slice \<open>nno\<close> is taken:
  \<^verbatim>\<open>plan_in = torch.cat((no, nno), dim=1)\<close> and the soft sample of the planning
  network's output.
\<close>

definition plan_prob ::
  "('p, 'a) backend \<Rightarrow> approximator \<Rightarrow> string \<Rightarrow> 'a tensor \<Rightarrow> 'a tensor
     \<Rightarrow> (('e, 'p, 'a) world, 'a tensor) prog" where
  "plan_prob B plan device no nno =
     seq (lift (cat [no, nno])) (\<lambda>plan_in.
     seq (forward B plan plan_in) (\<lambda>logits.
     gumbel_softmax B logits device False))"

text \<open>
  Lines 59-63 and 103-107 (joint variant): \<^verbatim>\<open>enumerate\<close> counts the agents from
  \<open>i = 0\<close>, and agent \<open>i\<close> gets the columns \<open>i * n_obs\<close> to \<open>(i + 1) * n_obs\<close>.
\<close>

fun joint_plan_loop ::
  "('p, 'a) backend \<Rightarrow> approximator \<Rightarrow> string \<Rightarrow> nat \<Rightarrow> 'a tensor \<Rightarrow> nat \<Rightarrow> 'a tensor list
     \<Rightarrow> (('e, 'p, 'a) world, 'a tensor list) prog" where
  "joint_plan_loop B plan device n_obs trans_out i [] = ret []"
| "joint_plan_loop B plan device n_obs trans_out i (no # rest) =
     (let nno = slice_cols trans_out (i * n_obs) ((i + 1) * n_obs)
      in seq (plan_prob B plan device no nno) (\<lambda>p.
         seq (joint_plan_loop B plan device n_obs trans_out (i + 1) rest) (\<lambda>prob_plan.
         ret (p # prob_plan))))"

text \<open>
  Lines 225-230 (transfer variant, \<^verbatim>\<open>compute\<close>): \<open>start\<close> is set to 0 before the
  loop and the loop body does not assign it.
\<close>

fun transfer_compute_plan_loop ::
  "('p, 'a) backend \<Rightarrow> string \<Rightarrow> 'a tensor \<Rightarrow> nat \<Rightarrow> ('a tensor \<times> approximator) list
     \<Rightarrow> (('e, 'p, 'a) world, 'a tensor list) prog" where
  "transfer_compute_plan_loop B device trans_out start [] = ret []"
| "transfer_compute_plan_loop B device trans_out start ((no, plan) # rest) =
     (let len = ncols no;
          nno = slice_cols trans_out start (start + len)
      in seq (plan_prob B plan device no nno) (\<lambda>p.
         seq (transfer_compute_plan_loop B device trans_out start rest) (\<lambda>prob_plan.
         ret (p # prob_plan))))"

text \<open>
  Lines 270-276 (transfer variant, \<^verbatim>\<open>update\<close>): the same loop, ending in
  \<^verbatim>\<open>start += length\<close>.
\<close>

fun transfer_update_plan_loop ::
  "('p, 'a) backend \<Rightarrow> string \<Rightarrow> 'a tensor \<Rightarrow> nat \<Rightarrow> ('a tensor \<times> approximator) list
     \<Rightarrow> (('e, 'p, 'a) world, 'a tensor list) prog" where
  "transfer_update_plan_loop B device trans_out start [] = ret []"
| "transfer_update_plan_loop B device trans_out start ((no, plan) # rest) =
     (let len = ncols no;
          nno = slice_cols trans_out start (start + len)
      in seq (plan_prob B plan device no nno) (\<lambda>p.
         seq (transfer_update_plan_loop B device trans_out (start + len) rest) (\<lambda>prob_plan.
         ret (p # prob_plan))))"

text \<open>
  Lines 64-68: the three lists are concatenated and
  \<^verbatim>\<open>E = acs_src * prob_plan - acs_src * prob_src\<close>.
\<close>

definition empowerment_E ::
  "'a::{times,minus} tensor list \<Rightarrow> 'a tensor list \<Rightarrow> 'a tensor list \<Rightarrow> error + 'a tensor" where
  "empowerment_E prob_plan_list prob_src_list acs_src_list =
     ebind (cat prob_plan_list) (\<lambda>prob_plan.
     ebind (cat prob_src_list) (\<lambda>prob_src.
     ebind (cat acs_src_list) (\<lambda>acs_src.
     ebind (tmul acs_src prob_plan) (\<lambda>x.
     ebind (tmul acs_src prob_src) (\<lambda>y.
     tsub x y)))))"

subsection \<open>\<^verbatim>\<open>compute\<close> (lines 45-70, 211-237)\<close>

text \<open>
  \<^verbatim>\<open>rewards.shape[1]\<close> is the number of agents. The first statement makes one tensor per
  agent from the columns of \<^verbatim>\<open>next_obs\<close>; the result is
  \<^verbatim>\<open>(E.mean() * torch.ones((1, rewards.shape[1]))).numpy()\<close>, an array of one row. Under
  \<^verbatim>\<open>torch.no_grad()\<close> nothing is recorded for gradients, which are not part of the
  state here.
\<close>

definition joint_compute ::
  "('p, 'a::{times,minus,one}) backend \<Rightarrow> 'r ndarray \<Rightarrow> ('a list) ndarray
     \<Rightarrow> ((joint_est, 'p, 'a) world, 'a list list) prog" where
  "joint_compute B rewards next_obs_array =
     seq (lift (stack_columns next_obs_array [0..<shape1 rewards])) (\<lambda>next_obs.
     seq (gets est) (\<lambda>self.
     seq (source_loop B (source_dev self) (map (\<lambda>no. (no, source self)) next_obs))
       (\<lambda>(acs_src, prob_src).
     seq (lift (cat (next_obs @ acs_src))) (\<lambda>trans_in.
     seq (forward B (transition self) trans_in) (\<lambda>trans_out.
     seq (lift (first_row_len next_obs)) (\<lambda>n_obs.
     seq (joint_plan_loop B (planning self) (plan_dev self) n_obs trans_out 0 next_obs)
       (\<lambda>prob_plan.
     seq (lift (empowerment_E prob_plan prob_src acs_src)) (\<lambda>E.
     ret (to_rows (scale (tmean B E) (ones 1 (shape1 rewards))))))))))))"

definition transfer_compute ::
  "('p, 'a::{times,minus,one}) backend \<Rightarrow> 'r ndarray \<Rightarrow> ('a list) ndarray
     \<Rightarrow> ((transfer_est, 'p, 'a) world, 'a list list) prog" where
  "transfer_compute B rewards next_obs_array =
     seq (lift (stack_columns next_obs_array [0..<shape1 rewards])) (\<lambda>next_obs.
     seq (gets est) (\<lambda>self.
     seq (source_loop B (source_dev self) (zip next_obs (source self)))
       (\<lambda>(acs_src, prob_src).
     seq (lift (cat (next_obs @ acs_src))) (\<lambda>trans_in.
     seq (forward B (transition self) trans_in) (\<lambda>trans_out.
     seq (transfer_compute_plan_loop B (plan_dev self) trans_out 0 (zip next_obs (planning self)))
       (\<lambda>prob_plan.
     seq (lift (empowerment_E prob_plan prob_src acs_src)) (\<lambda>E.
     ret (to_rows (scale (tmean B E) (ones 1 (shape1 rewards)))))))))))"

subsection \<open>\<^verbatim>\<open>update\<close> (lines 72-123, 239-292)\<close>

text \<open>
  A sample is the tuple \<^verbatim>\<open>(obs, acs, rews, emps, next_obs, dones)\<close> of lists of tensors,
  one tensor per agent. \<^verbatim>\<open>update\<close> is its three training steps, each returning its loss,
  followed by the logging and the increment of the counter.
\<close>

type_synonym 'a sample =
  "'a tensor list \<times> 'a tensor list \<times> 'a tensor list \<times> 'a tensor list \<times> 'a tensor list
     \<times> 'a tensor list"

text \<open>Lines 75-80 and 242-247, the same in both variants: the transition network.\<close>

definition update_transition ::
  "('p, 'a) backend \<Rightarrow> 'a tensor list \<Rightarrow> 'a tensor list \<Rightarrow> 'a tensor list
     \<Rightarrow> ((('n, 'd) empowerment, 'p, 'a) world, 'a) prog" where
  "update_transition B obs acs next_obs =
     seq (gets est) (\<lambda>self.
     seq (zero_grad (transition_optimizer self)) (\<lambda>_.
     seq (lift (cat (obs @ acs))) (\<lambda>trans_in.
     seq (forward B (transition self) trans_in) (\<lambda>next_obs_pred.
     seq (lift (cat next_obs)) (\<lambda>target.
     seq (lift (MSELoss B next_obs_pred target)) (\<lambda>trans_loss.
     seq (backward trans_loss) (\<lambda>_.
     seq (step B (transition_optimizer self) trans_loss) (\<lambda>_.
     ret trans_loss))))))))"

text \<open>Lines 82-91 and 249-258: the planning networks.\<close>

definition planning_loss ::
  "('p, 'a) backend \<Rightarrow> optimizer \<Rightarrow> string \<Rightarrow> ('a tensor \<times> 'a tensor \<times> approximator) list
     \<Rightarrow> 'a tensor list \<Rightarrow> (('e, 'p, 'a) world, 'a) prog" where
  "planning_loss B opt device triples acs =
     seq (zero_grad opt) (\<lambda>_.
     seq (plan_action_loop B device triples) (\<lambda>acs_plan_list.
     seq (lift (cat acs_plan_list)) (\<lambda>acs_plan.
     seq (lift (cat acs)) (\<lambda>acs_torch.
     seq (lift (MSELoss B acs_plan acs_torch)) (\<lambda>plan_loss.
     seq (backward plan_loss) (\<lambda>_.
     seq (step B opt plan_loss) (\<lambda>_.
     ret plan_loss)))))))"

definition joint_update_planning ::
  "('p, 'a) backend \<Rightarrow> 'a tensor list \<Rightarrow> 'a tensor list \<Rightarrow> 'a tensor list
     \<Rightarrow> ((joint_est, 'p, 'a) world, 'a) prog" where
  "joint_update_planning B obs acs next_obs =
     seq (gets est) (\<lambda>self.
       planning_loss B (planning_optimizer self) (plan_dev self)
         (map (\<lambda>(ob, no). (ob, no, planning self)) (zip obs next_obs)) acs)"


text \<open>Lines 93-115 and 260-284: the source objective, the negated empowerment.\<close>

definition joint_update_source ::
  "('p, 'a::{times,minus,uminus}) backend \<Rightarrow> 'a tensor list
     \<Rightarrow> ((joint_est, 'p, 'a) world, 'a) prog" where
  "joint_update_source B next_obs =
     seq (gets est) (\<lambda>self.
     seq (zero_grad (source_optimizer self)) (\<lambda>_.
     seq (source_loop B (source_dev self) (map (\<lambda>no. (no, source self)) next_obs))
       (\<lambda>(acs_src, prob_src).
     seq (lift (cat (next_obs @ acs_src))) (\<lambda>trans_in.
     seq (forward B (transition self) trans_in) (\<lambda>trans_out.
     seq (lift (first_row_len next_obs)) (\<lambda>n_obs.
     seq (joint_plan_loop B (planning self) (plan_dev self) n_obs trans_out 0 next_obs)
       (\<lambda>prob_plan.
     seq (lift (empowerment_E prob_plan prob_src acs_src)) (\<lambda>E.
     let i_rews = - tmean B E
     in seq (backward i_rews) (\<lambda>_.
        seq (step B (source_optimizer self) i_rews) (\<lambda>_.
        ret i_rews))))))))))"


text \<open>
  Lines 117-123 and 286-292: the logger, when one is given, receives the three losses
  and the counter; then the counter is incremented. \<open>None\<close> is Python's \<^verbatim>\<open>None\<close>,
  \<open>Some ()\<close> a logger, whose record of calls is \<open>logged\<close>.
\<close>

definition log_and_count ::
  "unit option \<Rightarrow> 'a \<Rightarrow> 'a \<Rightarrow> 'a \<Rightarrow> ((('n, 'd) empowerment, 'p, 'a) world, unit) prog" where
  "log_and_count logger trans_loss plan_loss i_rews =
     seq (if logger \<noteq> None
          then seq (gets (\<lambda>w. niter (est w))) (\<lambda>k.
                 add_scalars ''empowerment/losses''
                   [(''trans_loss'', trans_loss), (''plan_loss'', plan_loss), (''i_rews'', i_rews)] k)
          else ret ()) (\<lambda>_.
     modify (\<lambda>w. w\<lparr>est := (est w)\<lparr>niter := niter (est w) + 1\<rparr>\<rparr>))"

definition joint_update ::
  "('p, 'a::{times,minus,uminus}) backend \<Rightarrow> 'a sample \<Rightarrow> unit option
     \<Rightarrow> ((joint_est, 'p, 'a) world, unit) prog" where
  "joint_update B sample logger =
     (case sample of (obs, acs, rews, emps, next_obs, dones) \<Rightarrow>
        seq (update_transition B obs acs next_obs) (\<lambda>trans_loss.
        seq (joint_update_planning B obs acs next_obs) (\<lambda>plan_loss.
        seq (joint_update_source B next_obs) (\<lambda>i_rews.
        log_and_count logger trans_loss plan_loss i_rews))))"


text \<open>A run of calls of \<^verbatim>\<open>update\<close>, stopped by the first exception.\<close>

fun joint_updates ::
  "('p, 'a::{times,minus,uminus}) backend \<Rightarrow> ('a sample \<times> unit option) list
     \<Rightarrow> ((joint_est, 'p, 'a) world, unit) prog" where
  "joint_updates B [] = ret ()"
| "joint_updates B ((sample, logger) # calls) =
     seq (joint_update B sample logger) (\<lambda>_. joint_updates B calls)"


section \<open>Notions for the properties\<close>

subsection \<open>Architecture of an estimator\<close>

definition dims :: "approximator \<Rightarrow> nat \<times> nat" where
  "dims net = (num_in net, num_out net)"

definition next_obs_of :: "'a sample \<Rightarrow> 'a tensor list" where
  "next_obs_of sample = (case sample of (obs, acs, rews, emps, next_obs, dones) \<Rightarrow> next_obs)"

definition shape :: "'a tensor \<Rightarrow> nat \<times> nat \<times> device" where
  "shape t = (nrows t, ncols t, dev t)"

subsection \<open>Slices named by their bounds\<close>

text \<open>
  What the claims about slicing say, written out: the planning input of each agent is its
  next observation joined with the columns \<open>a\<close> to \<open>b\<close> of the transition output, for
  bounds given per agent. \<open>cumulative_bounds\<close> are the bounds of the spec: agent \<open>i\<close>
  starts at the sum of the widths of the agents before it and takes its own width.
\<close>

fun plan_slices ::
  "('p, 'a) backend \<Rightarrow> string \<Rightarrow> 'a tensor \<Rightarrow> (nat \<times> nat \<times> 'a tensor \<times> approximator) list
     \<Rightarrow> (('e, 'p, 'a) world, 'a tensor list) prog" where
  "plan_slices B device trans_out [] = ret []"
| "plan_slices B device trans_out ((a, b, no, plan) # rest) =
     seq (plan_prob B plan device no (slice_cols trans_out a b)) (\<lambda>p.
     seq (plan_slices B device trans_out rest) (\<lambda>prob_plan.
     ret (p # prob_plan)))"

definition cumulative_bounds :: "nat list \<Rightarrow> (nat \<times> nat) list" where
  "cumulative_bounds ws =
     map (\<lambda>i. (sum_list (take i ws), sum_list (take i ws) + ws ! i)) [0..<length ws]"

definition uniform_bounds :: "nat \<Rightarrow> nat \<Rightarrow> (nat \<times> nat) list" where
  "uniform_bounds w n = map (\<lambda>i. (i * w, (i + 1) * w)) [0..<n]"

definition with_bounds ::
  "(nat \<times> nat) list \<Rightarrow> ('a tensor \<times> approximator) list
     \<Rightarrow> (nat \<times> nat \<times> 'a tensor \<times> approximator) list" where
  "with_bounds bs pairs = map2 (\<lambda>(a, b) (no, plan). (a, b, no, plan)) bs pairs"





subsection \<open>Inputs that fit an estimator\<close>

text \<open>
  Conditions under which \<^verbatim>\<open>compute\<close> raises nowhere. \<open>rewards\<close> has a column for each of the
  \<open>n \<ge> 1\<close> agents; the array of next observations has at least \<open>n\<close> columns and at least
  one row, and every vector in the column of an agent has the width that agent's source
  network takes; the networks are on the host, where \<^verbatim>\<open>compute\<close> creates its tensors;
  the transition network takes all observations and all source outputs and returns at
  least the columns that are sliced; the planning network takes an observation and a
  slice of the same width, and returns as many columns as the source network.
\<close>

definition joint_compute_pre :: "joint_est \<Rightarrow> 'r ndarray \<Rightarrow> ('a list) ndarray \<Rightarrow> bool" where
  "joint_compute_pre self rewards next_obs =
     (let n = shape1 rewards; w = num_in (source self); a = num_out (source self)
      in 1 \<le> n \<and> n \<le> shape1 next_obs \<and> 1 \<le> shape0 next_obs \<and>
         list_all (\<lambda>i. list_all (\<lambda>r. length (item next_obs r i) = w) [0..<shape0 next_obs])
           [0..<n] \<and>
         placement (source self) = Host \<and> placement (transition self) = Host \<and>
         placement (planning self) = Host \<and>
         num_in (transition self) = n * w + n * a \<and>
         n * w \<le> num_out (transition self) \<and>
         num_in (planning self) = w + w \<and>
         num_out (planning self) = a)"

definition transfer_compute_pre :: "transfer_est \<Rightarrow> 'r ndarray \<Rightarrow> ('a list) ndarray \<Rightarrow> bool" where
  "transfer_compute_pre self rewards next_obs =
     (let n = shape1 rewards
      in 1 \<le> n \<and> n \<le> shape1 next_obs \<and> 1 \<le> shape0 next_obs \<and>
         length (source self) = n \<and> length (planning self) = n \<and>
         list_all (\<lambda>i.
             list_all (\<lambda>r. length (item next_obs r i) = num_in (source self ! i))
               [0..<shape0 next_obs] \<and>
             placement (source self ! i) = Host \<and> placement (planning self ! i) = Host \<and>
             num_in (planning self ! i) = num_in (source self ! i) + num_in (source self ! i) \<and>
             num_out (planning self ! i) = num_out (source self ! i) \<and>
             num_in (source self ! i) \<le> num_out (transition self))
           [0..<n] \<and>
         placement (transition self) = Host \<and>
         num_in (transition self) =
           sum_list (map num_in (source self)) + sum_list (map num_out (source self)))"

subsection \<open>The samples of \<^verbatim>\<open>compute\<close> and the empowerment signal\<close>

text \<open>
  The statements of \<^verbatim>\<open>compute\<close> up to its last loop (lines 47-63 and 213-230), returning
  the three lists of samples that the loops have filled: the hard and the soft samples of
  the source networks and the soft samples of the planning networks.
\<close>

definition joint_compute_samples ::
  "('p, 'a) backend \<Rightarrow> 'r ndarray \<Rightarrow> ('a list) ndarray
     \<Rightarrow> ((joint_est, 'p, 'a) world, 'a tensor list \<times> 'a tensor list \<times> 'a tensor list) prog" where
  "joint_compute_samples B rewards next_obs_array =
     seq (lift (stack_columns next_obs_array [0..<shape1 rewards])) (\<lambda>next_obs.
     seq (gets est) (\<lambda>self.
     seq (source_loop B (source_dev self) (map (\<lambda>no. (no, source self)) next_obs))
       (\<lambda>(acs_src, prob_src).
     seq (lift (cat (next_obs @ acs_src))) (\<lambda>trans_in.
     seq (forward B (transition self) trans_in) (\<lambda>trans_out.
     seq (lift (first_row_len next_obs)) (\<lambda>n_obs.
     seq (joint_plan_loop B (planning self) (plan_dev self) n_obs trans_out 0 next_obs)
       (\<lambda>prob_plan.
     ret (acs_src, prob_src, prob_plan))))))))"

definition transfer_compute_samples ::
  "('p, 'a) backend \<Rightarrow> 'r ndarray \<Rightarrow> ('a list) ndarray
     \<Rightarrow> ((transfer_est, 'p, 'a) world, 'a tensor list \<times> 'a tensor list \<times> 'a tensor list) prog" where
  "transfer_compute_samples B rewards next_obs_array =
     seq (lift (stack_columns next_obs_array [0..<shape1 rewards])) (\<lambda>next_obs.
     seq (gets est) (\<lambda>self.
     seq (source_loop B (source_dev self) (zip next_obs (source self)))
       (\<lambda>(acs_src, prob_src).
     seq (lift (cat (next_obs @ acs_src))) (\<lambda>trans_in.
     seq (forward B (transition self) trans_in) (\<lambda>trans_out.
     seq (transfer_compute_plan_loop B (plan_dev self) trans_out 0 (zip next_obs (planning self)))
       (\<lambda>prob_plan.
     ret (acs_src, prob_src, prob_plan)))))))"

text \<open>
  The empowerment signal in the spec's words: the hard source action times the planning
  probability minus the hard source action times the source probability, entry by
  entry, for tensors of one shape.
\<close>

definition hadamard_E :: "'a::{times,minus} tensor \<Rightarrow> 'a tensor \<Rightarrow> 'a tensor \<Rightarrow> 'a list list" where
  "hadamard_E acs_src prob_plan prob_src =
     map (\<lambda>r. map (\<lambda>c. rows acs_src ! r ! c * rows prob_plan ! r ! c -
                          rows acs_src ! r ! c * rows prob_src ! r ! c)
                 [0..<ncols acs_src])
       [0..<nrows acs_src]"

subsection \<open>Reading the logger's record\<close>



subsection \<open>What a statement leaves unchanged, and what holds when it returns\<close>

text \<open>
  \<open>keeps f m\<close>: whatever the outcome of \<open>m\<close>, also an exception, the part \<open>f\<close> of the
  state is the same after it as before.
\<close>

definition keeps :: "('s \<Rightarrow> 'v) \<Rightarrow> ('s, 'x) prog \<Rightarrow> bool" where
  "keeps f m = (\<forall>s. f (snd (m s)) = f s)"

text \<open>
  \<open>post m s Q\<close>: if \<open>m\<close>, started in \<open>s\<close>, returns a value, then \<open>Q\<close> holds of the value
  and the state after it.
\<close>

definition post :: "('s, 'x) prog \<Rightarrow> 's \<Rightarrow> ('x \<Rightarrow> 's \<Rightarrow> bool) \<Rightarrow> bool" where
  "post m s Q = (\<forall>x s'. m s = (Inr x, s') \<longrightarrow> Q x s')"

section \<open>Concrete estimators and inputs, for evaluation\<close>

subsection \<open>A concrete backend and environments, for evaluation\<close>

text \<open>
  A small deterministic backend: the parameter tensor at address \<open>a\<close> starts as the
  number \<open>a\<close>; a network returns the sum of its parameters plus, at
  column \<open>c\<close>, entry \<open>c\<close> of its input row (zero beyond the row); the sampler returns a
  one-hot row at column 0 when hard and the logits otherwise; mean and squared error are
  the exact ones over the reals; an optimizer step adds 1 to each of its parameters.
\<close>

definition cell :: "real list list \<Rightarrow> nat \<Rightarrow> nat \<Rightarrow> real" where
  "cell x r c = (if r < length x \<and> c < length (x ! r) then x ! r ! c else 0)"

definition exact_mean :: "real list list \<Rightarrow> real" where
  "exact_mean x = sum_list (concat x) / real (length (concat x))"

definition exact_mse :: "real list list \<Rightarrow> real list list \<Rightarrow> real" where
  "exact_mse x y = exact_mean (map2 (map2 (\<lambda>a b. (a - b) * (a - b))) x y)"

definition stub_backend :: "(real, real) backend" where
  "stub_backend =
     \<lparr>more_params = (\<lambda>i out. 1),
      init_param = (\<lambda>a. real a),
      net_out = (\<lambda>tr ps x r c. sum_list ps + cell x r c),
      draw = (\<lambda>k hard x r c. if hard then (if c = 0 then 1 else 0) else cell x r c),
      mean = exact_mean,
      mse = exact_mse,
      adam = (\<lambda>opt loss h a. h a + 1),
      cuda_available = True\<rparr>"

definition env_3_5_2 :: env where
  "env_3_5_2 = \<lparr>action_space = [4, 2, 6], observation_space = [3, 5, 2]\<rparr>"

definition env_none :: env where
  "env_none = \<lparr>action_space = [], observation_space = []\<rparr>"

definition env_4_4 :: env where
  "env_4_4 = \<lparr>action_space = [3, 3], observation_space = [4, 4]\<rparr>"

definition dict_4_4 :: params_dict where
  "dict_4_4 = joint_init_params (joint_sizing_loop (agents env_4_4) sizing0)"

subsection \<open>Tensors and networks for evaluation\<close>

definition echo_net :: "nat \<Rightarrow> approximator" where
  "echo_net w = \<lparr>num_in = w, num_out = w, param_ids = [], training = False,
                  placement = Host, moves = 0\<rparr>"

definition trans_out_10 :: "real tensor" where
  "trans_out_10 = from_rows Host 10 [[0, 1, 2, 3, 4, 5, 6, 7, 8, 9]]"

definition next_obs_3_5_2 :: "real tensor list" where
  "next_obs_3_5_2 =
     [from_rows Host 3 [[100, 101, 102]],
      from_rows Host 5 [[200, 201, 202, 203, 204]],
      from_rows Host 2 [[300, 301]]]"

definition bare_world :: "(unit, real, real) world" where
  "bare_world = \<lparr>est = (), heap = (\<lambda>a. 0), rng = 0, logged = []\<rparr>"


subsection \<open>A batch for evaluation\<close>

text \<open>Two agents with observation width 4 and three actions each, batch size 2.\<close>

definition sample_4_4 :: "real sample" where
  "sample_4_4 =
     ([from_rows Host 4 [[1, 0, 2, 1], [0, 1, 1, 3]], from_rows Host 4 [[2, 2, 0, 1], [1, 0, 0, 1]]],
      [from_rows Host 3 [[1, 0, 0], [0, 0, 1]], from_rows Host 3 [[0, 1, 0], [1, 0, 0]]],
      [from_rows Host 1 [[0], [1]], from_rows Host 1 [[0], [1]]],
      [from_rows Host 1 [[0], [0]], from_rows Host 1 [[0], [0]]],
      [from_rows Host 4 [[1, 1, 2, 1], [0, 2, 1, 3]], from_rows Host 4 [[2, 3, 0, 1], [1, 1, 0, 1]]],
      [from_rows Host 1 [[0], [0]], from_rows Host 1 [[0], [0]]])"

definition calls_4_4 :: "(real sample \<times> unit option) list" where
  "calls_4_4 = [(sample_4_4, Some ()), (sample_4_4, Some ())]"

subsection \<open>Inputs of \<^verbatim>\<open>compute\<close> for evaluation\<close>

text \<open>
  Rewards and next observations as the rollout hands them over: a row per environment
  thread and a column per agent.
\<close>

definition rewards_2_2 :: "real ndarray" where
  "rewards_2_2 = \<lparr>shape0 = 2, shape1 = 2, item = (\<lambda>r c. 0)\<rparr>"

definition rewards_2_3 :: "real ndarray" where
  "rewards_2_3 = \<lparr>shape0 = 2, shape1 = 3, item = (\<lambda>r c. 0)\<rparr>"

definition rewards_1_3 :: "real ndarray" where
  "rewards_1_3 = \<lparr>shape0 = 1, shape1 = 3, item = (\<lambda>r c. 0)\<rparr>"

definition obs_4_4 :: "(real list) ndarray" where
  "obs_4_4 = \<lparr>shape0 = 2, shape1 = 2,
     item = (\<lambda>r c. [[[1, 1, 2, 1], [2, 3, 0, 1]], [[0, 2, 1, 3], [1, 1, 0, 1]]] ! r ! c)\<rparr>"

definition obs_3_5_2 :: "(real list) ndarray" where
  "obs_3_5_2 = \<lparr>shape0 = 1, shape1 = 3,
     item = (\<lambda>r c. [[[1, 0, 2], [2, 2, 0, 1, 1], [3, 1]]] ! r ! c)\<rparr>"

definition obs_3_4_2 :: "(real list) ndarray" where
  "obs_3_4_2 = \<lparr>shape0 = 1, shape1 = 3,
     item = (\<lambda>r c. [[[1, 0, 2], [2, 2, 0, 1], [3, 1]]] ! r ! c)\<rparr>"

section \<open>Properties\<close>

subsection \<open>The factories\<close>

lemma joint_sizing_loop_sums:
  "num_in_transition (joint_sizing_loop xs v) =
     num_in_transition v + sum_list (map (\<lambda>(acsp_n, obsp_shape0). obsp_shape0 + acsp_n) xs)"
  "num_out_transition (joint_sizing_loop xs v) = num_out_transition v + sum_list (map snd xs)"
  by (induction xs v rule: joint_sizing_loop.induct) simp_all

lemma joint_sizing_loop_last:
  "xs \<noteq> [] \<Longrightarrow>
     num_in_source (joint_sizing_loop xs v) = snd (last xs) \<and>
     num_out_source (joint_sizing_loop xs v) = fst (last xs) \<and>
     num_in_planning (joint_sizing_loop xs v) = 2 * snd (last xs) \<and>
     num_out_planning (joint_sizing_loop xs v) = fst (last xs)"
proof (induction xs v rule: joint_sizing_loop.induct)
  case (1 v)
  then show ?case by simp
next
  case (2 acsp_n obsp_shape0 rest v)
  show ?case
  proof (cases rest)
    case Nil
    then show ?thesis by simp
  next
    case (Cons a list)
    with 2 show ?thesis by simp
  qed
qed

lemma joint_init_params_lookup:
  "joint_init_params v ''num_in_src'' = Some (num_in_source v)"
  "joint_init_params v ''num_in_plan'' = Some (num_in_planning v)"
  "joint_init_params v ''num_in_trans'' = Some (num_in_transition v)"
  "joint_init_params v ''num_out_src'' = Some (num_out_source v)"
  "joint_init_params v ''num_out_plan'' = Some (num_out_planning v)"
  "joint_init_params v ''num_out_trans'' = Some (num_out_transition v)"
  by (simp_all add: joint_init_params_def)

lemma dims_MLPNetwork: "dims (MLPNetwork B base i out) = (i, out)"
  by (simp add: dims_def MLPNetwork_def)

lemma parameters_MLPNetwork: "parameters (MLPNetwork B base i out) \<noteq> []"
  by (simp add: parameters_def MLPNetwork_def)

lemma Adam_ok: "0 \<le> lr \<Longrightarrow> ps \<noteq> [] \<Longrightarrow> Adam ps lr = Inr \<lparr>opt_params = ps, opt_lr = lr\<rparr>"
  by (simp add: Adam_def)

lemma Adam_negative: "lr < 0 \<Longrightarrow> Adam ps lr = Inl ValueError"
  by (simp add: Adam_def)

lemma Adam_empty: "Adam [] lr = Inl ValueError"
  by (simp add: Adam_def)

lemma joint_init_on_params:
  assumes "0 \<le> lr"
  shows "\<exists>w. joint_init B (joint_init_params v) lr = Inr w \<and>
       dims (transition (est w)) = (num_in_transition v, num_out_transition v) \<and>
       dims (source (est w)) = (num_in_source v, num_out_source v) \<and>
       dims (planning (est w)) = (num_in_planning v, num_out_planning v) \<and>
       init_dict (est w) = None"
  using assms
  by (simp add: joint_init_def joint_init_params_lookup getitem_def Let_def
      Adam_ok parameters_MLPNetwork dims_MLPNetwork)

lemma joint_factory_shape:
  "\<exists>w. joint_init_from_env B e = Inr w \<and>
       dims (transition (est w)) = (num_in_transition (joint_sizing_loop (agents e) sizing0),
                                    num_out_transition (joint_sizing_loop (agents e) sizing0)) \<and>
       dims (source (est w)) = (num_in_source (joint_sizing_loop (agents e) sizing0),
                                num_out_source (joint_sizing_loop (agents e) sizing0)) \<and>
       dims (planning (est w)) = (num_in_planning (joint_sizing_loop (agents e) sizing0),
                                  num_out_planning (joint_sizing_loop (agents e) sizing0)) \<and>
       init_dict (est w) = Some (joint_init_params (joint_sizing_loop (agents e) sizing0))"
proof -
  obtain w where w: "joint_init B (joint_init_params (joint_sizing_loop (agents e) sizing0)) (1 / 100) = Inr w"
    and d: "dims (transition (est w)) = (num_in_transition (joint_sizing_loop (agents e) sizing0),
                                    num_out_transition (joint_sizing_loop (agents e) sizing0))"
       "dims (source (est w)) = (num_in_source (joint_sizing_loop (agents e) sizing0),
                                num_out_source (joint_sizing_loop (agents e) sizing0))"
       "dims (planning (est w)) = (num_in_planning (joint_sizing_loop (agents e) sizing0),
                                  num_out_planning (joint_sizing_loop (agents e) sizing0))"
    using joint_init_on_params [of "1 / 100"] by auto
  show ?thesis
    using w d by (simp add: joint_init_from_env_def Let_def dims_def)
qed

text \<open>
  C2. The joint factory sizes the shared source and planning networks from the last agent
  only: for every environment with at least one agent the stored \<open>num_in_src\<close>,
  \<open>num_out_src\<close>, \<open>num_in_plan\<close> and \<open>num_out_plan\<close> are the last agent's
  observation width, action cardinality, twice its observation width and its action
  cardinality, and the source and planning networks are built with these dimensions.
\<close>

theorem joint_factory_last_agent:
  assumes "agents e \<noteq> []"
  shows "\<exists>w d. joint_init_from_env B e = Inr w \<and> init_dict (est w) = Some d \<and>
           d ''num_in_src'' = Some (snd (last (agents e))) \<and>
           d ''num_out_src'' = Some (fst (last (agents e))) \<and>
           d ''num_in_plan'' = Some (2 * snd (last (agents e))) \<and>
           d ''num_out_plan'' = Some (fst (last (agents e))) \<and>
           dims (source (est w)) = (snd (last (agents e)), fst (last (agents e))) \<and>
           dims (planning (est w)) = (2 * snd (last (agents e)), fst (last (agents e)))"
proof -
  let ?v = "joint_sizing_loop (agents e) sizing0"
  obtain w where w: "joint_init_from_env B e = Inr w"
    and d: "dims (source (est w)) = (num_in_source ?v, num_out_source ?v)"
       "dims (planning (est w)) = (num_in_planning ?v, num_out_planning ?v)"
       "init_dict (est w) = Some (joint_init_params ?v)"
    using joint_factory_shape by blast
  show ?thesis
    using w d joint_sizing_loop_last [OF assms, of sizing0]
    by (simp add: joint_init_params_lookup)
qed

theorem joint_factory_last_agent_witness:
  "agents env_3_5_2 \<noteq> [] \<and>
   (\<exists>w d. joint_init_from_env stub_backend env_3_5_2 = Inr w \<and> init_dict (est w) = Some d \<and>
      d ''num_in_src'' = Some 2 \<and> d ''num_out_src'' = Some 6 \<and>
      d ''num_in_plan'' = Some 4 \<and> d ''num_out_plan'' = Some 6 \<and>
      dims (source (est w)) = (2, 6) \<and> dims (planning (est w)) = (4, 6))"
proof -
  have h: "agents env_3_5_2 \<noteq> []"
    by (simp add: agents_def env_3_5_2_def)
  have l: "last (agents env_3_5_2) = (6, 2)"
    by (simp add: agents_def env_3_5_2_def)
  show ?thesis
    using h joint_factory_last_agent [OF h, of stub_backend] by (simp add: l)
qed

lemma transfer_sizing_loop_eq:
  "transfer_sizing_loop xs (ps, a, b) =
     (ps @ map agent_params xs,
      a + sum_list (map (\<lambda>(acsp_n, obsp_shape0). obsp_shape0 + acsp_n) xs),
      b + sum_list (map snd xs))"
  by (induction xs arbitrary: ps a b) (auto simp: add.assoc)

lemma agent_params_lookup:
  "agent_params (acsp_n, obsp_shape0) ''num_in_src'' = Some obsp_shape0"
  "agent_params (acsp_n, obsp_shape0) ''num_in_plan'' = Some (2 * obsp_shape0)"
  "agent_params (acsp_n, obsp_shape0) ''num_out_src'' = Some acsp_n"
  "agent_params (acsp_n, obsp_shape0) ''num_out_plan'' = Some acsp_n"
  by (simp_all add: agent_params_def)

lemma source_nets_agent_params:
  "\<exists>nets. source_nets B base (map agent_params xs) = Inr nets \<and>
          map dims nets = map (\<lambda>(acsp_n, obsp_shape0). (obsp_shape0, acsp_n)) xs \<and>
          (xs \<noteq> [] \<longrightarrow> all_parameters nets \<noteq> [])"
proof (induction xs arbitrary: base)
  case Nil
  show ?case by simp
next
  case (Cons x xs)
  obtain acsp_n obsp_shape0 where x: "x = (acsp_n, obsp_shape0)"
    by (cases x)
  let ?net = "MLPNetwork B base obsp_shape0 acsp_n"
  obtain nets where nets: "source_nets B (next_free ?net base) (map agent_params xs) = Inr nets"
    "map dims nets = map (\<lambda>(acsp_n, obsp_shape0). (obsp_shape0, acsp_n)) xs"
    using Cons.IH by blast
  show ?case
    using nets
    by (simp add: x agent_params_lookup getitem_def Let_def dims_MLPNetwork all_parameters_def
        parameters_MLPNetwork)
qed

lemma planning_nets_agent_params:
  "\<exists>nets. planning_nets B base (map agent_params xs) = Inr nets \<and>
          map dims nets = map (\<lambda>(acsp_n, obsp_shape0). (2 * obsp_shape0, acsp_n)) xs \<and>
          (xs \<noteq> [] \<longrightarrow> all_parameters nets \<noteq> [])"
proof (induction xs arbitrary: base)
  case Nil
  show ?case by simp
next
  case (Cons x xs)
  obtain acsp_n obsp_shape0 where x: "x = (acsp_n, obsp_shape0)"
    by (cases x)
  let ?net = "MLPNetwork B base (2 * obsp_shape0) acsp_n"
  obtain nets where nets: "planning_nets B (next_free ?net base) (map agent_params xs) = Inr nets"
    "map dims nets = map (\<lambda>(acsp_n, obsp_shape0). (2 * obsp_shape0, acsp_n)) xs"
    using Cons.IH by blast
  show ?case
    using nets
    by (simp add: x agent_params_lookup getitem_def Let_def dims_MLPNetwork all_parameters_def
        parameters_MLPNetwork)
qed

lemma transfer_init_on_params:
  assumes "0 \<le> lr" and "xs \<noteq> []"
  shows "\<exists>w. transfer_init B (map agent_params xs) a b lr h r c = Inr w \<and>
       dims (transition (est w)) = (a, b) \<and>
       map dims (source (est w)) = map (\<lambda>(acsp_n, obsp_shape0). (obsp_shape0, acsp_n)) xs \<and>
       map dims (planning (est w)) = map (\<lambda>(acsp_n, obsp_shape0). (2 * obsp_shape0, acsp_n)) xs \<and>
       init_dict (est w) = None"
proof -
  let ?t = "MLPNetwork B 0 a b"
  obtain srcs where s: "source_nets B (next_free ?t 0) (map agent_params xs) = Inr srcs"
    "map dims srcs = map (\<lambda>(acsp_n, obsp_shape0). (obsp_shape0, acsp_n)) xs"
    "all_parameters srcs \<noteq> []"
    using source_nets_agent_params [of B "next_free ?t 0" xs] assms(2) by blast
  obtain plans where p:
    "planning_nets B (next_free ?t 0 + length (all_parameters srcs)) (map agent_params xs) = Inr plans"
    "map dims plans = map (\<lambda>(acsp_n, obsp_shape0). (2 * obsp_shape0, acsp_n)) xs"
    "all_parameters plans \<noteq> []"
    using planning_nets_agent_params
      [of B "next_free ?t 0 + length (all_parameters srcs)" xs] assms(2) by blast
  show ?thesis
    using s p assms(1)
    by (simp add: transfer_init_def Let_def dims_MLPNetwork Adam_ok parameters_MLPNetwork)
qed

lemma transfer_init_raises:
  assumes "lr < 0 \<or> xs = []"
  shows "transfer_init B (map agent_params xs) a b lr h r c = Inl ValueError"
proof -
  let ?t = "MLPNetwork B 0 a b"
  obtain srcs where s: "source_nets B (next_free ?t 0) (map agent_params xs) = Inr srcs"
    using source_nets_agent_params [of B "next_free ?t 0" xs] by blast
  obtain plans where p:
    "planning_nets B (next_free ?t 0 + length (all_parameters srcs)) (map agent_params xs) = Inr plans"
    using planning_nets_agent_params
      [of B "next_free ?t 0 + length (all_parameters srcs)" xs] by blast
  show ?thesis
  proof (cases "lr < 0")
    case True
    then show ?thesis
      using s p by (simp add: transfer_init_def Let_def Adam_negative)
  next
    case False
    with assms have xs: "xs = []" by simp
    have "plans = []"
      using p xs by simp
    then show ?thesis
      using s p False
      by (simp add: transfer_init_def Let_def Adam_ok parameters_MLPNetwork Adam_empty
          all_parameters_def)
  qed
qed

lemma transfer_factory_raises:
  assumes "lr < 0 \<or> agents e = []"
  shows "transfer_init_from_env B e lr h r c = Inl ValueError"
  using transfer_init_raises [OF assms, of B]
  by (simp add: transfer_init_from_env_def transfer_sizing_loop_eq transfer_construct_def
      Let_def)

lemma transfer_factory_shape:
  assumes "0 \<le> lr" and "agents e \<noteq> []"
  shows "\<exists>w. transfer_init_from_env B e lr h r c = Inr w \<and>
       dims (transition (est w)) =
         (sum_list (map (\<lambda>(acsp_n, obsp_shape0). obsp_shape0 + acsp_n) (agents e)),
          sum_list (map snd (agents e))) \<and>
       map dims (source (est w)) = map (\<lambda>(acsp_n, obsp_shape0). (obsp_shape0, acsp_n)) (agents e) \<and>
       map dims (planning (est w)) =
         map (\<lambda>(acsp_n, obsp_shape0). (2 * obsp_shape0, acsp_n)) (agents e) \<and>
       init_dict (est w) =
         Some \<lparr>d_lr = lr, d_hidden_dim = h, d_init_params = map agent_params (agents e),
               d_num_in_trans = sum_list (map (\<lambda>(acsp_n, obsp_shape0). obsp_shape0 + acsp_n) (agents e)),
               d_num_out_trans = sum_list (map snd (agents e)),
               d_recurrent = r, d_convolutional = c\<rparr>"
proof -
  let ?a = "sum_list (map (\<lambda>(acsp_n, obsp_shape0). obsp_shape0 + acsp_n) (agents e))"
  let ?b = "sum_list (map snd (agents e))"
  obtain w where w: "transfer_init B (map agent_params (agents e)) ?a ?b lr h r c = Inr w"
    and d: "dims (transition (est w)) = (?a, ?b)"
      "map dims (source (est w)) = map (\<lambda>(acsp_n, obsp_shape0). (obsp_shape0, acsp_n)) (agents e)"
      "map dims (planning (est w)) = map (\<lambda>(acsp_n, obsp_shape0). (2 * obsp_shape0, acsp_n)) (agents e)"
    using transfer_init_on_params [OF assms] by blast
  show ?thesis
    using w d
    by (simp add: transfer_init_from_env_def transfer_sizing_loop_eq transfer_construct_def
        Let_def)
qed

lemma transfer_factory_returned:
  assumes "transfer_init_from_env B e lr h r c = Inr v"
  shows "0 \<le> lr" and "agents e \<noteq> []"
proof -
  have "\<not> (lr < 0 \<or> agents e = [])"
    using assms transfer_factory_raises [of lr e B h r c] by auto
  then show "0 \<le> lr" and "agents e \<noteq> []"
    by simp_all
qed

text \<open>
  C6. For every environment the joint factory builds the transition network with input
  width the sum over the agents of observation width plus action cardinality and output
  width the sum of the observation widths. So does the transfer factory in every
  estimator it returns, where the planning network of each agent has that agent's action
  cardinality as its output width; it returns one when the learning rate is not negative
  and the environment has an agent, and otherwise an optimizer of lines 198-204 refuses
  its arguments with ValueError.
\<close>

theorem factories_transition_sizing:
  "(\<exists>w. joint_init_from_env B e = Inr w \<and>
        num_in (transition (est w)) =
          sum_list (map (\<lambda>(acsp_n, obsp_shape0). obsp_shape0 + acsp_n) (agents e)) \<and>
        num_out (transition (est w)) = sum_list (map snd (agents e))) \<and>
   (transfer_init_from_env B e lr h r c = Inr v \<longrightarrow>
        num_in (transition (est v)) =
          sum_list (map (\<lambda>(acsp_n, obsp_shape0). obsp_shape0 + acsp_n) (agents e)) \<and>
        num_out (transition (est v)) = sum_list (map snd (agents e)) \<and>
        map num_out (planning (est v)) = map fst (agents e)) \<and>
   (0 \<le> lr \<and> agents e \<noteq> [] \<longrightarrow> (\<exists>v. transfer_init_from_env B e lr h r c = Inr v)) \<and>
   (lr < 0 \<or> agents e = [] \<longrightarrow> transfer_init_from_env B e lr h r c = Inl ValueError)"
proof (intro conjI impI)
  obtain w where "joint_init_from_env B e = Inr w"
    "dims (transition (est w)) = (num_in_transition (joint_sizing_loop (agents e) sizing0),
                                  num_out_transition (joint_sizing_loop (agents e) sizing0))"
    using joint_factory_shape by blast
  then show "\<exists>w. joint_init_from_env B e = Inr w \<and>
        num_in (transition (est w)) =
          sum_list (map (\<lambda>(acsp_n, obsp_shape0). obsp_shape0 + acsp_n) (agents e)) \<and>
        num_out (transition (est w)) = sum_list (map snd (agents e))"
    by (simp add: dims_def joint_sizing_loop_sums sizing0_def)
next
  assume v: "transfer_init_from_env B e lr h r c = Inr v"
  note ok = transfer_factory_returned [OF v]
  obtain w where w: "transfer_init_from_env B e lr h r c = Inr w"
    "dims (transition (est w)) =
         (sum_list (map (\<lambda>(acsp_n, obsp_shape0). obsp_shape0 + acsp_n) (agents e)),
          sum_list (map snd (agents e)))"
    "map dims (planning (est w)) =
         map (\<lambda>(acsp_n, obsp_shape0). (2 * obsp_shape0, acsp_n)) (agents e)"
    using transfer_factory_shape [OF ok] by blast
  have wv: "w = v"
    using w(1) v by simp
  have "map num_out (planning (est v)) = map snd (map dims (planning (est v)))"
    by (simp add: dims_def)
  also have "\<dots> = map fst (agents e)"
    using w(3) by (simp add: wv case_prod_unfold)
  finally have outs: "map num_out (planning (est v)) = map fst (agents e)" .
  show "num_in (transition (est v)) =
          sum_list (map (\<lambda>(acsp_n, obsp_shape0). obsp_shape0 + acsp_n) (agents e))"
    using w(2) by (simp add: wv dims_def)
  show "num_out (transition (est v)) = sum_list (map snd (agents e))"
    using w(2) by (simp add: wv dims_def)
  show "map num_out (planning (est v)) = map fst (agents e)"
    by (rule outs)
next
  assume "0 \<le> lr \<and> agents e \<noteq> []"
  then show "\<exists>v. transfer_init_from_env B e lr h r c = Inr v"
    using transfer_factory_shape [of lr e B h r c] by blast
next
  assume "lr < 0 \<or> agents e = []"
  then show "transfer_init_from_env B e lr h r c = Inl ValueError"
    by (rule transfer_factory_raises)
qed

theorem factories_transition_sizing_witness:
  "(\<exists>w. joint_init_from_env stub_backend env_3_5_2 = Inr w \<and>
        num_in (transition (est w)) = 22 \<and> num_out (transition (est w)) = 10) \<and>
   0 \<le> (1 / 100 :: real) \<and> agents env_3_5_2 \<noteq> [] \<and>
   (\<exists>v. transfer_init_from_env stub_backend env_3_5_2 (1 / 100) 64 False False = Inr v \<and>
        num_in (transition (est v)) = 22 \<and> num_out (transition (est v)) = 10 \<and>
        map num_out (planning (est v)) = [4, 2, 6]) \<and>
   agents env_none = [] \<and>
   transfer_init_from_env stub_backend env_none (1 / 100) 64 False False = Inl ValueError \<and>
   transfer_init_from_env stub_backend env_3_5_2 (- 1) 64 False False = Inl ValueError"
proof -
  have h: "0 \<le> (1 / 100 :: real)" "agents env_3_5_2 \<noteq> []" "agents env_none = []"
    by (simp_all add: agents_def env_3_5_2_def env_none_def)
  have sums: "sum_list (map (\<lambda>(acsp_n, obsp_shape0). obsp_shape0 + acsp_n) (agents env_3_5_2)) = 22"
    "sum_list (map snd (agents env_3_5_2)) = 10" "map fst (agents env_3_5_2) = [4, 2, 6]"
    by (simp_all add: agents_def env_3_5_2_def)
  note th = factories_transition_sizing [of stub_backend env_3_5_2 "1 / 100" 64 False False]
  from th h obtain v where
    v: "transfer_init_from_env stub_backend env_3_5_2 (1 / 100) 64 False False = Inr v"
    by blast
  have j: "\<exists>w. joint_init_from_env stub_backend env_3_5_2 = Inr w \<and>
        num_in (transition (est w)) = 22 \<and> num_out (transition (est w)) = 10"
    using th [of v] unfolding sums by blast
  have t: "num_in (transition (est v)) = 22 \<and> num_out (transition (est v)) = 10 \<and>
        map num_out (planning (est v)) = [4, 2, 6]"
    using th [of v] v unfolding sums by blast
  have n: "transfer_init_from_env stub_backend env_none (1 / 100) 64 False False = Inl ValueError"
    using factories_transition_sizing [of stub_backend env_none "1 / 100" 64 False False] h(3)
    by blast
  have m: "transfer_init_from_env stub_backend env_3_5_2 (- 1) 64 False False = Inl ValueError"
    using factories_transition_sizing [of stub_backend env_3_5_2 "- 1" 64 False False]
    by simp
  have t': "\<exists>v. transfer_init_from_env stub_backend env_3_5_2 (1 / 100) 64 False False = Inr v \<and>
        num_in (transition (est v)) = 22 \<and> num_out (transition (est v)) = 10 \<and>
        map num_out (planning (est v)) = [4, 2, 6]"
    using v t by (intro exI [of _ v]) simp
  show ?thesis
    using j h t' n m by simp
qed

text \<open>
  C9. An estimator rebuilt by the constructor from the \<open>init_dict\<close> that the factory
  stored has networks of the same input and output widths as the original, in both
  variants and for every environment: the joint estimator rebuilt with any learning rate
  that is not negative (0.01 when none is given), the transfer estimator, whenever the
  factory returned one, with the learning rate the dictionary holds. The transfer
  factory returns an estimator when the learning rate is not negative and the
  environment has an agent, and raises ValueError otherwise.
\<close>

theorem reconstruct_same_architecture:
  "(0 \<le> lr' \<longrightarrow>
      (\<exists>w d w'. joint_init_from_env B e = Inr w \<and> init_dict (est w) = Some d \<and>
        joint_init B d lr' = Inr w' \<and>
        dims (transition (est w')) = dims (transition (est w)) \<and>
        dims (source (est w')) = dims (source (est w)) \<and>
        dims (planning (est w')) = dims (planning (est w)))) \<and>
   (transfer_init_from_env B e lr h r c = Inr v \<longrightarrow>
      (\<exists>d v'. init_dict (est v) = Some d \<and>
        transfer_construct B d = Inr v' \<and>
        dims (transition (est v')) = dims (transition (est v)) \<and>
        map dims (source (est v')) = map dims (source (est v)) \<and>
        map dims (planning (est v')) = map dims (planning (est v)))) \<and>
   (0 \<le> lr \<and> agents e \<noteq> [] \<longrightarrow> (\<exists>v. transfer_init_from_env B e lr h r c = Inr v)) \<and>
   (lr < 0 \<or> agents e = [] \<longrightarrow> transfer_init_from_env B e lr h r c = Inl ValueError)"
proof (intro conjI impI)
  assume lr': "0 \<le> lr'"
  let ?v = "joint_sizing_loop (agents e) sizing0"
  obtain w where w: "joint_init_from_env B e = Inr w"
    "dims (transition (est w)) = (num_in_transition ?v, num_out_transition ?v)"
    "dims (source (est w)) = (num_in_source ?v, num_out_source ?v)"
    "dims (planning (est w)) = (num_in_planning ?v, num_out_planning ?v)"
    "init_dict (est w) = Some (joint_init_params ?v)"
    using joint_factory_shape by blast
  obtain w' where w': "joint_init B (joint_init_params ?v) lr' = Inr w'"
    "dims (transition (est w')) = (num_in_transition ?v, num_out_transition ?v)"
    "dims (source (est w')) = (num_in_source ?v, num_out_source ?v)"
    "dims (planning (est w')) = (num_in_planning ?v, num_out_planning ?v)"
    using joint_init_on_params [OF lr'] by blast
  show "\<exists>w d w'. joint_init_from_env B e = Inr w \<and> init_dict (est w) = Some d \<and>
        joint_init B d lr' = Inr w' \<and>
        dims (transition (est w')) = dims (transition (est w)) \<and>
        dims (source (est w')) = dims (source (est w)) \<and>
        dims (planning (est w')) = dims (planning (est w))"
    using w w' by simp
next
  assume v: "transfer_init_from_env B e lr h r c = Inr v"
  note ok = transfer_factory_returned [OF v]
  let ?a = "sum_list (map (\<lambda>(acsp_n, obsp_shape0). obsp_shape0 + acsp_n) (agents e))"
  let ?b = "sum_list (map snd (agents e))"
  let ?d = "\<lparr>d_lr = lr, d_hidden_dim = h, d_init_params = map agent_params (agents e),
               d_num_in_trans = ?a, d_num_out_trans = ?b,
               d_recurrent = r, d_convolutional = c\<rparr>"
  obtain w where w: "transfer_init_from_env B e lr h r c = Inr w"
    "dims (transition (est w)) = (?a, ?b)"
    "map dims (source (est w)) = map (\<lambda>(acsp_n, obsp_shape0). (obsp_shape0, acsp_n)) (agents e)"
    "map dims (planning (est w)) =
         map (\<lambda>(acsp_n, obsp_shape0). (2 * obsp_shape0, acsp_n)) (agents e)"
    "init_dict (est w) = Some ?d"
    using transfer_factory_shape [OF ok] by blast
  have wv: "w = v"
    using w(1) v by simp
  obtain v' where v': "transfer_init B (map agent_params (agents e)) ?a ?b lr h r c = Inr v'"
    "dims (transition (est v')) = (?a, ?b)"
    "map dims (source (est v')) = map (\<lambda>(acsp_n, obsp_shape0). (obsp_shape0, acsp_n)) (agents e)"
    "map dims (planning (est v')) =
         map (\<lambda>(acsp_n, obsp_shape0). (2 * obsp_shape0, acsp_n)) (agents e)"
    using transfer_init_on_params [OF ok] by blast
  have "transfer_construct B ?d = Inr v'"
    using v'(1) by (simp add: transfer_construct_def)
  then show "\<exists>d v'. init_dict (est v) = Some d \<and>
        transfer_construct B d = Inr v' \<and>
        dims (transition (est v')) = dims (transition (est v)) \<and>
        map dims (source (est v')) = map dims (source (est v)) \<and>
        map dims (planning (est v')) = map dims (planning (est v))"
    using w(2-5) v'(2-4) unfolding wv by simp
next
  assume "0 \<le> lr \<and> agents e \<noteq> []"
  then show "\<exists>v. transfer_init_from_env B e lr h r c = Inr v"
    using transfer_factory_shape [of lr e B h r c] by blast
next
  assume "lr < 0 \<or> agents e = []"
  then show "transfer_init_from_env B e lr h r c = Inl ValueError"
    by (rule transfer_factory_raises)
qed

theorem reconstruct_same_architecture_witness:
  "0 \<le> (1 / 100 :: real) \<and> agents env_3_5_2 \<noteq> [] \<and>
   (\<exists>w d w'. joint_init_from_env stub_backend env_4_4 = Inr w \<and> init_dict (est w) = Some d \<and>
        joint_init stub_backend d (1 / 100) = Inr w' \<and>
        dims (transition (est w')) = dims (transition (est w)) \<and>
        dims (source (est w')) = dims (source (est w)) \<and>
        dims (planning (est w')) = dims (planning (est w))) \<and>
   (\<exists>v d v'. transfer_init_from_env stub_backend env_3_5_2 (1 / 100) 64 False False = Inr v \<and>
        init_dict (est v) = Some d \<and>
        transfer_construct stub_backend d = Inr v' \<and>
        dims (transition (est v')) = dims (transition (est v)) \<and>
        map dims (source (est v')) = map dims (source (est v)) \<and>
        map dims (planning (est v')) = map dims (planning (est v)))"
proof -
  have h: "0 \<le> (1 / 100 :: real)" "agents env_3_5_2 \<noteq> []"
    by (simp_all add: agents_def env_3_5_2_def)
  have j: "\<exists>w d w'. joint_init_from_env stub_backend env_4_4 = Inr w \<and> init_dict (est w) = Some d \<and>
        joint_init stub_backend d (1 / 100) = Inr w' \<and>
        dims (transition (est w')) = dims (transition (est w)) \<and>
        dims (source (est w')) = dims (source (est w)) \<and>
        dims (planning (est w')) = dims (planning (est w))"
    using reconstruct_same_architecture [of "1 / 100" stub_backend env_4_4] h(1) by blast
  note th = reconstruct_same_architecture [of _ stub_backend env_3_5_2 "1 / 100" 64 False False]
  from th h obtain v where
    v: "transfer_init_from_env stub_backend env_3_5_2 (1 / 100) 64 False False = Inr v"
    by blast
  from th [of _ v] v obtain d v' where t: "init_dict (est v) = Some d \<and>
        transfer_construct stub_backend d = Inr v' \<and>
        dims (transition (est v')) = dims (transition (est v)) \<and>
        map dims (source (est v')) = map dims (source (est v)) \<and>
        map dims (planning (est v')) = map dims (planning (est v))"
    by blast
  have t': "\<exists>v d v'. transfer_init_from_env stub_backend env_3_5_2 (1 / 100) 64 False False = Inr v \<and>
        init_dict (est v) = Some d \<and>
        transfer_construct stub_backend d = Inr v' \<and>
        dims (transition (est v')) = dims (transition (est v)) \<and>
        map dims (source (est v')) = map dims (source (est v)) \<and>
        map dims (planning (est v')) = map dims (planning (est v))"
    using v t by (intro exI [of _ v] exI [of _ d] exI [of _ v']) simp
  show ?thesis
    using h j t' by simp
qed

subsection \<open>Mode and device control\<close>

lemmas prog_defs = ret_def raise_def lift_def seq_def gets_def modify_def finish_def

lemma place_transition_same:
  "trans_dev e = device \<Longrightarrow> place_transition B device e = (Inr (), e)"
  by (simp add: place_transition_def prog_defs)

lemma transfer_prep_training_same_device:
  assumes "trans_dev e = device" "source_dev e = device" "plan_dev e = device"
  shows "transfer_prep_training B device e = (Inr (), e\<lparr>transition := train (transition e)\<rparr>)"
  using assms by (simp add: transfer_prep_training_def place_transition_def prog_defs)

lemma transfer_prep_rollouts_same_device:
  assumes "trans_dev e = device" "source_dev e = device" "plan_dev e = device"
  shows "transfer_prep_rollouts B device e =
    (Inr (), e\<lparr>transition := eval_mode (transition e),
               source := map eval_mode (source e),
               planning := map eval_mode (planning e)\<rparr>)"
  using assms by (simp add: transfer_prep_rollouts_def place_transition_def prog_defs eval_mode_def)

lemma fn_ok:
  assumes "device = ''gpu'' \<longrightarrow> cuda_available B"
  shows "fn B device x =
    Inr (x\<lparr>placement := (if device = ''gpu'' then Cuda else Host), moves := moves x + 1\<rparr>)"
  using assms by (simp add: fn_def)

lemma joint_prep_training_effect:
  assumes "device = ''gpu'' \<longrightarrow> cuda_available B"
  shows "\<exists>e'. joint_prep_training B device e = (Inr (), e') \<and>
     training (transition e') \<and> training (source e') \<and> training (planning e') \<and>
     trans_dev e' = device \<and> source_dev e' = device \<and> plan_dev e' = device \<and>
     moves (transition e') = moves (transition e) + (if trans_dev e = device then 0 else 1) \<and>
     moves (source e') = moves (source e) + (if source_dev e = device then 0 else 1) \<and>
     moves (planning e') = moves (planning e) + (if plan_dev e = device then 0 else 1)"
  by (simp add: joint_prep_training_def place_transition_def joint_place_source_def
      joint_place_planning_def prog_defs fn_ok [OF assms] train_def)

lemma joint_prep_training_again:
  assumes "trans_dev e = device" "source_dev e = device" "plan_dev e = device"
    "training (transition e)" "training (source e)" "training (planning e)"
  shows "joint_prep_training B device e = (Inr (), e)"
  using assms
  by (simp add: joint_prep_training_def place_transition_def joint_place_source_def
      joint_place_planning_def prog_defs train_def)

lemma move_and_train_ok:
  assumes "device = ''gpu'' \<longrightarrow> cuda_available B"
  shows "move_and_train B device xs =
    (None, map (\<lambda>x. train (x\<lparr>placement := (if device = ''gpu'' then Cuda else Host),
                               moves := moves x + 1\<rparr>)) xs)"
  by (induction xs) (simp_all add: fn_ok [OF assms])

lemma transfer_prep_training_effect:
  assumes "device = ''gpu'' \<longrightarrow> cuda_available B"
  shows "\<exists>e'. transfer_prep_training B device e = (Inr (), e') \<and>
     training (transition e') \<and>
     trans_dev e' = device \<and> source_dev e' = device \<and> plan_dev e' = device \<and>
     moves (transition e') = moves (transition e) + (if trans_dev e = device then 0 else 1) \<and>
     map moves (source e') =
       map (\<lambda>x. moves x + (if source_dev e = device then 0 else 1)) (source e) \<and>
     map moves (planning e') =
       map (\<lambda>x. moves x + (if plan_dev e = device then 0 else 1)) (planning e) \<and>
     (source_dev e = device \<longrightarrow> source e' = source e) \<and>
     (plan_dev e = device \<longrightarrow> planning e' = planning e)"
  by (simp add: transfer_prep_training_def place_transition_def prog_defs fn_ok [OF assms]
      move_and_train_ok [OF assms] train_def comp_def)

text \<open>
  C4, where the transfer variant departs from it: \<open>prep_training\<close> puts the
  per-agent networks into training mode only inside the branch taken when the stored
  device tag differs from the request. After \<open>prep_rollouts('cpu')\<close> on a fresh
  estimator, \<open>prep_training('cpu')\<close> returns with the transition network in training
  mode and every source and planning network still in evaluation mode.
\<close>

theorem transfer_prep_training_leaves_eval_mode:
  "\<exists>w e1 e2.
     transfer_init_from_env stub_backend env_3_5_2 (1 / 100) 64 False False = Inr w \<and>
     transfer_prep_rollouts stub_backend ''cpu'' (est w) = (Inr (), e1) \<and>
     transfer_prep_training stub_backend ''cpu'' e1 = (Inr (), e2) \<and>
     training (transition e2) \<and>
     map training (source e2) = [False, False, False] \<and>
     map training (planning e2) = [False, False, False]"
proof -
  obtain w where w: "transfer_init_from_env stub_backend env_3_5_2 (1 / 100) 64 False False = Inr w"
    and tags: "trans_dev (est w) = ''cpu''" "source_dev (est w) = ''cpu''" "plan_dev (est w) = ''cpu''"
    and len: "length (source (est w)) = 3" "length (planning (est w)) = 3"
    by (simp add: transfer_init_from_env_def transfer_construct_def transfer_init_def
        agents_def env_3_5_2_def agent_params_def getitem_def Let_def
        Adam_ok all_parameters_def parameters_MLPNetwork)
  let ?e1 = "(est w)\<lparr>transition := eval_mode (transition (est w)),
               source := map eval_mode (source (est w)),
               planning := map eval_mode (planning (est w))\<rparr>"
  have r: "transfer_prep_rollouts stub_backend ''cpu'' (est w) = (Inr (), ?e1)"
    using tags by (rule transfer_prep_rollouts_same_device)
  have t: "transfer_prep_training stub_backend ''cpu'' ?e1 =
             (Inr (), ?e1\<lparr>transition := train (transition ?e1)\<rparr>)"
    by (rule transfer_prep_training_same_device) (simp_all add: tags)
  have three: "\<And>xs::approximator list. length xs = 3 \<Longrightarrow>
      map training (map eval_mode xs) = [False, False, False]"
  proof -
    fix xs :: "approximator list"
    assume "length xs = 3"
    then obtain a b c where "xs = [a, b, c]"
      by (auto simp: length_Suc_conv numeral_3_eq_3)
    then show "map training (map eval_mode xs) = [False, False, False]"
      by (simp add: eval_mode_def)
  qed
  show ?thesis
    using w r t three [OF len(1)] three [OF len(2)]
    by (simp add: train_def)
qed

subsection \<open>Slicing the transition output\<close>



lemma uniform_bounds_0: "uniform_bounds w 0 = []"
  by (simp add: uniform_bounds_def)

lemma uniform_bounds_Suc:
  "uniform_bounds w (Suc n) = (0, w) # map (\<lambda>(a, b). (w + a, w + b)) (uniform_bounds w n)"
proof -
  have "[0..<Suc n] = 0 # map Suc [0..<n]"
    by (simp add: upt_conv_Cons map_Suc_upt del: upt_Suc)
  then show ?thesis
    by (simp add: uniform_bounds_def del: upt_Suc)
qed


lemma transfer_compute_plan_loop_bounds:
  "transfer_compute_plan_loop B device trans_out start pairs =
     plan_slices B device trans_out
       (with_bounds (map (\<lambda>(no, plan). (start, start + ncols no)) pairs) pairs)"
proof (induction pairs)
  case Nil
  show ?case by (simp add: with_bounds_def)
next
  case (Cons x pairs)
  obtain no plan where x: "x = (no, plan)" by (cases x)
  show ?case
    using Cons.IH by (simp add: x with_bounds_def Let_def)
qed

lemma joint_plan_loop_bounds:
  "joint_plan_loop B plan device n_obs trans_out i next_obs =
     plan_slices B device trans_out
       (with_bounds (map (\<lambda>(a, b). (i * n_obs + a, i * n_obs + b))
                      (uniform_bounds n_obs (length next_obs)))
          (map (\<lambda>no. (no, plan)) next_obs))"
proof (induction next_obs arbitrary: i)
  case Nil
  show ?case by (simp add: with_bounds_def uniform_bounds_0)
next
  case (Cons no next_obs)
  have bs: "map (\<lambda>(a, b). (i * n_obs + a, i * n_obs + b))
              (uniform_bounds n_obs (length (no # next_obs))) =
            (i * n_obs, (i + 1) * n_obs) #
            map (\<lambda>(a, b). ((i + 1) * n_obs + a, (i + 1) * n_obs + b))
              (uniform_bounds n_obs (length next_obs))"
    by (simp add: uniform_bounds_Suc comp_def case_prod_unfold algebra_simps)
  show ?case
    unfolding joint_plan_loop.simps Let_def Cons.IH [of "i + 1"] bs
    by (simp add: with_bounds_def)
qed



text \<open>
  C1, where \<^verbatim>\<open>compute\<close> departs from it: in the transfer variant the loop of
  \<^verbatim>\<open>compute\<close> never advances \<open>start\<close>. With observation widths 3, 5 and 2 and the
  transition output \<open>[0, ..., 9]\<close> of width 10, the planning inputs are the next
  observations joined with the columns \<open>[0:3]\<close>, \<open>[0:5]\<close> and \<open>[0:2]\<close>, where the claim has
  \<open>[0:3]\<close>, \<open>[3:8]\<close> and \<open>[8:10]\<close>. (The networks here return their input, so the result
  shows the planning inputs.)
\<close>

theorem transfer_compute_slices_from_zero:
  "(case transfer_compute_plan_loop stub_backend ''cpu'' trans_out_10 0
           (zip next_obs_3_5_2 [echo_net 6, echo_net 10, echo_net 4]) bare_world of
      (Inr prob_plan, w') \<Rightarrow>
         map to_rows prob_plan =
           [[[100, 101, 102, 0, 1, 2]],
            [[200, 201, 202, 203, 204, 0, 1, 2, 3, 4]],
            [[300, 301, 0, 1]]]
    | (Inl e, w') \<Rightarrow> False)"
  by code_simp

lemma transfer_update_slices_cumulative_example:
  "(case transfer_update_plan_loop stub_backend ''cpu'' trans_out_10 0
           (zip next_obs_3_5_2 [echo_net 6, echo_net 10, echo_net 4]) bare_world of
      (Inr prob_plan, w') \<Rightarrow>
         map to_rows prob_plan =
           [[[100, 101, 102, 0, 1, 2]],
            [[200, 201, 202, 203, 204, 3, 4, 5, 6, 7]],
            [[300, 301, 8, 9]]]
    | (Inl e, w') \<Rightarrow> False)"
  by code_simp

lemma cumulative_bounds_3_5_2: "cumulative_bounds [3, 5, 2] = [(0, 3), (3, 8), (8, 10)]"
  by code_simp







subsection \<open>Frame rules\<close>

lemma keepsI: "(\<And>s. f (snd (m s)) = f s) \<Longrightarrow> keeps f m"
  by (simp add: keeps_def)

lemma keepsD: "keeps f m \<Longrightarrow> m s = (r, s') \<Longrightarrow> f s' = f s"
  by (auto simp: keeps_def dest: spec [of _ s])

lemma keeps_ret: "keeps f (ret x)"
  by (simp add: keeps_def ret_def)

lemma keeps_raise: "keeps f (raise e)"
  by (simp add: keeps_def raise_def)

lemma keeps_lift: "keeps f (lift r)"
  by (simp add: keeps_def lift_def)

lemma keeps_gets: "keeps f (gets g)"
  by (simp add: keeps_def gets_def)

lemma keeps_modify: "(\<And>s. f (g s) = f s) \<Longrightarrow> keeps f (modify g)"
  by (simp add: keeps_def modify_def)

lemma keeps_seq:
  assumes "keeps f m" and "\<And>x. keeps f (k x)"
  shows "keeps f (seq m k)"
proof (rule keepsI)
  fix s
  obtain r s1 where m: "m s = (r, s1)"
    by (cases "m s")
  have s1: "f s1 = f s"
    using assms(1) m by (rule keepsD)
  show "f (snd (seq m k s)) = f s"
  proof (cases r)
    case (Inl e)
    then show ?thesis by (simp add: seq_def m s1)
  next
    case (Inr x)
    obtain r2 s2 where k: "k x s1 = (r2, s2)"
      by (cases "k x s1")
    have "f s2 = f s1"
      using assms(2) k by (rule keepsD)
    then show ?thesis by (simp add: seq_def m Inr k s1)
  qed
qed

lemma keeps_if: "keeps f m \<Longrightarrow> keeps f n \<Longrightarrow> keeps f (if c then m else n)"
  by simp

lemma keeps_case_prod: "(\<And>a b. keeps f (k a b)) \<Longrightarrow> keeps f (case p of (a, b) \<Rightarrow> k a b)"
  by (cases p) simp

lemma keeps_Let: "(\<And>x. keeps f (k x)) \<Longrightarrow> keeps f (let x = v in k x)"
  by simp

lemma keeps_forward: "keeps f (forward B net x)"
  unfolding forward_def
  by (intro keeps_seq keeps_gets keeps_if keeps_raise keeps_ret)

lemma keeps_gumbel_softmax:
  assumes "\<And>w k. f (w\<lparr>rng := k\<rparr>) = f w"
  shows "keeps f (gumbel_softmax B logits device hard)"
  unfolding gumbel_softmax_def
  by (intro keeps_seq keeps_gets keeps_modify keeps_ret assms)

lemma keeps_step:
  assumes "\<And>w h. f (w\<lparr>heap := h\<rparr>) = f w"
  shows "keeps f (step B opt loss)"
  unfolding step_def
  by (intro keeps_modify assms)

lemma keeps_zero_grad: "keeps f (zero_grad opt)"
  by (simp add: zero_grad_def keeps_ret)

lemma keeps_backward: "keeps f (backward loss)"
  by (simp add: backward_def keeps_ret)

lemma keeps_add_scalars:
  assumes "\<And>w l. f (w\<lparr>logged := l\<rparr>) = f w"
  shows "keeps f (add_scalars tag scalars k)"
  unfolding add_scalars_def
  by (intro keeps_modify assms)

lemma keeps_source_loop:
  assumes "\<And>w k. f (w\<lparr>rng := k\<rparr>) = f w"
  shows "keeps f (source_loop B device pairs)"
proof (induction pairs)
  case Nil
  show ?case by (simp add: keeps_ret)
next
  case (Cons x pairs)
  obtain no src where x: "x = (no, src)" by (cases x)
  show ?case
    unfolding x source_loop.simps
    by (intro keeps_seq keeps_forward keeps_gumbel_softmax keeps_case_prod keeps_ret Cons.IH assms)
qed

lemma keeps_plan_action_loop:
  assumes "\<And>w k. f (w\<lparr>rng := k\<rparr>) = f w"
  shows "keeps f (plan_action_loop B device triples)"
proof (induction triples)
  case Nil
  show ?case by (simp add: keeps_ret)
next
  case (Cons x triples)
  obtain ob no plan where x: "x = (ob, no, plan)" by (cases x)
  show ?case
    unfolding x plan_action_loop.simps
    by (intro keeps_seq keeps_lift keeps_forward keeps_gumbel_softmax keeps_ret Cons.IH assms)
qed

lemma keeps_plan_prob:
  assumes "\<And>w k. f (w\<lparr>rng := k\<rparr>) = f w"
  shows "keeps f (plan_prob B plan device no nno)"
  unfolding plan_prob_def
  by (intro keeps_seq keeps_lift keeps_forward keeps_gumbel_softmax assms)

lemma keeps_plan_slices:
  assumes "\<And>w k. f (w\<lparr>rng := k\<rparr>) = f w"
  shows "keeps f (plan_slices B device trans_out items)"
proof (induction items)
  case Nil
  show ?case by (simp add: keeps_ret)
next
  case (Cons x items)
  obtain a b no plan where x: "x = (a, b, no, plan)" by (cases x)
  show ?case
    unfolding x plan_slices.simps
    by (intro keeps_seq keeps_plan_prob keeps_ret Cons.IH assms)
qed

lemma keeps_joint_plan_loop:
  assumes "\<And>w k. f (w\<lparr>rng := k\<rparr>) = f w"
  shows "keeps f (joint_plan_loop B plan device n_obs trans_out i next_obs)"
  unfolding joint_plan_loop_bounds by (rule keeps_plan_slices) (rule assms)

lemma keeps_transfer_compute_plan_loop:
  assumes "\<And>w k. f (w\<lparr>rng := k\<rparr>) = f w"
  shows "keeps f (transfer_compute_plan_loop B device trans_out start pairs)"
  unfolding transfer_compute_plan_loop_bounds by (rule keeps_plan_slices) (rule assms)


lemma keeps_joint_compute:
  assumes "\<And>w k. f (w\<lparr>rng := k\<rparr>) = f w"
  shows "keeps f (joint_compute B rewards next_obs_array)"
  unfolding joint_compute_def
  by (intro keeps_seq keeps_lift keeps_gets keeps_source_loop keeps_case_prod keeps_forward
      keeps_joint_plan_loop keeps_ret assms)

lemma keeps_transfer_compute:
  assumes "\<And>w k. f (w\<lparr>rng := k\<rparr>) = f w"
  shows "keeps f (transfer_compute B rewards next_obs_array)"
  unfolding transfer_compute_def
  by (intro keeps_seq keeps_lift keeps_gets keeps_source_loop keeps_case_prod keeps_forward
      keeps_transfer_compute_plan_loop keeps_ret assms)

subsection \<open>\<^verbatim>\<open>update\<close>: what its steps change\<close>

lemma seq_Inr_elim:
  assumes "seq m k s = (Inr y, s')"
  obtains x s1 where "m s = (Inr x, s1)" and "k x s1 = (Inr y, s')"
proof -
  obtain r s1 where m: "m s = (r, s1)" by (cases "m s")
  show thesis
  proof (cases r)
    case (Inl e)
    with assms m show ?thesis by (simp add: seq_def)
  next
    case (Inr x)
    with assms m have "k x s1 = (Inr y, s')" by (simp add: seq_def)
    with m Inr show ?thesis by (auto intro: that)
  qed
qed

lemma keeps_update_transition:
  assumes "\<And>w k. f (w\<lparr>rng := k\<rparr>) = f w" and "\<And>w h. f (w\<lparr>heap := h\<rparr>) = f w"
  shows "keeps f (update_transition B obs acs next_obs)"
  unfolding update_transition_def
  by (intro keeps_seq keeps_gets keeps_zero_grad keeps_lift keeps_forward keeps_backward
      keeps_step keeps_ret assms)

lemma keeps_planning_loss:
  assumes "\<And>w k. f (w\<lparr>rng := k\<rparr>) = f w" and "\<And>w h. f (w\<lparr>heap := h\<rparr>) = f w"
  shows "keeps f (planning_loss B opt device triples acs)"
  unfolding planning_loss_def
  by (intro keeps_seq keeps_zero_grad keeps_plan_action_loop keeps_lift keeps_backward
      keeps_step keeps_ret assms)

lemma keeps_joint_update_planning:
  assumes "\<And>w k. f (w\<lparr>rng := k\<rparr>) = f w" and "\<And>w h. f (w\<lparr>heap := h\<rparr>) = f w"
  shows "keeps f (joint_update_planning B obs acs next_obs)"
  unfolding joint_update_planning_def
  by (intro keeps_seq keeps_gets keeps_planning_loss assms)


lemma keeps_joint_update_source:
  assumes "\<And>w k. f (w\<lparr>rng := k\<rparr>) = f w" and "\<And>w h. f (w\<lparr>heap := h\<rparr>) = f w"
  shows "keeps f (joint_update_source B next_obs)"
  unfolding joint_update_source_def
  by (intro keeps_seq keeps_gets keeps_zero_grad keeps_source_loop keeps_case_prod keeps_lift
      keeps_forward keeps_joint_plan_loop keeps_Let keeps_backward keeps_step keeps_ret assms)


text \<open>The last lines of \<^verbatim>\<open>update\<close>, which never raise.\<close>

lemma log_and_count_eq:
  "log_and_count logger trans_loss plan_loss i_rews w =
     (Inr (),
      w\<lparr>logged := logged w @
           (if logger \<noteq> None
            then [(''empowerment/losses'',
                   [(''trans_loss'', trans_loss), (''plan_loss'', plan_loss), (''i_rews'', i_rews)],
                   niter (est w))]
            else []),
        est := (est w)\<lparr>niter := niter (est w) + 1\<rparr>\<rparr>)"
  by (cases logger) (simp_all add: log_and_count_def add_scalars_def seq_def gets_def modify_def ret_def)

lemma joint_update_effect:
  assumes "joint_update B sample logger w = (Inr (), w')"
  shows "\<exists>trans_loss plan_loss i_rews.
     logged w' = logged w @
       (if logger \<noteq> None
        then [(''empowerment/losses'',
               [(''trans_loss'', trans_loss), (''plan_loss'', plan_loss), (''i_rews'', i_rews)],
               niter (est w))]
        else []) \<and>
     est w' = (est w)\<lparr>niter := niter (est w) + 1\<rparr>"
proof -
  obtain obs acs rews emps next_obs dones where s: "sample = (obs, acs, rews, emps, next_obs, dones)"
    by (cases sample) auto
  let ?f = "\<lambda>w::(joint_est, 'a, 'b) world. (est w, logged w)"
  from assms obtain trans_loss w1 where
    1: "update_transition B obs acs next_obs w = (Inr trans_loss, w1)" and
    r1: "seq (joint_update_planning B obs acs next_obs) (\<lambda>plan_loss.
        seq (joint_update_source B next_obs) (\<lambda>i_rews.
        log_and_count logger trans_loss plan_loss i_rews)) w1 = (Inr (), w')"
    unfolding joint_update_def s prod.case by (rule seq_Inr_elim)
  from r1 obtain plan_loss w2 where
    2: "joint_update_planning B obs acs next_obs w1 = (Inr plan_loss, w2)" and
    r2: "seq (joint_update_source B next_obs) (\<lambda>i_rews.
        log_and_count logger trans_loss plan_loss i_rews) w2 = (Inr (), w')"
    by (rule seq_Inr_elim)
  from r2 obtain i_rews w3 where
    3: "joint_update_source B next_obs w2 = (Inr i_rews, w3)" and
    r3: "log_and_count logger trans_loss plan_loss i_rews w3 = (Inr (), w')"
    by (rule seq_Inr_elim)
  have "?f w1 = ?f w"
    by (rule keepsD [OF keeps_update_transition 1]) simp_all
  moreover have "?f w2 = ?f w1"
    by (rule keepsD [OF keeps_joint_update_planning 2]) simp_all
  moreover have "?f w3 = ?f w2"
    by (rule keepsD [OF keeps_joint_update_source 3]) simp_all
  ultimately have same: "est w3 = est w" "logged w3 = logged w"
    by simp_all
  show ?thesis
    using r3 same unfolding log_and_count_eq by auto
qed






subsection \<open>The optimizers and the parameters they own\<close>

lemma postI: "(\<And>x s'. m s = (Inr x, s') \<Longrightarrow> Q x s') \<Longrightarrow> post m s Q"
  by (simp add: post_def)

lemma postD: "post m s Q \<Longrightarrow> m s = (Inr x, s') \<Longrightarrow> Q x s'"
  by (simp add: post_def)

lemma post_seq_keeps:
  assumes "keeps f m" and "\<And>x s1. f s1 = f s \<Longrightarrow> post (k x) s1 Q"
  shows "post (seq m k) s Q"
proof (rule postI)
  fix y s'
  assume "seq m k s = (Inr y, s')"
  then obtain x s1 where m: "m s = (Inr x, s1)" and k: "k x s1 = (Inr y, s')"
    by (rule seq_Inr_elim)
  have "f s1 = f s"
    using assms(1) m by (rule keepsD)
  then have "post (k x) s1 Q"
    by (rule assms(2))
  then show "Q y s'"
    using k by (rule postD)
qed

lemma post_case_prod: "(\<And>a b. post (k a b) s Q) \<Longrightarrow> post (case p of (a, b) \<Rightarrow> k a b) s Q"
  by (cases p) simp

lemma post_step_ret:
  "post (seq (step B opt loss) (\<lambda>_. ret loss)) s
     (\<lambda>x s'. x = loss \<and>
        heap s' = (\<lambda>a. if a \<in> set (opt_params opt) then adam B opt loss (heap s) a else heap s a))"
  by (simp add: post_def seq_def step_def modify_def ret_def)

lemma keeps_step_disjoint:
  assumes "set xs \<inter> set (opt_params opt) = {}"
  shows "keeps (\<lambda>w. map (heap w) xs) (step B opt loss)"
  using assms by (auto simp: keeps_def step_def modify_def)

lemma joint_init_wiring:
  assumes "joint_init B d lr = Inr w"
  shows "opt_params (source_optimizer (est w)) =
           parameters (source (est w)) @ parameters (planning (est w))"
    and "set (parameters (transition (est w))) \<inter>
           set (parameters (source (est w)) @ parameters (planning (est w))) = {}"
proof -
  from assms obtain n_in n_out nis nos nip nop where
    t: "transition (est w) = MLPNetwork B 0 n_in n_out" and
    s: "source (est w) = MLPNetwork B (next_free (MLPNetwork B 0 n_in n_out) 0) nis nos" and
    p: "planning (est w) = MLPNetwork B
          (next_free (MLPNetwork B (next_free (MLPNetwork B 0 n_in n_out) 0) nis nos)
             (next_free (MLPNetwork B 0 n_in n_out) 0)) nip nop" and
    o: "source_optimizer (est w) =
          \<lparr>opt_params = parameters (source (est w)) @ parameters (planning (est w)),
           opt_lr = lr\<rparr>"
    by (auto simp: joint_init_def getitem_def Let_def Adam_def split: option.splits if_splits)
  show "opt_params (source_optimizer (est w)) =
           parameters (source (est w)) @ parameters (planning (est w))"
    by (simp add: o)
  show "set (parameters (transition (est w))) \<inter>
           set (parameters (source (est w)) @ parameters (planning (est w))) = {}"
    by (auto simp: t s p parameters_def MLPNetwork_def next_free_def)
qed

lemma joint_updates_keep_wiring:
  assumes "joint_updates B calls w = (Inr (), w')"
  shows "transition (est w') = transition (est w) \<and> source (est w') = source (est w) \<and>
         planning (est w') = planning (est w) \<and>
         source_optimizer (est w') = source_optimizer (est w)"
  using assms
proof (induction calls arbitrary: w)
  case Nil
  then show ?case by (simp add: ret_def)
next
  case (Cons c calls)
  obtain sample logger where c: "c = (sample, logger)" by (cases c)
  from Cons.prems obtain u w1 where
    1: "joint_update B sample logger w = (Inr u, w1)" and
    2: "joint_updates B calls w1 = (Inr (), w')"
    unfolding c joint_updates.simps by (rule seq_Inr_elim)
  from joint_update_effect [of B sample logger w w1] 1
  have "est w1 = (est w)\<lparr>niter := niter (est w) + 1\<rparr>"
    by auto
  then show ?case
    using Cons.IH [OF 2] by simp
qed

lemma joint_update_source_heap:
  assumes run: "joint_update_source B next_obs w = (r, w')"
  shows "set xs \<inter> set (opt_params (source_optimizer (est w))) = {} \<Longrightarrow>
           map (heap w') xs = map (heap w) xs"
    and "r = Inr i_rews \<Longrightarrow>
           heap w' = (\<lambda>a. if a \<in> set (opt_params (source_optimizer (est w)))
                           then adam B (source_optimizer (est w)) i_rews (heap w) a
                           else heap w a)"
proof -
  let ?self = "est w"
  let ?body = "seq (zero_grad (source_optimizer ?self)) (\<lambda>_.
     seq (source_loop B (source_dev ?self) (map (\<lambda>no. (no, source ?self)) next_obs))
       (\<lambda>(acs_src, prob_src).
     seq (lift (cat (next_obs @ acs_src))) (\<lambda>trans_in.
     seq (forward B (transition ?self) trans_in) (\<lambda>trans_out.
     seq (lift (first_row_len next_obs)) (\<lambda>n_obs.
     seq (joint_plan_loop B (planning ?self) (plan_dev ?self) n_obs trans_out 0 next_obs)
       (\<lambda>prob_plan.
     seq (lift (empowerment_E prob_plan prob_src acs_src)) (\<lambda>E.
     seq (backward (- tmean B E)) (\<lambda>_.
     seq (step B (source_optimizer ?self) (- tmean B E)) (\<lambda>_.
     ret (- tmean B E))))))))))"
  have eq: "joint_update_source B next_obs w = ?body w"
    by (simp add: joint_update_source_def seq_def gets_def Let_def)
  {
    assume dis: "set xs \<inter> set (opt_params (source_optimizer (est w))) = {}"
    have "keeps (\<lambda>w. map (heap w) xs) ?body"
      by (intro keeps_seq keeps_zero_grad keeps_source_loop keeps_case_prod keeps_lift
          keeps_forward keeps_joint_plan_loop keeps_backward keeps_ret
          keeps_step_disjoint [OF dis]) simp_all
    then show "map (heap w') xs = map (heap w) xs"
      using run unfolding eq by (rule keepsD)
  }
  {
    assume r: "r = Inr i_rews"
    let ?Q = "\<lambda>x s'. x = i_rews \<longrightarrow>
       heap s' = (\<lambda>a. if a \<in> set (opt_params (source_optimizer (est w)))
                           then adam B (source_optimizer (est w)) i_rews (heap w) a
                           else heap w a)"
    have last: "post (seq (step B (source_optimizer ?self) loss) (\<lambda>_. ret loss)) s ?Q"
      if "heap s = heap w" for s loss
      using post_step_ret [of B "source_optimizer ?self" loss s] that
      by (auto simp: post_def)
    have "post ?body w ?Q"
      by (intro post_seq_keeps [where f = heap] post_case_prod keeps_zero_grad keeps_source_loop
          keeps_lift keeps_forward keeps_joint_plan_loop keeps_backward last) simp_all
    then have "?Q i_rews w'"
      using run unfolding eq r by (rule postD)
    then show "heap w' = (\<lambda>a. if a \<in> set (opt_params (source_optimizer (est w)))
                           then adam B (source_optimizer (est w)) i_rews (heap w) a
                           else heap w a)"
      by simp
  }
qed

text \<open>
  C7. In a joint estimator built by the constructor, after any run of calls of
  \<open>update\<close>, the source optimizer owns exactly the parameters of the source network and
  of the planning network. The third step of \<open>update\<close>, whatever its outcome, leaves
  every parameter of the transition network as it was; when it returns, every parameter
  of the source and of the planning network holds the value the source optimizer's step
  computed for it.
\<close>

theorem source_step_touches_source_and_planning:
  assumes "joint_init B d lr = Inr w0"
    and "joint_updates B calls w0 = (Inr (), w)"
    and "joint_update_source B next_obs w = (r, w')"
  shows "set (opt_params (source_optimizer (est w))) =
           set (parameters (source (est w))) \<union> set (parameters (planning (est w))) \<and>
         map (heap w') (parameters (transition (est w))) =
           map (heap w) (parameters (transition (est w))) \<and>
         (r = Inr i_rews \<longrightarrow>
            map (heap w') (parameters (source (est w)) @ parameters (planning (est w))) =
            map (adam B (source_optimizer (est w)) i_rews (heap w))
              (parameters (source (est w)) @ parameters (planning (est w))))"
proof -
  note same = joint_updates_keep_wiring [OF assms(2)]
  have own: "opt_params (source_optimizer (est w)) =
           parameters (source (est w)) @ parameters (planning (est w))"
    using joint_init_wiring(1) [OF assms(1)] same by simp
  have dis: "set (parameters (transition (est w))) \<inter>
           set (opt_params (source_optimizer (est w))) = {}"
    using joint_init_wiring(2) [OF assms(1)] same own by simp
  have 1: "set (opt_params (source_optimizer (est w))) =
           set (parameters (source (est w))) \<union> set (parameters (planning (est w)))"
    by (simp add: own)
  have 2: "map (heap w') (parameters (transition (est w))) =
           map (heap w) (parameters (transition (est w)))"
    using assms(3) dis by (rule joint_update_source_heap(1))
  have 3: "map (heap w') (parameters (source (est w)) @ parameters (planning (est w))) =
            map (adam B (source_optimizer (est w)) i_rews (heap w))
              (parameters (source (est w)) @ parameters (planning (est w)))"
    if "r = Inr i_rews"
    using joint_update_source_heap(2) [OF assms(3) that] by (simp add: own)
  show ?thesis
    using 1 2 3 by blast
qed

lemma built:
  assumes "case m of Inl e \<Rightarrow> False | Inr x \<Rightarrow> P x"
  obtains x where "m = Inr x" and "P x"
  using assms by (cases m) auto

lemma returned:
  assumes "case p of (Inl e, s') \<Rightarrow> False | (Inr x, s') \<Rightarrow> P x s'"
  obtains x s' where "p = (Inr x, s')" and "P x s'"
proof -
  obtain r s' where p: "p = (r, s')" by (cases p)
  show thesis
    using assms that unfolding p by (cases r) auto
qed

theorem source_step_touches_source_and_planning_witness:
  "\<exists>w0 w i_rews w'.
     joint_init stub_backend dict_4_4 (1 / 100) = Inr w0 \<and>
     joint_updates stub_backend calls_4_4 w0 = (Inr (), w) \<and>
     joint_update_source stub_backend (next_obs_of sample_4_4) w = (Inr i_rews, w') \<and>
     set (opt_params (source_optimizer (est w))) =
       set (parameters (source (est w))) \<union> set (parameters (planning (est w))) \<and>
     map (heap w') (parameters (transition (est w))) =
       map (heap w) (parameters (transition (est w))) \<and>
     map (heap w') (parameters (source (est w)) @ parameters (planning (est w))) =
       map (\<lambda>a. heap w a + 1) (parameters (source (est w)) @ parameters (planning (est w))) \<and>
     parameters (source (est w)) @ parameters (planning (est w)) \<noteq> []"
proof -
  have run: "(case joint_init stub_backend dict_4_4 (1 / 100) of
       Inl e \<Rightarrow> False
     | Inr w0 \<Rightarrow>
         (case joint_updates stub_backend calls_4_4 w0 of
            (Inl e, w) \<Rightarrow> False
          | (Inr u, w) \<Rightarrow>
              parameters (source (est w)) @ parameters (planning (est w)) \<noteq> [] \<and>
              (case joint_update_source stub_backend (next_obs_of sample_4_4) w of
                 (Inl e, w') \<Rightarrow> False
               | (Inr i_rews, w') \<Rightarrow> True)))"
    by code_simp
  then obtain w0 where
    0: "joint_init stub_backend dict_4_4 (1 / 100) = Inr w0" and
    r1: "(case joint_updates stub_backend calls_4_4 w0 of
            (Inl e, w) \<Rightarrow> False
          | (Inr u, w) \<Rightarrow>
              parameters (source (est w)) @ parameters (planning (est w)) \<noteq> [] \<and>
              (case joint_update_source stub_backend (next_obs_of sample_4_4) w of
                 (Inl e, w') \<Rightarrow> False
               | (Inr i_rews, w') \<Rightarrow> True))"
    by (rule built)
  from r1 obtain u w where
    1: "joint_updates stub_backend calls_4_4 w0 = (Inr u, w)" and
    c: "parameters (source (est w)) @ parameters (planning (est w)) \<noteq> [] \<and>
        (case joint_update_source stub_backend (next_obs_of sample_4_4) w of
                 (Inl e, w') \<Rightarrow> False
               | (Inr i_rews, w') \<Rightarrow> True)"
    by (rule returned)
  from c have 3: "parameters (source (est w)) @ parameters (planning (est w)) \<noteq> []"
    by (rule conjunct1)
  from c have r2: "(case joint_update_source stub_backend (next_obs_of sample_4_4) w of
                 (Inl e, w') \<Rightarrow> False
               | (Inr i_rews, w') \<Rightarrow> True)"
    by (rule conjunct2)
  from r2 obtain i_rews w' where
    2: "joint_update_source stub_backend (next_obs_of sample_4_4) w = (Inr i_rews, w')"
    by (rule returned)
  have 1: "joint_updates stub_backend calls_4_4 w0 = (Inr (), w)"
    using 1 by simp
  note th = source_step_touches_source_and_planning [OF 0 1 2, of i_rews]
  have a: "adam stub_backend opt loss h = (\<lambda>a. h a + 1)" for opt loss and h :: "nat \<Rightarrow> real"
    by (simp add: stub_backend_def)
  have body: "joint_init stub_backend dict_4_4 (1 / 100) = Inr w0 \<and>
     joint_updates stub_backend calls_4_4 w0 = (Inr (), w) \<and>
     joint_update_source stub_backend (next_obs_of sample_4_4) w = (Inr i_rews, w') \<and>
     set (opt_params (source_optimizer (est w))) =
       set (parameters (source (est w))) \<union> set (parameters (planning (est w))) \<and>
     map (heap w') (parameters (transition (est w))) =
       map (heap w) (parameters (transition (est w))) \<and>
     map (heap w') (parameters (source (est w)) @ parameters (planning (est w))) =
       map (\<lambda>a. heap w a + 1) (parameters (source (est w)) @ parameters (planning (est w))) \<and>
     parameters (source (est w)) @ parameters (planning (est w)) \<noteq> []"
    using 0 1 2 3 th unfolding a by simp
  show ?thesis
    by (rule exI [of _ w0], rule exI [of _ w], rule exI [of _ i_rews], rule exI [of _ w'])
      (rule body)
qed

subsection \<open>Shapes through \<^verbatim>\<open>compute\<close>\<close>

lemma shape_simps:
  "shape t = (b, c, d) \<longleftrightarrow> nrows t = b \<and> ncols t = c \<and> dev t = d"
  by (auto simp: shape_def)

lemma vstack_shape:
  assumes "vs \<noteq> []" and "list_all (\<lambda>v. length v = w) vs"
  shows "\<exists>t. vstack vs = Inr t \<and> shape t = (length vs, w, Host)"
proof -
  obtain v rest where vs: "vs = v # rest"
    using assms(1) by (cases vs) auto
  have "length v = w" "list_all (\<lambda>u. length u = length v) rest"
    using assms(2) by (simp_all add: vs list_all_iff)
  then show ?thesis
    by (simp add: vstack_def vs from_rows_def shape_def nrows_def)
qed

lemma stack_columns_shapes:
  assumes "1 \<le> shape0 a"
    and "list_all (\<lambda>i. i < shape1 a \<and>
           list_all (\<lambda>r. length (item a r i) = wd i) [0..<shape0 a]) ixs"
  shows "\<exists>ts. stack_columns a ixs = Inr ts \<and>
           map shape ts = map (\<lambda>i. (shape0 a, wd i, Host)) ixs"
  using assms(2)
proof (induction ixs)
  case Nil
  show ?case by simp
next
  case (Cons i ixs)
  let ?col = "map (\<lambda>r. item a r i) [0..<shape0 a]"
  have i: "i < shape1 a" and len: "list_all (\<lambda>r. length (item a r i) = wd i) [0..<shape0 a]"
    and rest: "list_all (\<lambda>i. i < shape1 a \<and>
           list_all (\<lambda>r. length (item a r i) = wd i) [0..<shape0 a]) ixs"
    using Cons.prems by simp_all
  have col: "column a i = Inr ?col"
    using i by (simp add: column_def)
  have "?col \<noteq> []"
    using assms(1) by simp
  moreover have "list_all (\<lambda>v. length v = wd i) ?col"
    using len by (simp add: list_all_iff)
  ultimately obtain t where t: "vstack ?col = Inr t" "shape t = (length ?col, wd i, Host)"
    using vstack_shape by blast
  obtain ts where ts: "stack_columns a ixs = Inr ts"
    "map shape ts = map (\<lambda>i. (shape0 a, wd i, Host)) ixs"
    using Cons.IH [OF rest] by blast
  show ?case
    using col t ts by simp
qed

lemma forward_shape:
  assumes "dev x = placement net" and "ncols x = num_in net"
  shows "\<exists>t. forward B net x w = (Inr t, w) \<and> shape t = (nrows x, num_out net, dev x)"
  using assms
  by (simp add: forward_def seq_def gets_def ret_def raise_def shape_def nrows_def)

lemma gumbel_softmax_shape:
  "\<exists>t. gumbel_softmax B logits device hard w = (Inr t, w\<lparr>rng := rng w + 1\<rparr>) \<and>
       shape t = shape logits"
  by (simp add: gumbel_softmax_def seq_def gets_def ret_def modify_def shape_def nrows_def)

lemma source_loop_shapes:
  assumes "list_all (\<lambda>(no, src). dev no = placement src \<and> ncols no = num_in src) pairs"
  shows "\<exists>acs_src prob_src w'. source_loop B device pairs w = (Inr (acs_src, prob_src), w') \<and>
           map shape acs_src = map (\<lambda>(no, src). (nrows no, num_out src, dev no)) pairs \<and>
           map shape prob_src = map (\<lambda>(no, src). (nrows no, num_out src, dev no)) pairs"
  using assms
proof (induction pairs arbitrary: w)
  case Nil
  show ?case by (simp add: ret_def)
next
  case (Cons x pairs)
  obtain no src where x: "x = (no, src)" by (cases x)
  have ok: "dev no = placement src" "ncols no = num_in src"
    and rest: "list_all (\<lambda>(no, src). dev no = placement src \<and> ncols no = num_in src) pairs"
    using Cons.prems by (simp_all add: x)
  obtain l1 where l1: "forward B src no w = (Inr l1, w)"
    "shape l1 = (nrows no, num_out src, dev no)"
    using forward_shape [OF ok] by blast
  obtain a where a: "gumbel_softmax B l1 device True w = (Inr a, w\<lparr>rng := rng w + 1\<rparr>)"
    "shape a = shape l1"
    using gumbel_softmax_shape by blast
  let ?w1 = "w\<lparr>rng := rng w + 1\<rparr>"
  obtain l2 where l2: "forward B src no ?w1 = (Inr l2, ?w1)"
    "shape l2 = (nrows no, num_out src, dev no)"
    using forward_shape [OF ok] by blast
  obtain p where p: "gumbel_softmax B l2 device False ?w1 = (Inr p, ?w1\<lparr>rng := rng ?w1 + 1\<rparr>)"
    "shape p = shape l2"
    using gumbel_softmax_shape by blast
  let ?w2 = "?w1\<lparr>rng := rng ?w1 + 1\<rparr>"
  obtain acs_src prob_src w' where r: "source_loop B device pairs ?w2 = (Inr (acs_src, prob_src), w')"
    "map shape acs_src = map (\<lambda>(no, src). (nrows no, num_out src, dev no)) pairs"
    "map shape prob_src = map (\<lambda>(no, src). (nrows no, num_out src, dev no)) pairs"
    using Cons.IH [OF rest] by blast
  have "source_loop B device (x # pairs) w = (Inr (a # acs_src, p # prob_src), w')"
    using l1(1) a(1) l2(1) p(1) r(1) by (simp add: x seq_def ret_def)
  then show ?case
    using a(2) p(2) l1(2) l2(2) r(2,3) by (simp add: x)
qed

lemma cat_onto_shape:
  assumes "list_all (\<lambda>t. nrows t = nrows acc \<and> dev t = dev acc) ts"
  shows "\<exists>t. cat_onto acc ts = Inr t \<and>
           shape t = (nrows acc, ncols acc + sum_list (map ncols ts), dev acc)"
  using assms
proof (induction ts arbitrary: acc)
  case Nil
  show ?case by (simp add: shape_def)
next
  case (Cons t ts)
  have t: "nrows t = nrows acc" "dev t = dev acc"
    and rest: "list_all (\<lambda>t. nrows t = nrows acc \<and> dev t = dev acc) ts"
    using Cons.prems by simp_all
  have h: "nrows (hcat acc t) = nrows acc" "dev (hcat acc t) = dev acc"
    "ncols (hcat acc t) = ncols acc + ncols t"
    using t by (simp_all add: hcat_def nrows_def)
  have "list_all (\<lambda>u. nrows u = nrows (hcat acc t) \<and> dev u = dev (hcat acc t)) ts"
    using rest by (simp add: h)
  from Cons.IH [OF this] obtain r where
    "cat_onto (hcat acc t) ts = Inr r"
    "shape r = (nrows (hcat acc t), ncols (hcat acc t) + sum_list (map ncols ts), dev (hcat acc t))"
    by blast
  then show ?case
    using t by (simp add: h add.assoc)
qed

lemma cat_shape:
  assumes "ts \<noteq> []" and "list_all (\<lambda>t. nrows t = b \<and> dev t = d) ts"
  shows "\<exists>t. cat ts = Inr t \<and> shape t = (b, sum_list (map ncols ts), d)"
proof -
  obtain t rest where ts: "ts = t # rest"
    using assms(1) by (cases ts) auto
  have t: "nrows t = b" "dev t = d" and "list_all (\<lambda>u. nrows u = b \<and> dev u = d) rest"
    using assms(2) by (simp_all add: ts)
  then have "list_all (\<lambda>u. nrows u = nrows t \<and> dev u = dev t) rest"
    by simp
  from cat_onto_shape [OF this] show ?thesis
    by (simp add: cat_def ts t)
qed

lemma broadcast2_same_shape:
  assumes "shape a = (m, n, d)" and "shape b = (m, n, d)"
  shows "\<exists>t. broadcast2 f a b = Inr t \<and> shape t = (m, n, d)"
  using assms by (simp add: broadcast2_def bdim_def shape_def nrows_def)

lemma slice_cols_shape:
  "shape (slice_cols t a b) = (nrows t, min b (ncols t) - min a (ncols t), dev t)"
  by (simp add: slice_cols_def shape_def nrows_def Let_def)

lemma plan_prob_shape:
  assumes "nrows nno = nrows no" and "dev nno = dev no" and "placement plan = dev no"
    and "num_in plan = ncols no + ncols nno"
  shows "\<exists>p. plan_prob B plan device no nno w = (Inr p, w\<lparr>rng := rng w + 1\<rparr>) \<and>
           shape p = (nrows no, num_out plan, dev no)"
proof -
  have "list_all (\<lambda>t. nrows t = nrows no \<and> dev t = dev no) [no, nno]"
    using assms(1,2) by simp
  then obtain plan_in where c: "cat [no, nno] = Inr plan_in"
    "shape plan_in = (nrows no, sum_list (map ncols [no, nno]), dev no)"
    using cat_shape [of "[no, nno]" "nrows no" "dev no"] by blast
  have pi: "nrows plan_in = nrows no" "ncols plan_in = num_in plan" "dev plan_in = placement plan"
    using c(2) assms(3,4) by (simp_all add: shape_def)
  obtain l where l: "forward B plan plan_in w = (Inr l, w)"
    "shape l = (nrows plan_in, num_out plan, dev plan_in)"
    using forward_shape [OF pi(3) pi(2)] by blast
  obtain p where p: "gumbel_softmax B l device False w = (Inr p, w\<lparr>rng := rng w + 1\<rparr>)"
    "shape p = shape l"
    using gumbel_softmax_shape by blast
  have "plan_prob B plan device no nno w = (Inr p, w\<lparr>rng := rng w + 1\<rparr>)"
    using c(1) l(1) p(1) by (simp add: plan_prob_def seq_def lift_def)
  then show ?thesis
    using p(2) l(2) pi assms(3) by simp
qed

lemma plan_slices_shapes:
  assumes "list_all (\<lambda>(a, b, no, plan).
       nrows no = nrows trans_out \<and> dev no = dev trans_out \<and> placement plan = dev no \<and>
       num_in plan = ncols no + (min b (ncols trans_out) - min a (ncols trans_out))) items"
  shows "\<exists>prob_plan w'. plan_slices B device trans_out items w = (Inr prob_plan, w') \<and>
           map shape prob_plan = map (\<lambda>(a, b, no, plan). (nrows no, num_out plan, dev no)) items"
  using assms
proof (induction items arbitrary: w)
  case Nil
  show ?case by (simp add: ret_def)
next
  case (Cons x items)
  obtain a b no plan where x: "x = (a, b, no, plan)" by (cases x)
  let ?nno = "slice_cols trans_out a b"
  have ok: "nrows no = nrows trans_out" "dev no = dev trans_out" "placement plan = dev no"
    "num_in plan = ncols no + (min b (ncols trans_out) - min a (ncols trans_out))"
    and rest: "list_all (\<lambda>(a, b, no, plan).
       nrows no = nrows trans_out \<and> dev no = dev trans_out \<and> placement plan = dev no \<and>
       num_in plan = ncols no + (min b (ncols trans_out) - min a (ncols trans_out))) items"
    using Cons.prems by (simp_all add: x)
  have nno: "nrows ?nno = nrows no" "dev ?nno = dev no" "num_in plan = ncols no + ncols ?nno"
    using ok slice_cols_shape [of trans_out a b] by (simp_all add: shape_def)
  obtain p where p: "plan_prob B plan device no ?nno w = (Inr p, w\<lparr>rng := rng w + 1\<rparr>)"
    "shape p = (nrows no, num_out plan, dev no)"
    using plan_prob_shape [OF nno(1,2) ok(3) nno(3)] by blast
  obtain prob_plan w' where r:
    "plan_slices B device trans_out items (w\<lparr>rng := rng w + 1\<rparr>) = (Inr prob_plan, w')"
    "map shape prob_plan = map (\<lambda>(a, b, no, plan). (nrows no, num_out plan, dev no)) items"
    using Cons.IH [OF rest] by blast
  have "plan_slices B device trans_out (x # items) w = (Inr (p # prob_plan), w')"
    using p(1) r(1) by (simp add: x seq_def ret_def)
  then show ?case
    using p(2) r(2) by (simp add: x)
qed

lemma empowerment_E_shape:
  assumes "prob_plan \<noteq> []"
    and "list_all (\<lambda>t. nrows t = b \<and> dev t = d) prob_plan"
    and "list_all (\<lambda>t. nrows t = b \<and> dev t = d) prob_src"
    and "list_all (\<lambda>t. nrows t = b \<and> dev t = d) acs_src"
    and "map ncols prob_src = map ncols prob_plan"
    and "map ncols acs_src = map ncols prob_plan"
  shows "\<exists>E. empowerment_E prob_plan prob_src acs_src = Inr E"
proof -
  let ?n = "sum_list (map ncols prob_plan)"
  have ne: "prob_src \<noteq> []" "acs_src \<noteq> []"
    using assms(1,5,6) by auto
  obtain pp where pp: "cat prob_plan = Inr pp" "shape pp = (b, ?n, d)"
    using cat_shape [OF assms(1,2)] by blast
  obtain ps where ps: "cat prob_src = Inr ps" "shape ps = (b, ?n, d)"
    using cat_shape [OF ne(1) assms(3)] assms(5) by auto
  obtain ac where ac: "cat acs_src = Inr ac" "shape ac = (b, ?n, d)"
    using cat_shape [OF ne(2) assms(4)] assms(6) by auto
  obtain x where x: "tmul ac pp = Inr x" "shape x = (b, ?n, d)"
    using broadcast2_same_shape [OF ac(2) pp(2)] unfolding tmul_def by blast
  obtain y where y: "tmul ac ps = Inr y" "shape y = (b, ?n, d)"
    using broadcast2_same_shape [OF ac(2) ps(2)] unfolding tmul_def by blast
  obtain E where "tsub x y = Inr E"
    using broadcast2_same_shape [OF x(2) y(2)] unfolding tsub_def by blast
  then show ?thesis
    using pp(1) ps(1) ac(1) x(1) y(1) by (simp add: empowerment_E_def)
qed

lemma broadcast2_same_shape_rows:
  assumes "shape a = (m, n, d)" and "shape b = (m, n, d)"
  shows "broadcast2 f a b =
           Inr \<lparr>ncols = n,
                rows = map (\<lambda>r. map (\<lambda>c. f (rows a ! r ! c) (rows b ! r ! c)) [0..<n]) [0..<m],
                dev = d\<rparr>"
proof -
  have ix: "bidx k i = i" if "i < k" for k i
    using that by (simp add: bidx_def)
  have "map (\<lambda>r. map (\<lambda>c. f (rows a ! bidx m r ! bidx n c) (rows b ! bidx m r ! bidx n c)) [0..<n])
          [0..<m] =
        map (\<lambda>r. map (\<lambda>c. f (rows a ! r ! c) (rows b ! r ! c)) [0..<n]) [0..<m]"
    by (intro map_cong refl) (simp add: ix)
  then show ?thesis
    using assms by (simp add: broadcast2_def bdim_def shape_def)
qed

lemma empowerment_E_rows:
  assumes "prob_plan \<noteq> []"
    and "list_all (\<lambda>t. nrows t = b \<and> dev t = d) prob_plan"
    and "list_all (\<lambda>t. nrows t = b \<and> dev t = d) prob_src"
    and "list_all (\<lambda>t. nrows t = b \<and> dev t = d) acs_src"
    and "map ncols prob_src = map ncols prob_plan"
    and "map ncols acs_src = map ncols prob_plan"
  shows "\<exists>A P S E. cat acs_src = Inr A \<and> cat prob_plan = Inr P \<and> cat prob_src = Inr S \<and>
           empowerment_E prob_plan prob_src acs_src = Inr E \<and>
           to_rows E = hadamard_E A P S"
proof -
  let ?n = "sum_list (map ncols prob_plan)"
  have ne: "prob_src \<noteq> []" "acs_src \<noteq> []"
    using assms(1,5,6) by auto
  obtain P where P: "cat prob_plan = Inr P" "shape P = (b, ?n, d)"
    using cat_shape [OF assms(1,2)] by blast
  obtain S where S: "cat prob_src = Inr S" "shape S = (b, ?n, d)"
    using cat_shape [OF ne(1) assms(3)] assms(5) by auto
  obtain A where A: "cat acs_src = Inr A" "shape A = (b, ?n, d)"
    using cat_shape [OF ne(2) assms(4)] assms(6) by auto
  let ?X = "\<lparr>ncols = ?n,
             rows = map (\<lambda>r. map (\<lambda>c. rows A ! r ! c * rows P ! r ! c) [0..<?n]) [0..<b],
             dev = d\<rparr>"
  let ?Y = "\<lparr>ncols = ?n,
             rows = map (\<lambda>r. map (\<lambda>c. rows A ! r ! c * rows S ! r ! c) [0..<?n]) [0..<b],
             dev = d\<rparr>"
  have X: "tmul A P = Inr ?X"
    unfolding tmul_def by (rule broadcast2_same_shape_rows [OF A(2) P(2)])
  have Y: "tmul A S = Inr ?Y"
    unfolding tmul_def by (rule broadcast2_same_shape_rows [OF A(2) S(2)])
  have sh: "shape ?X = (b, ?n, d)" "shape ?Y = (b, ?n, d)"
    by (simp_all add: shape_def nrows_def)
  let ?E = "\<lparr>ncols = ?n,
             rows = map (\<lambda>r. map (\<lambda>c. rows ?X ! r ! c - rows ?Y ! r ! c) [0..<?n]) [0..<b],
             dev = d\<rparr>"
  have E: "tsub ?X ?Y = Inr ?E"
    unfolding tsub_def by (rule broadcast2_same_shape_rows [OF sh])
  have "rows ?E = map (\<lambda>r. map (\<lambda>c. rows A ! r ! c * rows P ! r ! c -
                                      rows A ! r ! c * rows S ! r ! c) [0..<?n]) [0..<b]"
    by (simp cong: map_cong)
  moreover have "ncols A = ?n" "nrows A = b"
    using A(2) by (simp_all add: shape_def)
  ultimately have "to_rows ?E = hadamard_E A P S"
    by (simp add: to_rows_def hadamard_E_def)
  moreover have "empowerment_E prob_plan prob_src acs_src = Inr ?E"
    using P(1) S(1) A(1) X Y E by (simp add: empowerment_E_def)
  ultimately show ?thesis
    using A(1) P(1) S(1) by blast
qed

lemma i_rews_rows: "to_rows (scale m (ones 1 n)) = [replicate n (m * 1)]"
  by (simp add: to_rows_def scale_def ones_def)

lemma shapes_const:
  assumes "map shape ts = map g xs" and "\<And>x. x \<in> set xs \<Longrightarrow> g x = s"
  shows "length ts = length xs" and "list_all (\<lambda>t. shape t = s) ts"
proof -
  show len: "length ts = length xs"
    using assms(1) by (rule map_eq_imp_length_eq)
  have "shape (ts ! i) = s" if "i < length ts" for i
  proof -
    have "shape (ts ! i) = map shape ts ! i"
      using that by simp
    also have "\<dots> = g (xs ! i)"
      using that len by (simp add: assms(1))
    also have "\<dots> = s"
      using that len by (simp add: assms(2))
    finally show ?thesis .
  qed
  then show "list_all (\<lambda>t. shape t = s) ts"
    by (simp add: list_all_length)
qed

lemma const_shape_parts:
  assumes "list_all (\<lambda>t. shape t = (b, c, d)) ts"
  shows "list_all (\<lambda>t. nrows t = b \<and> dev t = d) ts"
    and "sum_list (map ncols ts) = length ts * c"
    and "map ncols ts = replicate (length ts) c"
  using assms by (induction ts) (simp_all add: shape_def)

lemma uniform_bounds_nth:
  "i < n \<Longrightarrow> uniform_bounds w n ! i = (i * w, (i + 1) * w)"
  by (simp add: uniform_bounds_def)

lemma length_uniform_bounds: "length (uniform_bounds w n) = n"
  by (simp add: uniform_bounds_def)

lemma joint_compute_samples_returns:
  assumes "joint_compute_pre (est w) rewards next_obs"
  shows "\<exists>acs_src prob_src prob_plan w'.
           joint_compute_samples B rewards next_obs w =
             (Inr (acs_src, prob_src, prob_plan), w') \<and>
           prob_plan \<noteq> [] \<and>
           list_all (\<lambda>t. nrows t = shape0 next_obs \<and> dev t = Host) prob_plan \<and>
           list_all (\<lambda>t. nrows t = shape0 next_obs \<and> dev t = Host) prob_src \<and>
           list_all (\<lambda>t. nrows t = shape0 next_obs \<and> dev t = Host) acs_src \<and>
           map ncols prob_src = map ncols prob_plan \<and>
           map ncols acs_src = map ncols prob_plan"
proof -
  let ?self = "est w"
  let ?n = "shape1 rewards"
  let ?b = "shape0 next_obs"
  let ?wd = "num_in (source ?self)"
  let ?a = "num_out (source ?self)"
  let ?W = "num_out (transition ?self)"
  from assms have n: "1 \<le> ?n" "?n \<le> shape1 next_obs" and b: "1 \<le> ?b"
    and cells: "list_all (\<lambda>i. list_all (\<lambda>r. length (item next_obs r i) = ?wd) [0..<?b]) [0..<?n]"
    and host: "placement (source ?self) = Host" "placement (transition ?self) = Host"
      "placement (planning ?self) = Host"
    and tin: "num_in (transition ?self) = ?n * ?wd + ?n * ?a"
    and tout: "?n * ?wd \<le> ?W"
    and pin: "num_in (planning ?self) = ?wd + ?wd"
    and pout: "num_out (planning ?self) = ?a"
    by (simp_all add: joint_compute_pre_def Let_def)
  \<comment> \<open>line 47-48: one tensor per agent\<close>
  have "list_all (\<lambda>i. i < shape1 next_obs \<and>
           list_all (\<lambda>r. length (item next_obs r i) = ?wd) [0..<?b]) [0..<?n]"
    using cells n(2) by (simp add: list_all_iff)
  from stack_columns_shapes [OF b, where wd = "\<lambda>i. ?wd", OF this]
  obtain nobs where nobs: "stack_columns next_obs [0..<?n] = Inr nobs"
    "map shape nobs = map (\<lambda>i. (?b, ?wd, Host)) [0..<?n]"
    by blast
  have nobs_len: "length nobs = ?n" and nobs_sh: "list_all (\<lambda>t. shape t = (?b, ?wd, Host)) nobs"
    using shapes_const [OF nobs(2), of "(?b, ?wd, Host)"] by simp_all
  have nobs_ne: "nobs \<noteq> []"
    using nobs_len n(1) by auto
  note nobs_parts = const_shape_parts [OF nobs_sh]
  \<comment> \<open>line 52-54\<close>
  let ?pairs = "map (\<lambda>no. (no, source ?self)) nobs"
  have "list_all (\<lambda>(no, src). dev no = placement src \<and> ncols no = num_in src) ?pairs"
    using nobs_sh host(1) by (simp add: list_all_iff shape_def)
  from source_loop_shapes [OF this]
  obtain acs_src prob_src w1 where src:
    "source_loop B (source_dev ?self) ?pairs w = (Inr (acs_src, prob_src), w1)"
    "map shape acs_src = map (\<lambda>(no, src). (nrows no, num_out src, dev no)) ?pairs"
    "map shape prob_src = map (\<lambda>(no, src). (nrows no, num_out src, dev no)) ?pairs"
    by blast
  have pair_sh: "(\<lambda>(no, src). (nrows no, num_out src, dev no)) x = (?b, ?a, Host)"
    if "x \<in> set ?pairs" for x
    using that nobs_sh by (auto simp: list_all_iff shape_def)
  have acs_len: "length acs_src = ?n" and acs_sh: "list_all (\<lambda>t. shape t = (?b, ?a, Host)) acs_src"
    using shapes_const [OF src(2) pair_sh] nobs_len by simp_all
  have ps_len: "length prob_src = ?n" and ps_sh: "list_all (\<lambda>t. shape t = (?b, ?a, Host)) prob_src"
    using shapes_const [OF src(3) pair_sh] nobs_len by simp_all
  note acs_parts = const_shape_parts [OF acs_sh]
  note ps_parts = const_shape_parts [OF ps_sh]
  \<comment> \<open>line 56-57\<close>
  have "nobs @ acs_src \<noteq> []" "list_all (\<lambda>t. nrows t = ?b \<and> dev t = Host) (nobs @ acs_src)"
    using nobs_ne nobs_parts(1) acs_parts(1) by simp_all
  from cat_shape [OF this]
  obtain trans_in where ti: "cat (nobs @ acs_src) = Inr trans_in"
    "shape trans_in = (?b, sum_list (map ncols (nobs @ acs_src)), Host)"
    by blast
  have ti_sh: "nrows trans_in = ?b" "dev trans_in = placement (transition ?self)"
    "ncols trans_in = num_in (transition ?self)"
    using ti(2) nobs_parts(2) acs_parts(2) nobs_len acs_len host(2) tin
    by (simp_all add: shape_def)
  from forward_shape [OF ti_sh(2,3)]
  obtain trans_out where to: "forward B (transition ?self) trans_in w1 = (Inr trans_out, w1)"
    "shape trans_out = (nrows trans_in, ?W, dev trans_in)"
    by blast
  have to_sh: "nrows trans_out = ?b" "ncols trans_out = ?W" "dev trans_out = Host"
    using to(2) ti_sh host(2) by (simp_all add: shape_def)
  \<comment> \<open>line 59\<close>
  have frl: "first_row_len nobs = Inr ?wd"
  proof -
    obtain t rest where "nobs = t # rest"
      using nobs_ne by (cases nobs) auto
    then show ?thesis
      using nobs_sh b by (simp add: first_row_len_def shape_def)
  qed
  \<comment> \<open>line 60-63\<close>
  let ?items = "with_bounds (uniform_bounds ?wd (length nobs)) (map (\<lambda>no. (no, planning ?self)) nobs)"
  have loop: "joint_plan_loop B (planning ?self) (plan_dev ?self) ?wd trans_out 0 nobs =
      plan_slices B (plan_dev ?self) trans_out ?items"
    using joint_plan_loop_bounds [of B "planning ?self" "plan_dev ?self" ?wd trans_out 0 nobs]
    by (simp add: case_prod_unfold)
  have items_len: "length ?items = ?n"
    by (simp add: with_bounds_def length_uniform_bounds nobs_len)
  have item: "?items ! i = (i * ?wd, (i + 1) * ?wd, nobs ! i, planning ?self)" if "i < ?n" for i
    using that by (simp add: with_bounds_def length_uniform_bounds nobs_len uniform_bounds_nth)
  have items_ok: "list_all (\<lambda>(a, b, no, plan).
       nrows no = nrows trans_out \<and> dev no = dev trans_out \<and> placement plan = dev no \<and>
       num_in plan = ncols no + (min b (ncols trans_out) - min a (ncols trans_out))) ?items"
    unfolding list_all_length items_len
  proof (intro allI impI)
    fix i assume i: "i < ?n"
    have sh: "shape (nobs ! i) = (?b, ?wd, Host)"
      using nobs_sh i nobs_len by (simp add: list_all_length)
    have "(i + 1) * ?wd \<le> ?n * ?wd"
      using i by (intro mult_le_mono1) simp
    then have le: "(i + 1) * ?wd \<le> ?W" "i * ?wd \<le> ?W"
      using tout by simp_all
    have "min ((i + 1) * ?wd) ?W - min (i * ?wd) ?W = ?wd"
      using le by (simp add: min_def)
    then show "case ?items ! i of (a, b, no, plan) \<Rightarrow>
       nrows no = nrows trans_out \<and> dev no = dev trans_out \<and> placement plan = dev no \<and>
       num_in plan = ncols no + (min b (ncols trans_out) - min a (ncols trans_out))"
      using sh to_sh host(3) pin unfolding item [OF i] by (simp add: shape_def)
  qed
  from plan_slices_shapes [OF items_ok]
  obtain prob_plan w2 where pl:
    "plan_slices B (plan_dev ?self) trans_out ?items w1 = (Inr prob_plan, w2)"
    "map shape prob_plan = map (\<lambda>(a, b, no, plan). (nrows no, num_out plan, dev no)) ?items"
    by blast
  have item_sh: "(\<lambda>(a, b, no, plan). (nrows no, num_out plan, dev no)) x = (?b, ?a, Host)"
    if "x \<in> set ?items" for x
  proof -
    from that obtain i where i: "i < ?n" "x = ?items ! i"
      using items_len by (auto simp: in_set_conv_nth)
    have sh: "shape (nobs ! i) = (?b, ?wd, Host)"
      using nobs_sh i nobs_len by (simp add: list_all_length)
    show ?thesis
      using sh pout unfolding i(2) item [OF i(1)] by (simp add: shape_def)
  qed
  have pp_len: "length prob_plan = ?n" and pp_sh: "list_all (\<lambda>t. shape t = (?b, ?a, Host)) prob_plan"
    using shapes_const [OF pl(2) item_sh] items_len by simp_all
  note pp_parts = const_shape_parts [OF pp_sh]
  \<comment> \<open>line 64-68\<close>
  have pp_ne: "prob_plan \<noteq> []"
    using pp_len n(1) by auto
  have cols: "map ncols prob_src = map ncols prob_plan" "map ncols acs_src = map ncols prob_plan"
    using pp_parts(3) ps_parts(3) acs_parts(3) pp_len ps_len acs_len by simp_all
  have "joint_compute_samples B rewards next_obs w = (Inr (acs_src, prob_src, prob_plan), w2)"
    using nobs(1) src(1) ti(1) to(1) frl pl(1)
    by (simp add: joint_compute_samples_def seq_def lift_def gets_def ret_def loop)
  then show ?thesis
    using pp_ne pp_parts(1) ps_parts(1) acs_parts(1) cols by blast
qed

lemma shapes_nth:
  assumes "map shape ts = map g xs"
  shows "length ts = length xs" and "\<And>i. i < length xs \<Longrightarrow> shape (ts ! i) = g (xs ! i)"
proof -
  show len: "length ts = length xs"
    using assms by (rule map_eq_imp_length_eq)
  fix i assume i: "i < length xs"
  have "shape (ts ! i) = map shape ts ! i"
    using i len by simp
  also have "\<dots> = g (xs ! i)"
    using i by (simp add: assms)
  finally show "shape (ts ! i) = g (xs ! i)" .
qed

lemma transfer_compute_samples_returns:
  assumes "transfer_compute_pre (est w) rewards next_obs"
  shows "\<exists>acs_src prob_src prob_plan w'.
           transfer_compute_samples B rewards next_obs w =
             (Inr (acs_src, prob_src, prob_plan), w') \<and>
           prob_plan \<noteq> [] \<and>
           list_all (\<lambda>t. nrows t = shape0 next_obs \<and> dev t = Host) prob_plan \<and>
           list_all (\<lambda>t. nrows t = shape0 next_obs \<and> dev t = Host) prob_src \<and>
           list_all (\<lambda>t. nrows t = shape0 next_obs \<and> dev t = Host) acs_src \<and>
           map ncols prob_src = map ncols prob_plan \<and>
           map ncols acs_src = map ncols prob_plan"
proof -
  let ?self = "est w"
  let ?n = "shape1 rewards"
  let ?b = "shape0 next_obs"
  let ?srcs = "source ?self"
  let ?plans = "planning ?self"
  let ?W = "num_out (transition ?self)"
  from assms have n: "1 \<le> ?n" "?n \<le> shape1 next_obs" and b: "1 \<le> ?b"
    and len: "length ?srcs = ?n" "length ?plans = ?n"
    and per: "list_all (\<lambda>i.
             list_all (\<lambda>r. length (item next_obs r i) = num_in (?srcs ! i)) [0..<?b] \<and>
             placement (?srcs ! i) = Host \<and> placement (?plans ! i) = Host \<and>
             num_in (?plans ! i) = num_in (?srcs ! i) + num_in (?srcs ! i) \<and>
             num_out (?plans ! i) = num_out (?srcs ! i) \<and>
             num_in (?srcs ! i) \<le> ?W) [0..<?n]"
    and host: "placement (transition ?self) = Host"
    and tin: "num_in (transition ?self) =
           sum_list (map num_in ?srcs) + sum_list (map num_out ?srcs)"
    by (simp_all add: transfer_compute_pre_def Let_def)
  have agent: "list_all (\<lambda>r. length (item next_obs r i) = num_in (?srcs ! i)) [0..<?b]"
    "placement (?srcs ! i) = Host" "placement (?plans ! i) = Host"
    "num_in (?plans ! i) = num_in (?srcs ! i) + num_in (?srcs ! i)"
    "num_out (?plans ! i) = num_out (?srcs ! i)"
    "num_in (?srcs ! i) \<le> ?W" if "i < ?n" for i
    using per that by (simp_all add: list_all_iff)
  \<comment> \<open>line 213-214: one tensor per agent\<close>
  have "list_all (\<lambda>i. i < shape1 next_obs \<and>
           list_all (\<lambda>r. length (item next_obs r i) = num_in (?srcs ! i)) [0..<?b]) [0..<?n]"
    using agent(1) n(2) by (simp add: list_all_iff)
  from stack_columns_shapes [OF b, where wd = "\<lambda>i. num_in (?srcs ! i)", OF this]
  obtain nobs where nobs: "stack_columns next_obs [0..<?n] = Inr nobs"
    "map shape nobs = map (\<lambda>i. (?b, num_in (?srcs ! i), Host)) [0..<?n]"
    by blast
  have nobs_len: "length nobs = ?n"
    using shapes_nth(1) [OF nobs(2)] by simp
  have nobs_sh: "shape (nobs ! i) = (?b, num_in (?srcs ! i), Host)" if "i < ?n" for i
    using shapes_nth(2) [OF nobs(2), of i] that by simp
  have nobs_ne: "nobs \<noteq> []"
    using nobs_len n(1) by auto
  have nobs_rows: "list_all (\<lambda>t. nrows t = ?b \<and> dev t = Host) nobs"
    using nobs_sh nobs_len by (simp add: list_all_length shape_def)
  have nobs_cols: "map ncols nobs = map num_in ?srcs"
    using nobs_sh nobs_len len(1) by (intro nth_equalityI) (simp_all add: shape_def)
  \<comment> \<open>line 218-220\<close>
  let ?pairs = "zip nobs ?srcs"
  have pairs_len: "length ?pairs = ?n"
    using nobs_len len(1) by simp
  have "list_all (\<lambda>(no, src). dev no = placement src \<and> ncols no = num_in src) ?pairs"
    unfolding list_all_length pairs_len
    using nobs_sh agent(2) nobs_len len(1) by (simp add: shape_def)
  from source_loop_shapes [OF this]
  obtain acs_src prob_src w1 where src:
    "source_loop B (source_dev ?self) ?pairs w = (Inr (acs_src, prob_src), w1)"
    "map shape acs_src = map (\<lambda>(no, src). (nrows no, num_out src, dev no)) ?pairs"
    "map shape prob_src = map (\<lambda>(no, src). (nrows no, num_out src, dev no)) ?pairs"
    by blast
  have acs_len: "length acs_src = ?n" and ps_len: "length prob_src = ?n"
    using shapes_nth(1) [OF src(2)] shapes_nth(1) [OF src(3)] pairs_len by simp_all
  have acs_sh: "shape (acs_src ! i) = (?b, num_out (?srcs ! i), Host)"
    and ps_sh: "shape (prob_src ! i) = (?b, num_out (?srcs ! i), Host)" if "i < ?n" for i
    using shapes_nth(2) [OF src(2), of i] shapes_nth(2) [OF src(3), of i] that pairs_len
      nobs_sh [OF that] nobs_len len(1)
    by (simp_all add: shape_def)
  have acs_rows: "list_all (\<lambda>t. nrows t = ?b \<and> dev t = Host) acs_src"
    using acs_sh acs_len by (simp add: list_all_length shape_def)
  have ps_rows: "list_all (\<lambda>t. nrows t = ?b \<and> dev t = Host) prob_src"
    using ps_sh ps_len by (simp add: list_all_length shape_def)
  have acs_cols: "map ncols acs_src = map num_out ?srcs"
    using acs_sh acs_len len(1) by (intro nth_equalityI) (simp_all add: shape_def)
  have ps_cols: "map ncols prob_src = map num_out ?srcs"
    using ps_sh ps_len len(1) by (intro nth_equalityI) (simp_all add: shape_def)
  \<comment> \<open>line 222-223\<close>
  have "nobs @ acs_src \<noteq> []" "list_all (\<lambda>t. nrows t = ?b \<and> dev t = Host) (nobs @ acs_src)"
    using nobs_ne nobs_rows acs_rows by simp_all
  from cat_shape [OF this]
  obtain trans_in where ti: "cat (nobs @ acs_src) = Inr trans_in"
    "shape trans_in = (?b, sum_list (map ncols (nobs @ acs_src)), Host)"
    by blast
  have ti_sh: "nrows trans_in = ?b" "dev trans_in = placement (transition ?self)"
    "ncols trans_in = num_in (transition ?self)"
    using ti(2) nobs_cols acs_cols host tin by (simp_all add: shape_def)
  from forward_shape [OF ti_sh(2,3)]
  obtain trans_out where to: "forward B (transition ?self) trans_in w1 = (Inr trans_out, w1)"
    "shape trans_out = (nrows trans_in, ?W, dev trans_in)"
    by blast
  have to_sh: "nrows trans_out = ?b" "ncols trans_out = ?W" "dev trans_out = Host"
    using to(2) ti_sh host by (simp_all add: shape_def)
  \<comment> \<open>line 225-230\<close>
  let ?pp = "zip nobs ?plans"
  let ?items = "with_bounds (map (\<lambda>(no, plan). (0, 0 + ncols no)) ?pp) ?pp"
  have loop: "transfer_compute_plan_loop B (plan_dev ?self) trans_out 0 ?pp =
      plan_slices B (plan_dev ?self) trans_out ?items"
    by (rule transfer_compute_plan_loop_bounds)
  have items_len: "length ?items = ?n"
    by (simp add: with_bounds_def nobs_len len(2))
  have item: "?items ! i = (0, ncols (nobs ! i), nobs ! i, ?plans ! i)" if "i < ?n" for i
    using that by (simp add: with_bounds_def nobs_len len(2))
  have items_ok: "list_all (\<lambda>(a, b, no, plan).
       nrows no = nrows trans_out \<and> dev no = dev trans_out \<and> placement plan = dev no \<and>
       num_in plan = ncols no + (min b (ncols trans_out) - min a (ncols trans_out))) ?items"
    unfolding list_all_length items_len
  proof (intro allI impI)
    fix i assume i: "i < ?n"
    show "case ?items ! i of (a, b, no, plan) \<Rightarrow>
       nrows no = nrows trans_out \<and> dev no = dev trans_out \<and> placement plan = dev no \<and>
       num_in plan = ncols no + (min b (ncols trans_out) - min a (ncols trans_out))"
      using nobs_sh [OF i] to_sh agent(3,4,6) [OF i] unfolding item [OF i]
      by (simp add: shape_def min_def)
  qed
  from plan_slices_shapes [OF items_ok]
  obtain prob_plan w2 where pl:
    "plan_slices B (plan_dev ?self) trans_out ?items w1 = (Inr prob_plan, w2)"
    "map shape prob_plan = map (\<lambda>(a, b, no, plan). (nrows no, num_out plan, dev no)) ?items"
    by blast
  have pp_len: "length prob_plan = ?n"
    using shapes_nth(1) [OF pl(2)] items_len by simp
  have pp_sh: "shape (prob_plan ! i) = (?b, num_out (?srcs ! i), Host)" if "i < ?n" for i
    using shapes_nth(2) [OF pl(2), of i] that items_len nobs_sh [OF that] agent(5) [OF that]
    unfolding item [OF that] by (simp add: shape_def)
  have pp_rows: "list_all (\<lambda>t. nrows t = ?b \<and> dev t = Host) prob_plan"
    using pp_sh pp_len by (simp add: list_all_length shape_def)
  have pp_cols: "map ncols prob_plan = map num_out ?srcs"
    using pp_sh pp_len len(1) by (intro nth_equalityI) (simp_all add: shape_def)
  \<comment> \<open>line 231-235\<close>
  have pp_ne: "prob_plan \<noteq> []"
    using pp_len n(1) by auto
  have cols: "map ncols prob_src = map ncols prob_plan" "map ncols acs_src = map ncols prob_plan"
    using pp_cols ps_cols acs_cols by simp_all
  have "transfer_compute_samples B rewards next_obs w = (Inr (acs_src, prob_src, prob_plan), w2)"
    using nobs(1) src(1) ti(1) to(1) pl(1)
    by (simp add: transfer_compute_samples_def seq_def lift_def gets_def ret_def loop)
  then show ?thesis
    using pp_ne pp_rows ps_rows acs_rows cols by blast
qed

subsection \<open>The result of \<^verbatim>\<open>compute\<close>\<close>

lemma post_seq: "(\<And>x s1. post (k x) s1 Q) \<Longrightarrow> post (seq m k) s Q"
  by (rule post_seq_keeps [where f = "\<lambda>s. ()"]) (simp_all add: keeps_def)

lemma post_ret: "Q x s \<Longrightarrow> post (ret x) s Q"
  by (simp add: post_def ret_def)

lemma seq_assoc: "seq (seq m k) h = seq m (\<lambda>x. seq (k x) h)"
proof (rule ext)
  fix s
  obtain r s1 where m: "m s = (r, s1)" by (cases "m s")
  show "seq (seq m k) h s = seq m (\<lambda>x. seq (k x) h) s"
    by (cases r) (simp_all add: seq_def m)
qed

lemma seq_case_prod:
  "seq (case p of (a, b) \<Rightarrow> f a b) h = (case p of (a, b) \<Rightarrow> seq (f a b) h)"
  by (cases p) simp

lemma seq_ret: "seq (ret x) h = h x"
  by (rule ext) (simp add: seq_def ret_def)

lemma joint_compute_split:
  "joint_compute B rewards next_obs =
     seq (joint_compute_samples B rewards next_obs) (\<lambda>(acs_src, prob_src, prob_plan).
     seq (lift (empowerment_E prob_plan prob_src acs_src)) (\<lambda>E.
     ret (to_rows (scale (tmean B E) (ones 1 (shape1 rewards))))))"
  by (simp add: joint_compute_def joint_compute_samples_def seq_assoc seq_case_prod seq_ret)

lemma transfer_compute_split:
  "transfer_compute B rewards next_obs =
     seq (transfer_compute_samples B rewards next_obs) (\<lambda>(acs_src, prob_src, prob_plan).
     seq (lift (empowerment_E prob_plan prob_src acs_src)) (\<lambda>E.
     ret (to_rows (scale (tmean B E) (ones 1 (shape1 rewards))))))"
  by (simp add: transfer_compute_def transfer_compute_samples_def seq_assoc seq_case_prod seq_ret)

lemma after_samples:
  assumes "samples w = (Inr (acs_src, prob_src, prob_plan), w')"
    and "empowerment_E prob_plan prob_src acs_src = Inr E"
  shows "seq samples (\<lambda>(acs_src, prob_src, prob_plan).
           seq (lift (empowerment_E prob_plan prob_src acs_src)) (\<lambda>E.
           ret (to_rows (scale (tmean B E) (ones 1 n))))) w =
         (Inr [replicate n (tmean B E * 1)], w')"
  using assms by (simp add: seq_def lift_def ret_def to_rows_def scale_def ones_def)

lemma before_result:
  assumes "seq samples (\<lambda>(acs_src, prob_src, prob_plan).
           seq (lift (empowerment_E prob_plan prob_src acs_src)) (\<lambda>E.
           ret (to_rows (scale (tmean B E) (ones 1 n))))) w = (Inr r, w')"
  shows "\<exists>acs_src prob_src prob_plan E.
           samples w = (Inr (acs_src, prob_src, prob_plan), w') \<and>
           empowerment_E prob_plan prob_src acs_src = Inr E \<and>
           r = [replicate n (tmean B E * 1)]"
proof -
  from assms obtain x s1 where
    1: "samples w = (Inr x, s1)" and
    2: "(case x of (acs_src, prob_src, prob_plan) \<Rightarrow>
           seq (lift (empowerment_E prob_plan prob_src acs_src)) (\<lambda>E.
           ret (to_rows (scale (tmean B E) (ones 1 n))))) s1 = (Inr r, w')"
    by (rule seq_Inr_elim)
  obtain acs_src prob_src prob_plan where x: "x = (acs_src, prob_src, prob_plan)"
    by (cases x)
  from 2 obtain E s2 where
    3: "lift (empowerment_E prob_plan prob_src acs_src) s1 = (Inr E, s2)" and
    4: "ret (to_rows (scale (tmean B E) (ones 1 n))) s2 = (Inr r, w')"
    unfolding x prod.case by (rule seq_Inr_elim)
  have "empowerment_E prob_plan prob_src acs_src = Inr E" "s2 = s1"
    using 3 by (simp_all add: lift_def)
  moreover have "r = [replicate n (tmean B E * 1)]" "w' = s2"
    using 4 by (simp_all add: ret_def to_rows_def scale_def ones_def)
  ultimately show ?thesis
    using 1 x by blast
qed

lemma joint_compute_returns:
  assumes "joint_compute_pre (est w) rewards next_obs"
  shows "\<exists>E w'. joint_compute B rewards next_obs w =
           (Inr [replicate (shape1 rewards) (tmean B E * 1)], w')"
proof -
  from joint_compute_samples_returns [OF assms, of B]
  obtain acs_src prob_src prob_plan w' where
    s: "joint_compute_samples B rewards next_obs w = (Inr (acs_src, prob_src, prob_plan), w')"
    and sh: "prob_plan \<noteq> []"
      "list_all (\<lambda>t. nrows t = shape0 next_obs \<and> dev t = Host) prob_plan"
      "list_all (\<lambda>t. nrows t = shape0 next_obs \<and> dev t = Host) prob_src"
      "list_all (\<lambda>t. nrows t = shape0 next_obs \<and> dev t = Host) acs_src"
      "map ncols prob_src = map ncols prob_plan"
      "map ncols acs_src = map ncols prob_plan"
    by blast
  from empowerment_E_shape [OF sh]
  obtain E where E: "empowerment_E prob_plan prob_src acs_src = Inr E"
    by blast
  show ?thesis
    unfolding joint_compute_split
    using after_samples [where samples = "joint_compute_samples B rewards next_obs" and w = w,
        OF s E, of B "shape1 rewards"]
    by blast
qed

lemma transfer_compute_returns:
  assumes "transfer_compute_pre (est w) rewards next_obs"
  shows "\<exists>E w'. transfer_compute B rewards next_obs w =
           (Inr [replicate (shape1 rewards) (tmean B E * 1)], w')"
proof -
  from transfer_compute_samples_returns [OF assms, of B]
  obtain acs_src prob_src prob_plan w' where
    s: "transfer_compute_samples B rewards next_obs w = (Inr (acs_src, prob_src, prob_plan), w')"
    and sh: "prob_plan \<noteq> []"
      "list_all (\<lambda>t. nrows t = shape0 next_obs \<and> dev t = Host) prob_plan"
      "list_all (\<lambda>t. nrows t = shape0 next_obs \<and> dev t = Host) prob_src"
      "list_all (\<lambda>t. nrows t = shape0 next_obs \<and> dev t = Host) acs_src"
      "map ncols prob_src = map ncols prob_plan"
      "map ncols acs_src = map ncols prob_plan"
    by blast
  from empowerment_E_shape [OF sh]
  obtain E where E: "empowerment_E prob_plan prob_src acs_src = Inr E"
    by blast
  show ?thesis
    unfolding transfer_compute_split
    using after_samples [where samples = "transfer_compute_samples B rewards next_obs" and w = w,
        OF s E, of B "shape1 rewards"]
    by blast
qed

lemma mean_of_samples:
  assumes s: "samples w = (Inr (acs_src, prob_src, prob_plan), w')"
    and sh: "prob_plan \<noteq> []"
      "list_all (\<lambda>t. nrows t = b \<and> dev t = d) prob_plan"
      "list_all (\<lambda>t. nrows t = b \<and> dev t = d) prob_src"
      "list_all (\<lambda>t. nrows t = b \<and> dev t = d) acs_src"
      "map ncols prob_src = map ncols prob_plan"
      "map ncols acs_src = map ncols prob_plan"
  shows "\<exists>A P S. cat acs_src = Inr A \<and> cat prob_plan = Inr P \<and> cat prob_src = Inr S \<and>
           seq samples (\<lambda>(acs_src, prob_src, prob_plan).
             seq (lift (empowerment_E prob_plan prob_src acs_src)) (\<lambda>E.
             ret (to_rows (scale (tmean B E) (ones 1 n))))) w =
           (Inr [replicate n (mean B (hadamard_E A P S) * 1)], w')"
proof -
  from empowerment_E_rows [OF sh]
  obtain A P S E where c: "cat acs_src = Inr A" "cat prob_plan = Inr P" "cat prob_src = Inr S"
    and E: "empowerment_E prob_plan prob_src acs_src = Inr E"
    and r: "to_rows E = hadamard_E A P S"
    by blast
  have "tmean B E = mean B (hadamard_E A P S)"
    by (simp add: tmean_def r)
  then show ?thesis
    using after_samples [where samples = samples and w = w, OF s E, of B n] c by auto
qed

lemma joint_compute_result_form:
  assumes "joint_compute B rewards next_obs w = (Inr r, w')"
  shows "\<exists>E. r = [replicate (shape1 rewards) (tmean B E * 1)]"
proof -
  have "post (joint_compute B rewards next_obs) w
          (\<lambda>r s'. \<exists>E. r = [replicate (shape1 rewards) (tmean B E * 1)])"
    unfolding joint_compute_def
    by (intro post_seq post_case_prod post_ret) (auto simp: to_rows_def scale_def ones_def)
  then show ?thesis
    using assms by (rule postD)
qed

lemma transfer_compute_result_form:
  assumes "transfer_compute B rewards next_obs w = (Inr r, w')"
  shows "\<exists>E. r = [replicate (shape1 rewards) (tmean B E * 1)]"
proof -
  have "post (transfer_compute B rewards next_obs) w
          (\<lambda>r s'. \<exists>E. r = [replicate (shape1 rewards) (tmean B E * 1)])"
    unfolding transfer_compute_def
    by (intro post_seq post_case_prod post_ret) (auto simp: to_rows_def scale_def ones_def)
  then show ?thesis
    using assms by (rule postD)
qed

lemma joint_pre_example:
  "(case joint_init_from_env stub_backend env_4_4 of
      Inl e \<Rightarrow> False
    | Inr w \<Rightarrow> joint_compute_pre (est w) rewards_2_2 obs_4_4)"
  by code_simp

lemma transfer_pre_example:
  "(case transfer_init_from_env stub_backend env_3_5_2 (1 / 100) 64 False False of
      Inl e \<Rightarrow> False
    | Inr v \<Rightarrow> transfer_compute_pre (est v) rewards_1_3 obs_3_5_2)"
  by code_simp

text \<open>
  C3, as the code has it. The claim asks only for matching batch sizes; \<^verbatim>\<open>compute\<close>
  also needs feature widths that fit the networks, and raises otherwise: here a transfer
  estimator built for observation widths 3, 5 and 2 gets one row per agent, the second
  agent's of width 4.
\<close>

theorem compute_raises_on_wrong_width:
  "shape1 rewards_1_3 = 3 \<and> shape0 rewards_1_3 = 1 \<and> shape0 obs_3_4_2 = 1 \<and>
   (case transfer_init_from_env stub_backend env_3_5_2 (1 / 100) 64 False False of
      Inl e \<Rightarrow> False
    | Inr v \<Rightarrow> fst (transfer_compute stub_backend rewards_1_3 obs_3_4_2 v) = Inl ShapeMismatch)"
  by code_simp

lemma joint_samples_example:
  "(case joint_init_from_env stub_backend env_4_4 of
      Inl e \<Rightarrow> False
    | Inr w \<Rightarrow>
        (case joint_compute_samples stub_backend rewards_2_2 obs_4_4 w of
           (Inl e, w') \<Rightarrow> False
         | (Inr (acs_src, prob_src, prob_plan), w') \<Rightarrow>
             map to_rows acs_src = [[[1, 0, 0], [1, 0, 0]], [[1, 0, 0], [1, 0, 0]]] \<and>
             map to_rows prob_plan = [[[10, 10, 11], [9, 11, 10]], [[11, 12, 9], [10, 10, 9]]] \<and>
             map to_rows prob_src = [[[6, 6, 7], [5, 7, 6]], [[7, 8, 5], [6, 6, 5]]] \<and>
             (case cat acs_src of Inl e \<Rightarrow> False | Inr A \<Rightarrow>
              case cat prob_plan of Inl e \<Rightarrow> False | Inr P \<Rightarrow>
              case cat prob_src of Inl e \<Rightarrow> False | Inr S \<Rightarrow>
                hadamard_E A P S = [[4, 0, 0, 4, 0, 0], [4, 0, 0, 4, 0, 0]])))"
  by code_simp

lemma transfer_samples_example:
  "(case transfer_init_from_env stub_backend env_3_5_2 (1 / 100) 64 False False of
      Inl e \<Rightarrow> False
    | Inr v \<Rightarrow>
        (case transfer_compute_samples stub_backend rewards_1_3 obs_3_5_2 v of
           (Inl e, v') \<Rightarrow> False
         | (Inr (acs_src, prob_src, prob_plan), v') \<Rightarrow>
             map to_rows acs_src = [[[1, 0, 0, 0]], [[1, 0]], [[1, 0, 0, 0, 0, 0]]] \<and>
             map to_rows prob_plan = [[[18, 17, 19, 19]], [[23, 23]], [[28, 26, 27, 26, 25, 25]]] \<and>
             map to_rows prob_src = [[[6, 5, 7, 5]], [[11, 11]], [[16, 14, 13, 13, 13, 13]]] \<and>
             (case cat acs_src of Inl e \<Rightarrow> False | Inr A \<Rightarrow>
              case cat prob_plan of Inl e \<Rightarrow> False | Inr P \<Rightarrow>
              case cat prob_src of Inl e \<Rightarrow> False | Inr S \<Rightarrow>
                hadamard_E A P S = [[12, 0, 0, 0, 12, 0, 12, 0, 0, 0, 0, 0]])))"
  by code_simp

text \<open>
  C3, amended. For an input that fits the estimator (\<open>joint_compute_pre\<close>,
  \<open>transfer_compute_pre\<close>: at least one agent and one row, a column of next observations
  per agent whose vectors have the width of the agent's source network, networks on the
  host and sized to each other), \<^verbatim>\<open>compute\<close> returns an array of one row with one entry
  per agent, every entry the same number: the mean of \<open>E\<close> times one, where \<open>E\<close> has at
  each position the hard source sample times the planning sample minus the hard source
  sample times the soft source sample, over the samples of all agents side by side.
  Whenever \<^verbatim>\<open>compute\<close> returns, its result is the broadcast mean of the tensor \<open>E\<close> of
  line 68 (line 235), computed from the samples that the call has drawn.
\<close>

theorem compute_broadcasts_mean:
  "(joint_compute_pre (est w) rewards next_obs \<longrightarrow>
      (\<exists>acs_src prob_src prob_plan A P S w'.
         joint_compute_samples B rewards next_obs w =
           (Inr (acs_src, prob_src, prob_plan), w') \<and>
         cat acs_src = Inr A \<and> cat prob_plan = Inr P \<and> cat prob_src = Inr S \<and>
         joint_compute B rewards next_obs w =
           (Inr [replicate (shape1 rewards) (mean B (hadamard_E A P S) * 1)], w'))) \<and>
   (transfer_compute_pre (est v) rewards next_obs \<longrightarrow>
      (\<exists>acs_src prob_src prob_plan A P S v'.
         transfer_compute_samples B rewards next_obs v =
           (Inr (acs_src, prob_src, prob_plan), v') \<and>
         cat acs_src = Inr A \<and> cat prob_plan = Inr P \<and> cat prob_src = Inr S \<and>
         transfer_compute B rewards next_obs v =
           (Inr [replicate (shape1 rewards) (mean B (hadamard_E A P S) * 1)], v'))) \<and>
   (joint_compute B rewards next_obs w = (Inr r, w1) \<longrightarrow>
      (\<exists>acs_src prob_src prob_plan E.
         joint_compute_samples B rewards next_obs w =
           (Inr (acs_src, prob_src, prob_plan), w1) \<and>
         empowerment_E prob_plan prob_src acs_src = Inr E \<and>
         r = [replicate (shape1 rewards) (tmean B E * 1)])) \<and>
   (transfer_compute B rewards next_obs v = (Inr r', v1) \<longrightarrow>
      (\<exists>acs_src prob_src prob_plan E.
         transfer_compute_samples B rewards next_obs v =
           (Inr (acs_src, prob_src, prob_plan), v1) \<and>
         empowerment_E prob_plan prob_src acs_src = Inr E \<and>
         r' = [replicate (shape1 rewards) (tmean B E * 1)]))"
proof (intro conjI impI)
  assume pre: "joint_compute_pre (est w) rewards next_obs"
  from joint_compute_samples_returns [OF pre, of B]
  obtain acs_src prob_src prob_plan w' where
    s: "joint_compute_samples B rewards next_obs w = (Inr (acs_src, prob_src, prob_plan), w')"
    and sh: "prob_plan \<noteq> []"
      "list_all (\<lambda>t. nrows t = shape0 next_obs \<and> dev t = Host) prob_plan"
      "list_all (\<lambda>t. nrows t = shape0 next_obs \<and> dev t = Host) prob_src"
      "list_all (\<lambda>t. nrows t = shape0 next_obs \<and> dev t = Host) acs_src"
      "map ncols prob_src = map ncols prob_plan"
      "map ncols acs_src = map ncols prob_plan"
    by blast
  from mean_of_samples [where samples = "joint_compute_samples B rewards next_obs" and w = w,
      OF s sh, of B "shape1 rewards"]
  obtain A P S where "cat acs_src = Inr A" "cat prob_plan = Inr P" "cat prob_src = Inr S"
    "joint_compute B rewards next_obs w =
       (Inr [replicate (shape1 rewards) (mean B (hadamard_E A P S) * 1)], w')"
    unfolding joint_compute_split by blast
  with s show "\<exists>acs_src prob_src prob_plan A P S w'.
         joint_compute_samples B rewards next_obs w =
           (Inr (acs_src, prob_src, prob_plan), w') \<and>
         cat acs_src = Inr A \<and> cat prob_plan = Inr P \<and> cat prob_src = Inr S \<and>
         joint_compute B rewards next_obs w =
           (Inr [replicate (shape1 rewards) (mean B (hadamard_E A P S) * 1)], w')"
    by blast
next
  assume pre: "transfer_compute_pre (est v) rewards next_obs"
  from transfer_compute_samples_returns [OF pre, of B]
  obtain acs_src prob_src prob_plan v' where
    s: "transfer_compute_samples B rewards next_obs v = (Inr (acs_src, prob_src, prob_plan), v')"
    and sh: "prob_plan \<noteq> []"
      "list_all (\<lambda>t. nrows t = shape0 next_obs \<and> dev t = Host) prob_plan"
      "list_all (\<lambda>t. nrows t = shape0 next_obs \<and> dev t = Host) prob_src"
      "list_all (\<lambda>t. nrows t = shape0 next_obs \<and> dev t = Host) acs_src"
      "map ncols prob_src = map ncols prob_plan"
      "map ncols acs_src = map ncols prob_plan"
    by blast
  from mean_of_samples [where samples = "transfer_compute_samples B rewards next_obs" and w = v,
      OF s sh, of B "shape1 rewards"]
  obtain A P S where "cat acs_src = Inr A" "cat prob_plan = Inr P" "cat prob_src = Inr S"
    "transfer_compute B rewards next_obs v =
       (Inr [replicate (shape1 rewards) (mean B (hadamard_E A P S) * 1)], v')"
    unfolding transfer_compute_split by blast
  with s show "\<exists>acs_src prob_src prob_plan A P S v'.
         transfer_compute_samples B rewards next_obs v =
           (Inr (acs_src, prob_src, prob_plan), v') \<and>
         cat acs_src = Inr A \<and> cat prob_plan = Inr P \<and> cat prob_src = Inr S \<and>
         transfer_compute B rewards next_obs v =
           (Inr [replicate (shape1 rewards) (mean B (hadamard_E A P S) * 1)], v')"
    by blast
next
  assume "joint_compute B rewards next_obs w = (Inr r, w1)"
  then show "\<exists>acs_src prob_src prob_plan E.
         joint_compute_samples B rewards next_obs w =
           (Inr (acs_src, prob_src, prob_plan), w1) \<and>
         empowerment_E prob_plan prob_src acs_src = Inr E \<and>
         r = [replicate (shape1 rewards) (tmean B E * 1)]"
    unfolding joint_compute_split by (rule before_result)
next
  assume "transfer_compute B rewards next_obs v = (Inr r', v1)"
  then show "\<exists>acs_src prob_src prob_plan E.
         transfer_compute_samples B rewards next_obs v =
           (Inr (acs_src, prob_src, prob_plan), v1) \<and>
         empowerment_E prob_plan prob_src acs_src = Inr E \<and>
         r' = [replicate (shape1 rewards) (tmean B E * 1)]"
    unfolding transfer_compute_split by (rule before_result)
qed

theorem compute_broadcasts_mean_witness:
  "\<exists>w v (A :: real tensor) P S (A' :: real tensor) P' S' w' v'.
     joint_init_from_env stub_backend env_4_4 = Inr w \<and>
     transfer_init_from_env stub_backend env_3_5_2 (1 / 100) 64 False False = Inr v \<and>
     joint_compute_pre (est w) rewards_2_2 obs_4_4 \<and>
     transfer_compute_pre (est v) rewards_1_3 obs_3_5_2 \<and>
     hadamard_E A P S = [[4, 0, 0, 4, 0, 0], [4, 0, 0, 4, 0, 0]] \<and>
     joint_compute stub_backend rewards_2_2 obs_4_4 w = (Inr [[4 / 3, 4 / 3]], w') \<and>
     hadamard_E A' P' S' = [[12, 0, 0, 0, 12, 0, 12, 0, 0, 0, 0, 0]] \<and>
     transfer_compute stub_backend rewards_1_3 obs_3_5_2 v = (Inr [[3, 3, 3]], v')"
proof -
  from joint_pre_example obtain w where
    w: "joint_init_from_env stub_backend env_4_4 = Inr w"
    and jp: "joint_compute_pre (est w) rewards_2_2 obs_4_4"
    by (rule built)
  from transfer_pre_example obtain v where
    v: "transfer_init_from_env stub_backend env_3_5_2 (1 / 100) 64 False False = Inr v"
    and tp: "transfer_compute_pre (est v) rewards_1_3 obs_3_5_2"
    by (rule built)
  have n: "shape1 rewards_2_2 = 2" "shape1 rewards_1_3 = 3"
    by (simp_all add: rewards_2_2_def rewards_1_3_def)
  have m: "mean stub_backend x = exact_mean x" for x
    by (simp add: stub_backend_def)
  from compute_broadcasts_mean [where w = w and rewards = rewards_2_2 and next_obs = obs_4_4
      and B = stub_backend] jp
  obtain acs_src prob_src prob_plan A P S w' where
    js: "joint_compute_samples stub_backend rewards_2_2 obs_4_4 w =
           (Inr (acs_src, prob_src, prob_plan), w')"
    and jc: "cat acs_src = Inr A" "cat prob_plan = Inr P" "cat prob_src = Inr S"
    and j: "joint_compute stub_backend rewards_2_2 obs_4_4 w =
       (Inr [replicate (shape1 rewards_2_2) (mean stub_backend (hadamard_E A P S) * 1)], w')"
    by blast
  have jE: "hadamard_E A P S = [[4, 0, 0, 4, 0, 0], [4, 0, 0, 4, 0, 0]]"
    using joint_samples_example by (simp add: w js jc)
  have j': "joint_compute stub_backend rewards_2_2 obs_4_4 w = (Inr [[4 / 3, 4 / 3]], w')"
    unfolding j n jE m by (simp add: exact_mean_def numeral_2_eq_2)
  from compute_broadcasts_mean [where v = v and rewards = rewards_1_3 and next_obs = obs_3_5_2
      and B = stub_backend] tp
  obtain acs_src' prob_src' prob_plan' A' P' S' v' where
    ts: "transfer_compute_samples stub_backend rewards_1_3 obs_3_5_2 v =
           (Inr (acs_src', prob_src', prob_plan'), v')"
    and tc: "cat acs_src' = Inr A'" "cat prob_plan' = Inr P'" "cat prob_src' = Inr S'"
    and t: "transfer_compute stub_backend rewards_1_3 obs_3_5_2 v =
       (Inr [replicate (shape1 rewards_1_3) (mean stub_backend (hadamard_E A' P' S') * 1)], v')"
    by blast
  have tE: "hadamard_E A' P' S' = [[12, 0, 0, 0, 12, 0, 12, 0, 0, 0, 0, 0]]"
    using transfer_samples_example by (simp add: v ts tc)
  have t': "transfer_compute stub_backend rewards_1_3 obs_3_5_2 v = (Inr [[3, 3, 3]], v')"
    unfolding t n tE m by (simp add: exact_mean_def numeral_3_eq_3)
  have body: "joint_init_from_env stub_backend env_4_4 = Inr w \<and>
     transfer_init_from_env stub_backend env_3_5_2 (1 / 100) 64 False False = Inr v \<and>
     joint_compute_pre (est w) rewards_2_2 obs_4_4 \<and>
     transfer_compute_pre (est v) rewards_1_3 obs_3_5_2 \<and>
     hadamard_E A P S = [[4, 0, 0, 4, 0, 0], [4, 0, 0, 4, 0, 0]] \<and>
     joint_compute stub_backend rewards_2_2 obs_4_4 w = (Inr [[4 / 3, 4 / 3]], w') \<and>
     hadamard_E A' P' S' = [[12, 0, 0, 0, 12, 0, 12, 0, 0, 0, 0, 0]] \<and>
     transfer_compute stub_backend rewards_1_3 obs_3_5_2 v = (Inr [[3, 3, 3]], v')"
    using w v jp tp jE j' tE t' by simp
  show ?thesis
    by (rule exI [of _ w], rule exI [of _ v], rule exI [of _ A], rule exI [of _ P],
        rule exI [of _ S], rule exI [of _ A'], rule exI [of _ P'], rule exI [of _ S'],
        rule exI [of _ w'], rule exI [of _ v']) (rule body)
qed

text \<open>
  C8, as the code has it: not every call returns. Here \<^verbatim>\<open>rewards\<close> has a column for
  three agents and the array of next observations has two columns; the list
  comprehension of line 47 raises IndexError at the third.
\<close>

theorem compute_raises_on_missing_column:
  "shape1 rewards_2_3 = 3 \<and> shape1 obs_4_4 = 2 \<and>
   (case joint_init_from_env stub_backend env_4_4 of
      Inl e \<Rightarrow> False
    | Inr w \<Rightarrow> fst (joint_compute stub_backend rewards_2_3 obs_4_4 w) = Inl IndexError)"
  by code_simp

text \<open>
  C8, amended. Every call of \<^verbatim>\<open>compute\<close>, whether it returns or raises, leaves the
  estimator object (networks, optimizers, device tags, \<open>niter\<close>), the parameter tensors
  and the logger's record as they were; only the sampler's randomness may have advanced.
  Every call that returns gives one row with one value per agent, and a call returns
  whenever the input fits the estimator (\<open>joint_compute_pre\<close>, \<open>transfer_compute_pre\<close>).
\<close>

theorem compute_changes_only_sampler:
  "est (snd (joint_compute B rewards next_obs w)) = est w \<and>
   heap (snd (joint_compute B rewards next_obs w)) = heap w \<and>
   logged (snd (joint_compute B rewards next_obs w)) = logged w \<and>
   est (snd (transfer_compute B rewards next_obs v)) = est v \<and>
   heap (snd (transfer_compute B rewards next_obs v)) = heap v \<and>
   logged (snd (transfer_compute B rewards next_obs v)) = logged v \<and>
   (joint_compute B rewards next_obs w = (Inr r, w1) \<longrightarrow>
      length r = 1 \<and> length (concat r) = shape1 rewards) \<and>
   (transfer_compute B rewards next_obs v = (Inr r', v1) \<longrightarrow>
      length r' = 1 \<and> length (concat r') = shape1 rewards) \<and>
   (joint_compute_pre (est w) rewards next_obs \<longrightarrow>
      (\<exists>r w'. joint_compute B rewards next_obs w = (Inr r, w'))) \<and>
   (transfer_compute_pre (est v) rewards next_obs \<longrightarrow>
      (\<exists>r v'. transfer_compute B rewards next_obs v = (Inr r, v')))"
proof -
  have 1: "est (snd (joint_compute B rewards next_obs w)) = est w"
    using keeps_joint_compute [of est B rewards next_obs] by (simp add: keeps_def)
  have 2: "heap (snd (joint_compute B rewards next_obs w)) = heap w"
    using keeps_joint_compute [of heap B rewards next_obs] by (simp add: keeps_def)
  have 3: "logged (snd (joint_compute B rewards next_obs w)) = logged w"
    using keeps_joint_compute [of logged B rewards next_obs] by (simp add: keeps_def)
  have 4: "est (snd (transfer_compute B rewards next_obs v)) = est v"
    using keeps_transfer_compute [of est B rewards next_obs] by (simp add: keeps_def)
  have 5: "heap (snd (transfer_compute B rewards next_obs v)) = heap v"
    using keeps_transfer_compute [of heap B rewards next_obs] by (simp add: keeps_def)
  have 6: "logged (snd (transfer_compute B rewards next_obs v)) = logged v"
    using keeps_transfer_compute [of logged B rewards next_obs] by (simp add: keeps_def)
  have 7: "length r = 1 \<and> length (concat r) = shape1 rewards"
    if "joint_compute B rewards next_obs w = (Inr r, w1)"
    using joint_compute_result_form [OF that] by auto
  have 8: "length r' = 1 \<and> length (concat r') = shape1 rewards"
    if "transfer_compute B rewards next_obs v = (Inr r', v1)"
    using transfer_compute_result_form [OF that] by auto
  have 9: "\<exists>r w'. joint_compute B rewards next_obs w = (Inr r, w')"
    if "joint_compute_pre (est w) rewards next_obs"
    using joint_compute_returns [OF that, of B] by blast
  have 10: "\<exists>r v'. transfer_compute B rewards next_obs v = (Inr r, v')"
    if "transfer_compute_pre (est v) rewards next_obs"
    using transfer_compute_returns [OF that, of B] by blast
  show ?thesis
    using 1 2 3 4 5 6 7 8 9 10 by blast
qed

theorem compute_changes_only_sampler_witness:
  "\<exists>w v r r' w' v'.
     joint_init_from_env stub_backend env_4_4 = Inr w \<and>
     transfer_init_from_env stub_backend env_3_5_2 (1 / 100) 64 False False = Inr v \<and>
     joint_compute_pre (est w) rewards_2_2 obs_4_4 \<and>
     transfer_compute_pre (est v) rewards_1_3 obs_3_5_2 \<and>
     joint_compute stub_backend rewards_2_2 obs_4_4 w = (Inr r, w') \<and>
     transfer_compute stub_backend rewards_1_3 obs_3_5_2 v = (Inr r', v') \<and>
     est w' = est w \<and> heap w' = heap w \<and> logged w' = logged w \<and>
     est v' = est v \<and> heap v' = heap v \<and> logged v' = logged v \<and>
     length (concat r) = 2 \<and> length (concat r') = 3"
proof -
  from joint_pre_example obtain w where
    w: "joint_init_from_env stub_backend env_4_4 = Inr w"
    and jp: "joint_compute_pre (est w) rewards_2_2 obs_4_4"
    by (rule built)
  from transfer_pre_example obtain v where
    v: "transfer_init_from_env stub_backend env_3_5_2 (1 / 100) 64 False False = Inr v"
    and tp: "transfer_compute_pre (est v) rewards_1_3 obs_3_5_2"
    by (rule built)
  note j = compute_changes_only_sampler [where B = stub_backend and rewards = rewards_2_2
      and next_obs = obs_4_4 and w = w]
  note t = compute_changes_only_sampler [where B = stub_backend and rewards = rewards_1_3
      and next_obs = obs_3_5_2 and v = v]
  from j jp obtain r w' where jr: "joint_compute stub_backend rewards_2_2 obs_4_4 w = (Inr r, w')"
    by blast
  from t tp obtain r' v' where tr: "transfer_compute stub_backend rewards_1_3 obs_3_5_2 v = (Inr r', v')"
    by blast
  have n: "shape1 rewards_2_2 = 2" "shape1 rewards_1_3 = 3"
    by (simp_all add: rewards_2_2_def rewards_1_3_def)
  have jf: "est w' = est w" "heap w' = heap w" "logged w' = logged w"
    using j jr by simp_all
  have tf: "est v' = est v" "heap v' = heap v" "logged v' = logged v"
    using t tr by simp_all
  have jl: "length (concat r) = 2"
    using compute_changes_only_sampler [where B = stub_backend and rewards = rewards_2_2
      and next_obs = obs_4_4 and w = w and r = r and ?w1.0 = w'] jr n
    by simp
  have tl: "length (concat r') = 3"
    using compute_changes_only_sampler [where B = stub_backend and rewards = rewards_1_3
      and next_obs = obs_3_5_2 and v = v and r' = r' and ?v1.0 = v'] tr n
    by simp
  have body: "joint_init_from_env stub_backend env_4_4 = Inr w \<and>
     transfer_init_from_env stub_backend env_3_5_2 (1 / 100) 64 False False = Inr v \<and>
     joint_compute_pre (est w) rewards_2_2 obs_4_4 \<and>
     transfer_compute_pre (est v) rewards_1_3 obs_3_5_2 \<and>
     joint_compute stub_backend rewards_2_2 obs_4_4 w = (Inr r, w') \<and>
     transfer_compute stub_backend rewards_1_3 obs_3_5_2 v = (Inr r', v') \<and>
     est w' = est w \<and> heap w' = heap w \<and> logged w' = logged w \<and>
     est v' = est v \<and> heap v' = heap v \<and> logged v' = logged v \<and>
     length (concat r) = 2 \<and> length (concat r') = 3"
    using w v jp tp jr tr jf tf jl tl by simp
  show ?thesis
    by (rule exI [of _ w], rule exI [of _ v], rule exI [of _ r], rule exI [of _ r'],
        rule exI [of _ w'], rule exI [of _ v']) (rule body)
qed

end
